theory Spec2Isabelle
  imports Main "HOL-Library.Word"
begin

unbundle bit_operations_syntax

section \<open>Machine types\<close>

text \<open>
  The driver is C for Windows. \<open>ULONG\<close> and \<open>LONG\<close> are 32 bits, \<open>UCHAR\<close> is a byte,
  the statistics counters are 64 bits. Pointers and handles are modelled as 64-bit
  values, \<open>NULL\<close> being 0. Arithmetic on words wraps, as the C arithmetic on \<open>ULONG\<close> does.
\<close>

type_synonym ULONG = "32 word"
type_synonym LONG = "32 word"
type_synonym UCHAR = "8 word"
type_synonym LONG64 = "64 word"
type_synonym PVOID = "64 word"

definition NULL :: PVOID where
  "NULL = 0"

definition MAXULONG :: ULONG where
  "MAXULONG = 0xFFFFFFFF"

text \<open>
  Status codes. The numeric values live in the Windows headers, not in the driver, and
  nothing in the driver depends on them but \<open>NT_SUCCESS\<close>; the codes the driver names
  are constructors, and \<open>STATUS_OTHER\<close> stands for any other failure code a kernel
  service returns. \<open>NDIS_STATUS_SUCCESS\<close> is \<open>STATUS_SUCCESS\<close>.
\<close>

datatype NTSTATUS =
    STATUS_SUCCESS
  | STATUS_ALREADY_INITIALIZED
  | STATUS_INVALID_PARAMETER
  | STATUS_INSUFFICIENT_RESOURCES
  | STATUS_INVALID_USER_BUFFER
  | NDIS_STATUS_FAILURE
  | NDIS_STATUS_ADAPTER_REMOVED
  | NDIS_STATUS_PAUSED
  | NDIS_STATUS_MEDIA_DISCONNECTED
  | NDIS_STATUS_INVALID_LENGTH
  | NDIS_STATUS_ADAPTER_NOT_READY
  | NDIS_STATUS_BUFFER_OVERFLOW
  | STATUS_OTHER nat

definition NT_SUCCESS :: "NTSTATUS \<Rightarrow> bool" where
  "NT_SUCCESS Status = (Status = STATUS_SUCCESS)"

section \<open>Ring protocol\<close>

definition TUN_ALIGNMENT :: ULONG where
  "TUN_ALIGNMENT = 4"

definition TUN_ALIGN :: "ULONG \<Rightarrow> ULONG" where
  "TUN_ALIGN Size = (Size + (TUN_ALIGNMENT - 1)) AND NOT (TUN_ALIGNMENT - 1)"

definition TUN_MAX_IP_PACKET_SIZE :: ULONG where
  "TUN_MAX_IP_PACKET_SIZE = 0xFFFF"

text \<open>\<open>sizeof(TUN_PACKET)\<close>: the \<open>ULONG Size\<close> field; \<open>Data\<close> is a flexible array.\<close>

definition sizeof_TUN_PACKET :: ULONG where
  "sizeof_TUN_PACKET = 4"

text \<open>\<open>sizeof(TUN_RING)\<close>: \<open>Head\<close>, \<open>Tail\<close> and \<open>Alertable\<close>, 4 bytes each.\<close>

definition sizeof_TUN_RING :: ULONG where
  "sizeof_TUN_RING = 12"

definition TUN_MAX_PACKET_SIZE :: ULONG where
  "TUN_MAX_PACKET_SIZE = TUN_ALIGN (sizeof_TUN_PACKET + TUN_MAX_IP_PACKET_SIZE)"

definition TUN_MIN_RING_CAPACITY :: ULONG where
  "TUN_MIN_RING_CAPACITY = 0x20000"

definition TUN_MAX_RING_CAPACITY :: ULONG where
  "TUN_MAX_RING_CAPACITY = 0x4000000"

text \<open>
  The macro subtracts \<open>size_t\<close> values from a \<open>ULONG\<close> and the result is stored into a
  \<open>ULONG\<close> field: the subtraction modulo \<open>2 ^ 32\<close>.
\<close>

definition TUN_RING_CAPACITY :: "ULONG \<Rightarrow> ULONG" where
  "TUN_RING_CAPACITY Size = Size - sizeof_TUN_RING - (TUN_MAX_PACKET_SIZE - TUN_ALIGNMENT)"

definition TUN_RING_WRAP :: "ULONG \<Rightarrow> ULONG \<Rightarrow> ULONG" where
  "TUN_RING_WRAP Value Capacity = Value AND (Capacity - 1)"

text \<open>
  The two quantities the paths compute from \<open>Head\<close> and \<open>Tail\<close>: \<open>RingSpace\<close> of
  \<open>TunSendNetBufferLists\<close> and \<open>RingContent\<close> of \<open>TunProcessReceiveData\<close>.
\<close>

definition RingSpace :: "ULONG \<Rightarrow> ULONG \<Rightarrow> ULONG \<Rightarrow> ULONG" where
  "RingSpace RingHead RingTail RingCapacity =
     TUN_RING_WRAP (RingHead - RingTail - TUN_ALIGNMENT) RingCapacity"

definition RingContent :: "ULONG \<Rightarrow> ULONG \<Rightarrow> ULONG \<Rightarrow> ULONG" where
  "RingContent RingTail RingHead RingCapacity =
     TUN_RING_WRAP (RingTail - RingHead) RingCapacity"

text \<open>A value is aligned when it is a multiple of \<open>TUN_ALIGNMENT\<close>.\<close>

definition is_aligned :: "ULONG \<Rightarrow> bool" where
  "is_aligned v = (unat v mod unat TUN_ALIGNMENT = 0)"

text \<open>
  The shared ring. \<open>Data\<close> is the byte array behind the header, indexed by byte offset;
  the region has \<open>Capacity + TUN_MAX_PACKET_SIZE - TUN_ALIGNMENT\<close> bytes.
\<close>

record TUN_RING =
  Head :: ULONG
  Tail :: ULONG
  Alertable :: LONG
  Data :: "nat \<Rightarrow> UCHAR"

text \<open>
  What the comments on \<open>Head\<close> and \<open>Tail\<close> in \<open>TUN_RING\<close> ask of them: each a multiple
  of \<open>TUN_ALIGNMENT\<close> and less than the ring capacity.
\<close>

definition TUN_RING_valid :: "ULONG \<Rightarrow> TUN_RING \<Rightarrow> bool" where
  "TUN_RING_valid Capacity r =
     (is_aligned (Head r) \<and> Head r < Capacity \<and> is_aligned (Tail r) \<and> Tail r < Capacity)"

text \<open>
  A \<open>TUN_PACKET\<close> at byte offset \<open>a\<close> of \<open>Data\<close>: the \<open>ULONG Size\<close> in the machine's byte
  order (little-endian on every Windows target), then the payload.
\<close>

definition store_ULONG :: "(nat \<Rightarrow> UCHAR) \<Rightarrow> nat \<Rightarrow> ULONG \<Rightarrow> (nat \<Rightarrow> UCHAR)" where
  "store_ULONG m a v =
     m(a := ucast v, a + 1 := ucast (drop_bit 8 v),
       a + 2 := ucast (drop_bit 16 v), a + 3 := ucast (drop_bit 24 v))"

definition load_ULONG :: "(nat \<Rightarrow> UCHAR) \<Rightarrow> nat \<Rightarrow> ULONG" where
  "load_ULONG m a =
     ucast (m a) OR push_bit 8 (ucast (m (a + 1))) OR
     push_bit 16 (ucast (m (a + 2))) OR push_bit 24 (ucast (m (a + 3)))"

definition NdisMoveMemory :: "(nat \<Rightarrow> UCHAR) \<Rightarrow> nat \<Rightarrow> UCHAR list \<Rightarrow> (nat \<Rightarrow> UCHAR)" where
  "NdisMoveMemory m a bs = (\<lambda>i. if a \<le> i \<and> i < a + length bs then bs ! (i - a) else m i)"

definition read_bytes :: "(nat \<Rightarrow> UCHAR) \<Rightarrow> nat \<Rightarrow> nat \<Rightarrow> UCHAR list" where
  "read_bytes m a n = map (\<lambda>i. m (a + i)) [0..<n]"

text \<open>\<open>Packet->Size\<close> and \<open>Packet->Data\<close> for \<open>Packet = Ring->Data + Offset\<close>.\<close>

definition Packet_Size :: "TUN_RING \<Rightarrow> ULONG \<Rightarrow> ULONG" where
  "Packet_Size Ring Offset = load_ULONG (Data Ring) (unat Offset)"

definition Packet_Data :: "TUN_RING \<Rightarrow> ULONG \<Rightarrow> ULONG \<Rightarrow> UCHAR list" where
  "Packet_Data Ring Offset PacketSize =
     read_bytes (Data Ring) (unat Offset + unat sizeof_TUN_PACKET) (unat PacketSize)"

section \<open>Adapter context\<close>

definition TUN_FLAGS_RUNNING :: LONG where
  "TUN_FLAGS_RUNNING = 1"

definition TUN_FLAGS_PRESENT :: LONG where
  "TUN_FLAGS_PRESENT = 2"

definition TUN_FLAGS_CONNECTED :: LONG where
  "TUN_FLAGS_CONNECTED = 4"

record NDIS_STATISTICS_INFO =
  ifHCOutOctets :: LONG64
  ifHCOutUcastOctets :: LONG64
  ifHCOutUcastPkts :: LONG64
  ifOutDiscards :: LONG64
  ifHCInOctets :: LONG64
  ifHCInUcastOctets :: LONG64
  ifHCInUcastPkts :: LONG64
  ifInDiscards :: LONG64

record TUN_SEND =
  SendMdl :: PVOID
  SendRing :: PVOID
  SendCapacity :: ULONG
  SendTailMoved :: PVOID

record TUN_RECEIVE =
  ReceiveMdl :: PVOID
  ReceiveRing :: PVOID
  ReceiveCapacity :: ULONG
  ReceiveTailMoved :: PVOID
  ReceiveThread :: PVOID

record TUN_CTX =
  Flags :: LONG
  MiniportAdapterHandle :: PVOID
  Statistics :: NDIS_STATISTICS_INFO
  Owner :: PVOID
  Send :: TUN_SEND
  Receive :: TUN_RECEIVE
  NblPool :: PVOID

section \<open>The kernel around the driver\<close>

text \<open>
  What the driver's calls into the kernel and NDIS act on, as far as the driver can
  tell: the ring memory by the address it is mapped at, the object references, MDLs,
  locked pages and handles the driver holds, and logs (latest first) of the events it
  has set, the link states it has indicated, the packets it has indicated upward and
  the send requests it has completed. An entry of \<open>LockedPages\<close> is an MDL whose pages are
  locked, with the system address they are mapped at (\<open>NULL\<close> while they are not).
\<close>

datatype NBL_FLAG = NDIS_NBL_FLAGS_IS_IPV4 | NDIS_NBL_FLAGS_IS_IPV6

datatype ETH_TYPE = NDIS_ETH_TYPE_IPV4 | NDIS_ETH_TYPE_IPV6

datatype NDIS_MEDIA_CONNECT_STATE = MediaConnectStateConnected | MediaConnectStateDisconnected

record INDICATION =
  NblFlags :: NBL_FLAG
  NblProto :: ETH_TYPE
  NblPayload :: "UCHAR list"

record KERNEL =
  Rings :: "PVOID \<Rightarrow> TUN_RING"
  ObjectRefs :: "PVOID list"
  Mdls :: "PVOID list"
  LockedPages :: "(PVOID \<times> PVOID) list"
  Handles :: "PVOID list"
  Threads :: "PVOID list"
  EventsSet :: "PVOID list"
  EventsCleared :: "PVOID list"
  LinkStates :: "NDIS_MEDIA_CONNECT_STATE list"
  Indicated :: "INDICATION list"
  Completed :: "NTSTATUS option list list"

definition KeSetEvent :: "PVOID \<Rightarrow> KERNEL \<Rightarrow> KERNEL" where
  "KeSetEvent Event k = k\<lparr>EventsSet := Event # EventsSet k\<rparr>"

definition KeClearEvent :: "PVOID \<Rightarrow> KERNEL \<Rightarrow> KERNEL" where
  "KeClearEvent Event k = k\<lparr>EventsCleared := Event # EventsCleared k\<rparr>"

definition TunIndicateStatus :: "NDIS_MEDIA_CONNECT_STATE \<Rightarrow> KERNEL \<Rightarrow> KERNEL" where
  "TunIndicateStatus MediaConnectState k = k\<lparr>LinkStates := MediaConnectState # LinkStates k\<rparr>"

definition ObDereferenceObject :: "PVOID \<Rightarrow> KERNEL \<Rightarrow> KERNEL" where
  "ObDereferenceObject Object k = k\<lparr>ObjectRefs := remove1 Object (ObjectRefs k)\<rparr>"

definition IoFreeMdl :: "PVOID \<Rightarrow> KERNEL \<Rightarrow> KERNEL" where
  "IoFreeMdl Mdl k = k\<lparr>Mdls := remove1 Mdl (Mdls k)\<rparr>"

text \<open>Unlocking the pages of an MDL also releases the system mapping made for it.\<close>

fun unlock_pages :: "PVOID \<Rightarrow> (PVOID \<times> PVOID) list \<Rightarrow> (PVOID \<times> PVOID) list" where
  "unlock_pages Mdl [] = []"
| "unlock_pages Mdl ((m, va) # l) = (if m = Mdl then l else (m, va) # unlock_pages Mdl l)"

fun map_pages :: "PVOID \<Rightarrow> PVOID \<Rightarrow> (PVOID \<times> PVOID) list \<Rightarrow> (PVOID \<times> PVOID) list" where
  "map_pages Mdl Va [] = []"
| "map_pages Mdl Va ((m, va) # l) = (if m = Mdl then (m, Va) # l else (m, va) # map_pages Mdl Va l)"

definition MmUnlockPages :: "PVOID \<Rightarrow> KERNEL \<Rightarrow> KERNEL" where
  "MmUnlockPages Mdl k = k\<lparr>LockedPages := unlock_pages Mdl (LockedPages k)\<rparr>"

definition ZwClose :: "PVOID \<Rightarrow> KERNEL \<Rightarrow> KERNEL" where
  "ZwClose Handle k = k\<lparr>Handles := remove1 Handle (Handles k)\<rparr>"

section \<open>Send path\<close>

text \<open>
  A \<open>NET_BUFFER\<close> carries its payload bytes. \<open>NdisGetDataBuffer\<close> has three outcomes:
  the data is contiguous and a pointer into the \<open>NET_BUFFER\<close> is returned; it is not,
  and NDIS copies it to the storage passed in and returns that; or the data cannot be
  mapped and \<open>NULL\<close> is returned.
\<close>

datatype NB_MAPPING = NbContiguous | NbFragmented | NbUnmappable

record NET_BUFFER =
  NbBytes :: "UCHAR list"
  NbMapping :: NB_MAPPING

definition NET_BUFFER_DATA_LENGTH :: "NET_BUFFER \<Rightarrow> ULONG" where
  "NET_BUFFER_DATA_LENGTH Nb = of_nat (length (NbBytes Nb))"

text \<open>
  The result of \<open>NdisGetDataBuffer (Nb, BytesNeeded, Storage, 1, 0)\<close> with \<open>Storage\<close> at
  offset \<open>a\<close> of the ring data \<open>m\<close>: the ring data afterwards, and whether the pointer
  returned is \<open>Storage\<close> (\<open>Some True\<close>), another one (\<open>Some False\<close>) or \<open>NULL\<close> (\<open>None\<close>).
\<close>

definition NdisGetDataBuffer ::
  "NET_BUFFER \<Rightarrow> ULONG \<Rightarrow> (nat \<Rightarrow> UCHAR) \<Rightarrow> nat \<Rightarrow> (nat \<Rightarrow> UCHAR) \<times> bool option" where
  "NdisGetDataBuffer Nb BytesNeeded m a =
     (case NbMapping Nb of
        NbContiguous \<Rightarrow> (m, Some False)
      | NbFragmented \<Rightarrow> (NdisMoveMemory m a (take (unat BytesNeeded) (NbBytes Nb)), Some True)
      | NbUnmappable \<Rightarrow> (m, None))"

datatype SEND_OUTCOME = Sent ULONG | Discarded NTSTATUS

text \<open>
  The body of the inner loop of \<open>TunSendNetBufferLists\<close> for one \<open>NET_BUFFER\<close>, with
  \<open>Flags\<close> as read once before the iteration. Every \<open>goto cleanupDiscardPacket\<close> and
  \<open>goto cleanupReleaseSpinLock\<close> is a \<open>Discarded\<close> result carrying the value \<open>Status\<close>
  holds at the jump; at the jump taken when \<open>NdisGetDataBuffer\<close> returns \<open>NULL\<close> that is
  still the value assigned for the ring-space test.
\<close>

definition TunSendNetBuffer ::
  "LONG \<Rightarrow> TUN_CTX \<Rightarrow> NET_BUFFER \<Rightarrow> KERNEL \<Rightarrow> SEND_OUTCOME \<times> KERNEL" where
  "TunSendNetBuffer Flgs Ctx Nb k =
     (if Flgs AND TUN_FLAGS_PRESENT = 0 then (Discarded NDIS_STATUS_ADAPTER_REMOVED, k)
      else if Flgs AND TUN_FLAGS_RUNNING = 0 then (Discarded NDIS_STATUS_PAUSED, k)
      else if Flgs AND TUN_FLAGS_CONNECTED = 0 then (Discarded NDIS_STATUS_MEDIA_DISCONNECTED, k)
      else
        let Ring = SendRing (Send Ctx);
            RingCapacity = SendCapacity (Send Ctx);
            PacketSize = NET_BUFFER_DATA_LENGTH Nb
        in
        if PacketSize > TUN_MAX_IP_PACKET_SIZE then (Discarded NDIS_STATUS_INVALID_LENGTH, k)
        else
          let AlignedPacketSize = TUN_ALIGN (sizeof_TUN_PACKET + PacketSize);
              RingHead = Head (Rings k Ring)
          in
          if RingHead \<ge> RingCapacity then (Discarded NDIS_STATUS_ADAPTER_NOT_READY, k)
          else
            let RingTail = Tail (Rings k Ring) in
            if RingTail \<ge> RingCapacity then (Discarded NDIS_STATUS_ADAPTER_NOT_READY, k)
            else if AlignedPacketSize > RingSpace RingHead RingTail RingCapacity
            then (Discarded NDIS_STATUS_BUFFER_OVERFLOW, k)
            else
              let r = Rings k Ring;
                  Packet = unat RingTail;
                  PacketData = Packet + unat sizeof_TUN_PACKET;
                  m1 = store_ULONG (Data r) Packet PacketSize;
                  (m2, NbData) = NdisGetDataBuffer Nb PacketSize m1 PacketData
              in
              case NbData of
                None \<Rightarrow>
                  (Discarded NDIS_STATUS_BUFFER_OVERFLOW, k\<lparr>Rings := (Rings k)(Ring := r\<lparr>Data := m2\<rparr>)\<rparr>)
              | Some IsStorage \<Rightarrow>
                  let m3 = (if IsStorage then m2
                            else NdisMoveMemory m2 PacketData (take (unat PacketSize) (NbBytes Nb)));
                      r' = r\<lparr>Data := m3,
                             Tail := TUN_RING_WRAP (RingTail + AlignedPacketSize) RingCapacity\<rparr>;
                      k' = KeSetEvent (SendTailMoved (Send Ctx)) (k\<lparr>Rings := (Rings k)(Ring := r')\<rparr>)
                  in (Sent PacketSize, k'))"

text \<open>
  A \<open>NET_BUFFER_LIST\<close>: its \<open>NET_BUFFER\<close>s and its status field, \<open>None\<close> while nothing
  has been stored in it.
\<close>

record NET_BUFFER_LIST =
  NetBuffers :: "NET_BUFFER list"
  NblStatus :: "NTSTATUS option"

record SEND_COUNTS =
  SentPacketsCount :: LONG64
  SentPacketsSize :: LONG64
  DiscardedPacketsCount :: LONG64

text \<open>The inner loop: the \<open>NET_BUFFER\<close>s of one list, in order.\<close>

fun TunSendNetBuffers ::
  "LONG \<Rightarrow> TUN_CTX \<Rightarrow> NET_BUFFER list \<Rightarrow> NTSTATUS option \<times> SEND_COUNTS \<times> KERNEL \<Rightarrow>
   NTSTATUS option \<times> SEND_COUNTS \<times> KERNEL" where
  "TunSendNetBuffers Flgs Ctx [] acc = acc"
| "TunSendNetBuffers Flgs Ctx (Nb # Nbs) (St, c, k) =
     (case TunSendNetBuffer Flgs Ctx Nb k of
        (Sent PacketSize, k') \<Rightarrow>
          TunSendNetBuffers Flgs Ctx Nbs
            (St, c\<lparr>SentPacketsCount := SentPacketsCount c + 1,
                   SentPacketsSize := SentPacketsSize c + ucast PacketSize\<rparr>, k')
      | (Discarded Status, k') \<Rightarrow>
          TunSendNetBuffers Flgs Ctx Nbs
            (Some Status, c\<lparr>DiscardedPacketsCount := DiscardedPacketsCount c + 1\<rparr>, k'))"

text \<open>The outer loop: the lists of the chain, in order.\<close>

fun TunSendLists ::
  "LONG \<Rightarrow> TUN_CTX \<Rightarrow> NET_BUFFER_LIST list \<Rightarrow> SEND_COUNTS \<times> KERNEL \<Rightarrow>
   NET_BUFFER_LIST list \<times> SEND_COUNTS \<times> KERNEL" where
  "TunSendLists Flgs Ctx [] (c, k) = ([], c, k)"
| "TunSendLists Flgs Ctx (Nbl # Nbls) (c, k) =
     (case TunSendNetBuffers Flgs Ctx (NetBuffers Nbl) (NblStatus Nbl, c, k) of
        (St, c', k') \<Rightarrow>
          (case TunSendLists Flgs Ctx Nbls (c', k') of
             (Nbls', c'', k'') \<Rightarrow> (Nbl\<lparr>NblStatus := St\<rparr> # Nbls', c'', k'')))"

definition TunSendNetBufferLists ::
  "TUN_CTX \<Rightarrow> NET_BUFFER_LIST list \<Rightarrow> KERNEL \<Rightarrow> TUN_CTX \<times> KERNEL" where
  "TunSendNetBufferLists Ctx NetBufferLists k =
     (case TunSendLists (Flags Ctx) Ctx NetBufferLists
             (\<lparr>SentPacketsCount = 0, SentPacketsSize = 0, DiscardedPacketsCount = 0\<rparr>, k) of
        (Nbls, c, k') \<Rightarrow>
          (Ctx\<lparr>Statistics := (Statistics Ctx)
                 \<lparr>ifHCOutOctets := ifHCOutOctets (Statistics Ctx) + SentPacketsSize c,
                  ifHCOutUcastOctets := ifHCOutUcastOctets (Statistics Ctx) + SentPacketsSize c,
                  ifHCOutUcastPkts := ifHCOutUcastPkts (Statistics Ctx) + SentPacketsCount c,
                  ifOutDiscards := ifOutDiscards (Statistics Ctx) + DiscardedPacketsCount c\<rparr>\<rparr>,
           k'\<lparr>Completed := map NblStatus Nbls # Completed k'\<rparr>))"

section \<open>Receive path\<close>

text \<open>
  The ring is shared with the user-mode producer, which runs while the worker spins
  and while it waits. What the producer does to the ring at those three points of one
  pass of the loop is given from outside, with the result of the allocation of the
  \<open>NET_BUFFER_LIST\<close> (\<open>NULL\<close> when it fails). The spin loop itself only reads \<open>Tail\<close>
  and the flags again until \<open>Tail\<close> moves, the adapter disconnects or 50 ms have
  passed: what is left of it is the value of \<open>Tail\<close> it read last.
\<close>

record RECV_ENV =
  PeerSpin :: "TUN_RING \<Rightarrow> TUN_RING"
  PeerAlert :: "TUN_RING \<Rightarrow> TUN_RING"
  PeerWait :: "TUN_RING \<Rightarrow> TUN_RING"
  NblAlloc :: PVOID

datatype LOOP = LoopBreak | LoopContinue

text \<open>The classification of the packet at \<open>Offset\<close> by the first byte of its payload.\<close>

definition TunClassify :: "TUN_RING \<Rightarrow> ULONG \<Rightarrow> ULONG \<Rightarrow> (NBL_FLAG \<times> ETH_TYPE) option" where
  "TunClassify Ring Offset PacketSize =
     (let Data0 = Data Ring (unat Offset + unat sizeof_TUN_PACKET) in
      if PacketSize \<ge> 20 \<and> drop_bit 4 Data0 = 4
      then Some (NDIS_NBL_FLAGS_IS_IPV4, NDIS_ETH_TYPE_IPV4)
      else if PacketSize \<ge> 40 \<and> drop_bit 4 Data0 = 6
      then Some (NDIS_NBL_FLAGS_IS_IPV6, NDIS_ETH_TYPE_IPV6)
      else None)"

definition TunDiscardReceived :: "TUN_CTX \<Rightarrow> TUN_CTX" where
  "TunDiscardReceived Ctx =
     Ctx\<lparr>Statistics := (Statistics Ctx)\<lparr>ifInDiscards := ifInDiscards (Statistics Ctx) + 1\<rparr>\<rparr>"

definition TunIndicateReceived :: "ULONG \<Rightarrow> TUN_CTX \<Rightarrow> TUN_CTX" where
  "TunIndicateReceived PacketSize Ctx =
     Ctx\<lparr>Statistics := (Statistics Ctx)
           \<lparr>ifHCInOctets := ifHCInOctets (Statistics Ctx) + ucast PacketSize,
            ifHCInUcastOctets := ifHCInUcastOctets (Statistics Ctx) + ucast PacketSize,
            ifHCInUcastPkts := ifHCInUcastPkts (Statistics Ctx) + 1\<rparr>\<rparr>"

text \<open>
  One pass of the loop of \<open>TunProcessReceiveData\<close> from the test of \<open>RingTail\<close> against
  the capacity on, with \<open>Flags\<close>, \<open>RingHead\<close> and \<open>RingTail\<close> as read before. The three
  ways to the label \<open>nextPacket\<close> (delivered, \<open>cleanupFreeNbl\<close>, \<open>cleanupDiscardPacket\<close>)
  all end in the store to \<open>Head\<close>.
\<close>

definition TunReceivePacket ::
  "LONG \<Rightarrow> RECV_ENV \<Rightarrow> TUN_CTX \<Rightarrow> ULONG \<Rightarrow> ULONG \<Rightarrow> KERNEL \<Rightarrow> LOOP \<times> TUN_CTX \<times> KERNEL" where
  "TunReceivePacket Flgs e Ctx RingHead RingTail k =
     (let Ring = ReceiveRing (Receive Ctx);
          RingCapacity = ReceiveCapacity (Receive Ctx);
          r = Rings k Ring
      in
      if RingTail \<ge> RingCapacity then (LoopBreak, Ctx, k)
      else if RingContent RingTail RingHead RingCapacity < sizeof_TUN_PACKET then (LoopBreak, Ctx, k)
      else
        let PacketSize = Packet_Size r RingHead in
        if PacketSize > TUN_MAX_IP_PACKET_SIZE then (LoopBreak, Ctx, k)
        else
          let AlignedPacketSize = TUN_ALIGN (sizeof_TUN_PACKET + PacketSize) in
          if AlignedPacketSize > RingContent RingTail RingHead RingCapacity then (LoopBreak, Ctx, k)
          else
            case TunClassify r RingHead PacketSize of
              None \<Rightarrow> (LoopBreak, Ctx, k)
            | Some (NblFlgs, NblPrto) \<Rightarrow>
                let (Ctx', k') =
                      (if NblAlloc e = NULL then (TunDiscardReceived Ctx, k)
                       else if Flgs AND (TUN_FLAGS_PRESENT OR TUN_FLAGS_RUNNING) \<noteq>
                               (TUN_FLAGS_PRESENT OR TUN_FLAGS_RUNNING)
                       then (TunDiscardReceived Ctx, k)
                       else (TunIndicateReceived PacketSize Ctx,
                             k\<lparr>Indicated :=
                                 \<lparr>NblFlags = NblFlgs, NblProto = NblPrto,
                                  NblPayload = Packet_Data r RingHead PacketSize\<rparr> # Indicated k\<rparr>));
                    r' = (Rings k' Ring)\<lparr>Head := TUN_RING_WRAP (RingHead + AlignedPacketSize) RingCapacity\<rparr>
                in (LoopContinue, Ctx', k'\<lparr>Rings := (Rings k')(Ring := r')\<rparr>))"

text \<open>One pass of the loop, from its top.\<close>

definition TunReceiveIteration :: "RECV_ENV \<Rightarrow> TUN_CTX \<Rightarrow> KERNEL \<Rightarrow> LOOP \<times> TUN_CTX \<times> KERNEL" where
  "TunReceiveIteration e Ctx k =
     (let Flgs = Flags Ctx in
      if Flgs AND TUN_FLAGS_CONNECTED = 0 then (LoopBreak, Ctx, k)
      else
        let Ring = ReceiveRing (Receive Ctx);
            RingCapacity = ReceiveCapacity (Receive Ctx);
            RingHead = Head (Rings k Ring)
        in
        if RingHead \<ge> RingCapacity then (LoopBreak, Ctx, k)
        else if RingHead = Tail (Rings k Ring) then
          let k1 = k\<lparr>Rings := (Rings k)(Ring := PeerSpin e (Rings k Ring))\<rparr> in
          if RingHead = Tail (Rings k1 Ring) then
            let k2 = k1\<lparr>Rings := (Rings k1)(Ring := PeerAlert e ((Rings k1 Ring)\<lparr>Alertable := 1\<rparr>))\<rparr> in
            if RingHead = Tail (Rings k2 Ring) then
              (LoopContinue, Ctx,
               k2\<lparr>Rings := (Rings k2)(Ring := (PeerWait e (Rings k2 Ring))\<lparr>Alertable := 0\<rparr>)\<rparr>)
            else
              let k3 = KeClearEvent (ReceiveTailMoved (Receive Ctx))
                         (k2\<lparr>Rings := (Rings k2)(Ring := (Rings k2 Ring)\<lparr>Alertable := 0\<rparr>)\<rparr>)
              in TunReceivePacket Flgs e Ctx RingHead (Tail (Rings k3 Ring)) k3
          else TunReceivePacket Flgs e Ctx RingHead (Tail (Rings k1 Ring)) k1
        else TunReceivePacket Flgs e Ctx RingHead (Tail (Rings k Ring)) k)"

text \<open>What the worker does when it leaves the loop: the sentinel in \<open>Head\<close>.\<close>

definition TunReceiveExit :: "TUN_CTX \<Rightarrow> KERNEL \<Rightarrow> KERNEL" where
  "TunReceiveExit Ctx k =
     k\<lparr>Rings := (Rings k)(ReceiveRing (Receive Ctx) :=
          (Rings k (ReceiveRing (Receive Ctx)))\<lparr>Head := MAXULONG\<rparr>)\<rparr>"

text \<open>
  The loop, one environment for each pass. It has returned when a pass leaves it;
  \<open>None\<close> says that the passes given did not reach that point.
\<close>

fun TunReceiveLoop :: "RECV_ENV list \<Rightarrow> TUN_CTX \<Rightarrow> KERNEL \<Rightarrow> (TUN_CTX \<times> KERNEL) option" where
  "TunReceiveLoop [] Ctx k = None"
| "TunReceiveLoop (e # es) Ctx k =
     (case TunReceiveIteration e Ctx k of
        (LoopBreak, Ctx', k') \<Rightarrow> Some (Ctx', k')
      | (LoopContinue, Ctx', k') \<Rightarrow> TunReceiveLoop es Ctx' k')"

definition TunProcessReceiveData ::
  "RECV_ENV list \<Rightarrow> TUN_CTX \<Rightarrow> KERNEL \<Rightarrow> (TUN_CTX \<times> KERNEL) option" where
  "TunProcessReceiveData es Ctx k =
     (case TunReceiveLoop es Ctx k of
        None \<Rightarrow> None
      | Some (Ctx', k') \<Rightarrow> Some (Ctx', TunReceiveExit Ctx' k'))"

section \<open>Ring registration\<close>

record TUN_REGISTER_RING =
  RingSize :: ULONG
  Ring :: PVOID
  TailMoved :: PVOID

record TUN_REGISTER_RINGS =
  RrbSend :: TUN_REGISTER_RING
  RrbReceive :: TUN_REGISTER_RING

text \<open>
  \<open>sizeof(TUN_REGISTER_RINGS)\<close> on a 64-bit target: twice a \<open>ULONG\<close> padded to 8 bytes
  and two 8-byte pointers.
\<close>

definition sizeof_TUN_REGISTER_RINGS :: ULONG where
  "sizeof_TUN_REGISTER_RINGS = 48"

text \<open>The request: the file object of the caller, and the input buffer with its length.\<close>

record IRP =
  FileObject :: PVOID
  InputBufferLength :: ULONG
  SystemBuffer :: TUN_REGISTER_RINGS

text \<open>The number of bits set in a 64-bit value.\<close>

definition PopulationCount64 :: "64 word \<Rightarrow> nat" where
  "PopulationCount64 w = length (filter (bit w) [0..<64])"

text \<open>
  What the kernel answers to the calls of one registration: for each ring the status
  and the object of \<open>ObReferenceObjectByHandle\<close>, the MDL of \<open>IoAllocateMdl\<close> (\<open>NULL\<close>
  when it fails), whether \<open>MmProbeAndLockPages\<close> returns without raising, and the
  address of \<open>MmGetSystemAddressForMdlSafe\<close> (\<open>NULL\<close> when it fails); then the status and
  the handle of \<open>PsCreateSystemThread\<close>.
\<close>

record REGISTER_ENV =
  SendEventStatus :: NTSTATUS
  SendEventObject :: PVOID
  SendMdlAlloc :: PVOID
  SendProbe :: bool
  SendMap :: PVOID
  ReceiveEventStatus :: NTSTATUS
  ReceiveEventObject :: PVOID
  ReceiveMdlAlloc :: PVOID
  ReceiveProbe :: bool
  ReceiveMap :: PVOID
  ThreadStatus :: NTSTATUS
  ThreadHandle :: PVOID

definition ObReferenceObject :: "PVOID \<Rightarrow> KERNEL \<Rightarrow> KERNEL" where
  "ObReferenceObject Object k = k\<lparr>ObjectRefs := Object # ObjectRefs k\<rparr>"

definition IoAllocateMdl :: "PVOID \<Rightarrow> KERNEL \<Rightarrow> KERNEL" where
  "IoAllocateMdl Mdl k = k\<lparr>Mdls := Mdl # Mdls k\<rparr>"

definition MmProbeAndLockPages :: "PVOID \<Rightarrow> KERNEL \<Rightarrow> KERNEL" where
  "MmProbeAndLockPages Mdl k = k\<lparr>LockedPages := (Mdl, NULL) # LockedPages k\<rparr>"

definition MmGetSystemAddressForMdlSafe :: "PVOID \<Rightarrow> PVOID \<Rightarrow> KERNEL \<Rightarrow> KERNEL" where
  "MmGetSystemAddressForMdlSafe Mdl Va k = k\<lparr>LockedPages := map_pages Mdl Va (LockedPages k)\<rparr>"

definition PsCreateSystemThread :: "PVOID \<Rightarrow> KERNEL \<Rightarrow> KERNEL" where
  "PsCreateSystemThread Handle k = k\<lparr>Handles := Handle # Handles k, Threads := Handle # Threads k\<rparr>"

text \<open>The cleanup labels of \<open>TunDispatchRegisterBuffers\<close>, each falling into the next.\<close>

definition cleanupResetOwner :: "NTSTATUS \<Rightarrow> TUN_CTX \<Rightarrow> KERNEL \<Rightarrow> NTSTATUS \<times> TUN_CTX \<times> KERNEL" where
  "cleanupResetOwner Status Ctx k = (Status, Ctx\<lparr>Owner := NULL\<rparr>, k)"

definition cleanupSendTailMoved :: "NTSTATUS \<Rightarrow> TUN_CTX \<Rightarrow> KERNEL \<Rightarrow> NTSTATUS \<times> TUN_CTX \<times> KERNEL" where
  "cleanupSendTailMoved Status Ctx k =
     cleanupResetOwner Status Ctx (ObDereferenceObject (SendTailMoved (Send Ctx)) k)"

definition cleanupSendMdl :: "NTSTATUS \<Rightarrow> TUN_CTX \<Rightarrow> KERNEL \<Rightarrow> NTSTATUS \<times> TUN_CTX \<times> KERNEL" where
  "cleanupSendMdl Status Ctx k =
     cleanupSendTailMoved Status Ctx (IoFreeMdl (SendMdl (Send Ctx)) k)"

definition cleanupSendUnlockPages :: "NTSTATUS \<Rightarrow> TUN_CTX \<Rightarrow> KERNEL \<Rightarrow> NTSTATUS \<times> TUN_CTX \<times> KERNEL" where
  "cleanupSendUnlockPages Status Ctx k =
     cleanupSendMdl Status Ctx (MmUnlockPages (SendMdl (Send Ctx)) k)"

definition cleanupReceiveTailMoved :: "NTSTATUS \<Rightarrow> TUN_CTX \<Rightarrow> KERNEL \<Rightarrow> NTSTATUS \<times> TUN_CTX \<times> KERNEL" where
  "cleanupReceiveTailMoved Status Ctx k =
     cleanupSendUnlockPages Status Ctx (ObDereferenceObject (ReceiveTailMoved (Receive Ctx)) k)"

definition cleanupReceiveMdl :: "NTSTATUS \<Rightarrow> TUN_CTX \<Rightarrow> KERNEL \<Rightarrow> NTSTATUS \<times> TUN_CTX \<times> KERNEL" where
  "cleanupReceiveMdl Status Ctx k =
     cleanupReceiveTailMoved Status Ctx (IoFreeMdl (ReceiveMdl (Receive Ctx)) k)"

definition cleanupReceiveUnlockPages :: "NTSTATUS \<Rightarrow> TUN_CTX \<Rightarrow> KERNEL \<Rightarrow> NTSTATUS \<times> TUN_CTX \<times> KERNEL" where
  "cleanupReceiveUnlockPages Status Ctx k =
     cleanupReceiveMdl Status Ctx (MmUnlockPages (ReceiveMdl (Receive Ctx)) k)"

definition cleanupFlagsConnected :: "NTSTATUS \<Rightarrow> TUN_CTX \<Rightarrow> KERNEL \<Rightarrow> NTSTATUS \<times> TUN_CTX \<times> KERNEL" where
  "cleanupFlagsConnected Status Ctx k =
     cleanupReceiveUnlockPages Status (Ctx\<lparr>Flags := Flags Ctx AND NOT TUN_FLAGS_CONNECTED\<rparr>) k"

text \<open>The test the driver applies to the capacity of a ring and to its descriptor.\<close>

definition TunRingRejected :: "ULONG \<Rightarrow> TUN_REGISTER_RING \<Rightarrow> bool" where
  "TunRingRejected Capacity d =
     (Capacity < TUN_MIN_RING_CAPACITY \<or> Capacity > TUN_MAX_RING_CAPACITY \<or>
      PopulationCount64 (ucast Capacity) \<noteq> 1 \<or> TailMoved d = NULL \<or> Ring d = NULL)"

text \<open>The second half of the registration: the receive ring and the worker.\<close>

definition TunRegisterReceive ::
  "REGISTER_ENV \<Rightarrow> TUN_REGISTER_RINGS \<Rightarrow> TUN_CTX \<Rightarrow> KERNEL \<Rightarrow> NTSTATUS \<times> TUN_CTX \<times> KERNEL" where
  "TunRegisterReceive e Rrb Ctx0 k0 =
     (let Ctx1 = Ctx0\<lparr>Receive := (Receive Ctx0)
                   \<lparr>ReceiveCapacity := TUN_RING_CAPACITY (RingSize (RrbReceive Rrb))\<rparr>\<rparr> in
      if TunRingRejected (ReceiveCapacity (Receive Ctx1)) (RrbReceive Rrb)
      then cleanupSendUnlockPages STATUS_INVALID_PARAMETER Ctx1 k0
      else
        let Ctx2 = Ctx1\<lparr>Receive := (Receive Ctx1)\<lparr>ReceiveTailMoved := ReceiveEventObject e\<rparr>\<rparr> in
        if \<not> NT_SUCCESS (ReceiveEventStatus e)
        then cleanupSendUnlockPages (ReceiveEventStatus e) Ctx2 k0
        else
          let k1 = ObReferenceObject (ReceiveEventObject e) k0;
              Ctx3 = Ctx2\<lparr>Receive := (Receive Ctx2)\<lparr>ReceiveMdl := ReceiveMdlAlloc e\<rparr>\<rparr>
          in
          if ReceiveMdl (Receive Ctx3) = NULL
          then cleanupReceiveTailMoved STATUS_INSUFFICIENT_RESOURCES Ctx3 k1
          else
            let k2 = IoAllocateMdl (ReceiveMdl (Receive Ctx3)) k1 in
            if \<not> ReceiveProbe e then cleanupReceiveMdl STATUS_INVALID_USER_BUFFER Ctx3 k2
            else
              let k3 = MmProbeAndLockPages (ReceiveMdl (Receive Ctx3)) k2;
                  Ctx4 = Ctx3\<lparr>Receive := (Receive Ctx3)\<lparr>ReceiveRing := ReceiveMap e\<rparr>\<rparr>
              in
              if ReceiveRing (Receive Ctx4) = NULL
              then cleanupReceiveUnlockPages STATUS_INSUFFICIENT_RESOURCES Ctx4 k3
              else
                let k4 = MmGetSystemAddressForMdlSafe (ReceiveMdl (Receive Ctx4))
                           (ReceiveRing (Receive Ctx4)) k3;
                    Ctx5 = Ctx4\<lparr>Flags := Flags Ctx4 OR TUN_FLAGS_CONNECTED\<rparr>
                in
                if \<not> NT_SUCCESS (ThreadStatus e)
                then cleanupFlagsConnected NDIS_STATUS_FAILURE Ctx5 k4
                else
                  let Ctx6 = Ctx5\<lparr>Receive := (Receive Ctx5)\<lparr>ReceiveThread := ThreadHandle e\<rparr>\<rparr>;
                      k5 = PsCreateSystemThread (ThreadHandle e) k4
                  in (STATUS_SUCCESS, Ctx6, TunIndicateStatus MediaConnectStateConnected k5))"

definition TunDispatchRegisterBuffers ::
  "REGISTER_ENV \<Rightarrow> IRP \<Rightarrow> TUN_CTX \<Rightarrow> KERNEL \<Rightarrow> NTSTATUS \<times> TUN_CTX \<times> KERNEL" where
  "TunDispatchRegisterBuffers e Irp Ctx k =
     (if Owner Ctx \<noteq> NULL then (STATUS_ALREADY_INITIALIZED, Ctx, k)
      else
        let Ctx0 = Ctx\<lparr>Owner := FileObject Irp\<rparr>;
            Rrb = SystemBuffer Irp
        in
        if InputBufferLength Irp \<noteq> sizeof_TUN_REGISTER_RINGS
        then cleanupResetOwner STATUS_INVALID_PARAMETER Ctx0 k
        else
          let Ctx1 = Ctx0\<lparr>Send := (Send Ctx0)
                       \<lparr>SendCapacity := TUN_RING_CAPACITY (RingSize (RrbSend Rrb))\<rparr>\<rparr> in
          if TunRingRejected (SendCapacity (Send Ctx1)) (RrbSend Rrb)
          then cleanupResetOwner STATUS_INVALID_PARAMETER Ctx1 k
          else
            let Ctx2 = Ctx1\<lparr>Send := (Send Ctx1)\<lparr>SendTailMoved := SendEventObject e\<rparr>\<rparr> in
            if \<not> NT_SUCCESS (SendEventStatus e)
            then cleanupResetOwner (SendEventStatus e) Ctx2 k
            else
              let k1 = ObReferenceObject (SendEventObject e) k;
                  Ctx3 = Ctx2\<lparr>Send := (Send Ctx2)\<lparr>SendMdl := SendMdlAlloc e\<rparr>\<rparr>
              in
              if SendMdl (Send Ctx3) = NULL
              then cleanupSendTailMoved STATUS_INSUFFICIENT_RESOURCES Ctx3 k1
              else
                let k2 = IoAllocateMdl (SendMdl (Send Ctx3)) k1 in
                if \<not> SendProbe e then cleanupSendMdl STATUS_INVALID_USER_BUFFER Ctx3 k2
                else
                  let k3 = MmProbeAndLockPages (SendMdl (Send Ctx3)) k2;
                      Ctx4 = Ctx3\<lparr>Send := (Send Ctx3)\<lparr>SendRing := SendMap e\<rparr>\<rparr>
                  in
                  if SendRing (Send Ctx4) = NULL
                  then cleanupSendUnlockPages STATUS_INSUFFICIENT_RESOURCES Ctx4 k3
                  else TunRegisterReceive e Rrb Ctx4
                         (MmGetSystemAddressForMdlSafe (SendMdl (Send Ctx4))
                            (SendRing (Send Ctx4)) k3))"

section \<open>Ring teardown\<close>

text \<open>
  The one answer of the kernel the teardown depends on: the status of
  \<open>ObReferenceObjectByHandle\<close> on the handle of the worker. When it succeeds the
  teardown waits for the worker, which by then has left its loop.
\<close>

record UNREGISTER_ENV =
  ThreadReference :: NTSTATUS

definition KeWaitForThread :: "TUN_CTX \<Rightarrow> KERNEL \<Rightarrow> KERNEL" where
  "KeWaitForThread Ctx k =
     (TunReceiveExit Ctx k)\<lparr>Threads := remove1 (ReceiveThread (Receive Ctx)) (Threads k)\<rparr>"

definition TunDispatchUnregisterBuffers ::
  "UNREGISTER_ENV \<Rightarrow> PVOID \<Rightarrow> TUN_CTX \<Rightarrow> KERNEL \<Rightarrow> TUN_CTX \<times> KERNEL" where
  "TunDispatchUnregisterBuffers e Ownr Ctx k =
     (if Owner Ctx \<noteq> Ownr then (Ctx, k)
      else
        let Ctx1 = Ctx\<lparr>Owner := NULL, Flags := Flags Ctx AND NOT TUN_FLAGS_CONNECTED\<rparr>;
            k1 = KeSetEvent (ReceiveTailMoved (Receive Ctx1)) k;
            k2 = TunIndicateStatus MediaConnectStateDisconnected k1;
            k3 = (if NT_SUCCESS (ThreadReference e) then KeWaitForThread Ctx1 k2 else k2);
            k4 = ZwClose (ReceiveThread (Receive Ctx1)) k3;
            SRing = SendRing (Send Ctx1);
            k5 = k4\<lparr>Rings := (Rings k4)(SRing := (Rings k4 SRing)\<lparr>Tail := MAXULONG\<rparr>)\<rparr>;
            k6 = KeSetEvent (SendTailMoved (Send Ctx1)) k5;
            k7 = MmUnlockPages (ReceiveMdl (Receive Ctx1)) k6;
            k8 = IoFreeMdl (ReceiveMdl (Receive Ctx1)) k7;
            k9 = ObDereferenceObject (ReceiveTailMoved (Receive Ctx1)) k8;
            k10 = MmUnlockPages (SendMdl (Send Ctx1)) k9;
            k11 = IoFreeMdl (SendMdl (Send Ctx1)) k10;
            k12 = ObDereferenceObject (SendTailMoved (Send Ctx1)) k11
        in (Ctx1, k12))"

section \<open>States the properties speak of\<close>

text \<open>The kernel state after the send path has accepted a \<open>NET_BUFFER\<close>.\<close>

definition SendAccepted :: "TUN_CTX \<Rightarrow> NET_BUFFER \<Rightarrow> KERNEL \<Rightarrow> KERNEL" where
  "SendAccepted Ctx Nb k =
     (let Ring = SendRing (Send Ctx);
          r = Rings k Ring;
          PacketSize = NET_BUFFER_DATA_LENGTH Nb
      in KeSetEvent (SendTailMoved (Send Ctx))
           (k\<lparr>Rings := (Rings k)(Ring := r
              \<lparr>Data := NdisMoveMemory (store_ULONG (Data r) (unat (Tail r)) PacketSize)
                         (unat (Tail r) + unat sizeof_TUN_PACKET)
                         (take (unat PacketSize) (NbBytes Nb)),
               Tail := TUN_RING_WRAP (Tail r + TUN_ALIGN (sizeof_TUN_PACKET + PacketSize))
                         (SendCapacity (Send Ctx))\<rparr>)\<rparr>))"

text \<open>
  The kernel state after the send path has found room for a \<open>NET_BUFFER\<close> whose data
  \<open>NdisGetDataBuffer\<close> then fails to return.
\<close>

definition SendUnmappable :: "TUN_CTX \<Rightarrow> NET_BUFFER \<Rightarrow> KERNEL \<Rightarrow> KERNEL" where
  "SendUnmappable Ctx Nb k =
     (let Ring = SendRing (Send Ctx); r = Rings k Ring
      in k\<lparr>Rings := (Rings k)(Ring := r
            \<lparr>Data := store_ULONG (Data r) (unat (Tail r)) (NET_BUFFER_DATA_LENGTH Nb)\<rparr>)\<rparr>)"

text \<open>
  The packet at \<open>RingHead\<close> passes every test of the receive loop between the read of
  \<open>Tail\<close> and the allocation of the \<open>NET_BUFFER_LIST\<close>.
\<close>

definition TunPacketDecoded :: "TUN_CTX \<Rightarrow> ULONG \<Rightarrow> ULONG \<Rightarrow> KERNEL \<Rightarrow> bool" where
  "TunPacketDecoded Ctx RingHead RingTail k =
     (let RingCapacity = ReceiveCapacity (Receive Ctx);
          r = Rings k (ReceiveRing (Receive Ctx));
          PacketSize = Packet_Size r RingHead
      in RingTail < RingCapacity \<and>
         sizeof_TUN_PACKET \<le> RingContent RingTail RingHead RingCapacity \<and>
         PacketSize \<le> TUN_MAX_IP_PACKET_SIZE \<and>
         TUN_ALIGN (sizeof_TUN_PACKET + PacketSize) \<le> RingContent RingTail RingHead RingCapacity \<and>
         TunClassify r RingHead PacketSize \<noteq> None)"

text \<open>The kernel state after the store to \<open>Head\<close> at the label \<open>nextPacket\<close>.\<close>

definition ReceiveAdvance :: "TUN_CTX \<Rightarrow> ULONG \<Rightarrow> KERNEL \<Rightarrow> KERNEL" where
  "ReceiveAdvance Ctx RingHead k =
     (let Ring = ReceiveRing (Receive Ctx); r = Rings k Ring
      in k\<lparr>Rings := (Rings k)(Ring := r
            \<lparr>Head := TUN_RING_WRAP
                       (RingHead + TUN_ALIGN (sizeof_TUN_PACKET + Packet_Size r RingHead))
                       (ReceiveCapacity (Receive Ctx))\<rparr>)\<rparr>)"

text \<open>The kernel state after the packet at \<open>RingHead\<close> has been indicated upward.\<close>

definition ReceiveIndicated :: "TUN_CTX \<Rightarrow> ULONG \<Rightarrow> KERNEL \<Rightarrow> KERNEL" where
  "ReceiveIndicated Ctx RingHead k =
     (let r = Rings k (ReceiveRing (Receive Ctx)); PacketSize = Packet_Size r RingHead
      in case TunClassify r RingHead PacketSize of
           None \<Rightarrow> k
         | Some (NblFlgs, NblPrto) \<Rightarrow>
             k\<lparr>Indicated := \<lparr>NblFlags = NblFlgs, NblProto = NblPrto,
                              NblPayload = Packet_Data r RingHead PacketSize\<rparr> # Indicated k\<rparr>)"

section \<open>Legal capacities\<close>

text \<open>
  A capacity within the bounds that is a power of two: what the spec asks of the
  capacity of a ring.
\<close>

definition TunCapacityLegal :: "ULONG \<Rightarrow> bool" where
  "TunCapacityLegal c =
     (TUN_MIN_RING_CAPACITY \<le> c \<and> c \<le> TUN_MAX_RING_CAPACITY \<and> (\<exists>i<32. c = 2 ^ i))"

section \<open>An adapter to evaluate the paths on\<close>

text \<open>
  A connected adapter whose two rings are one empty ring of the minimum capacity, so
  that what the send path writes is what the receive path reads; and a \<open>NET_BUFFER\<close>
  of 20 bytes that starts like an IPv4 header.
\<close>

definition Example_Ring :: TUN_RING where
  "Example_Ring = \<lparr>Head = 0, Tail = 0, Alertable = 0, Data = (\<lambda>_. 0)\<rparr>"

definition Example_Kernel :: KERNEL where
  "Example_Kernel =
     \<lparr>Rings = (\<lambda>_. Example_Ring), ObjectRefs = [], Mdls = [], LockedPages = [], Handles = [],
      Threads = [], EventsSet = [], EventsCleared = [], LinkStates = [], Indicated = [],
      Completed = []\<rparr>"

definition Example_Statistics :: NDIS_STATISTICS_INFO where
  "Example_Statistics =
     \<lparr>ifHCOutOctets = 0, ifHCOutUcastOctets = 0, ifHCOutUcastPkts = 0, ifOutDiscards = 0,
      ifHCInOctets = 0, ifHCInUcastOctets = 0, ifHCInUcastPkts = 0, ifInDiscards = 0\<rparr>"

definition Example_Ctx :: TUN_CTX where
  "Example_Ctx =
     \<lparr>Flags = 7, MiniportAdapterHandle = 0x10, Statistics = Example_Statistics, Owner = 0x20,
      Send = \<lparr>SendMdl = 0x30, SendRing = 0x1000, SendCapacity = 0x20000, SendTailMoved = 0x40\<rparr>,
      Receive = \<lparr>ReceiveMdl = 0x50, ReceiveRing = 0x1000, ReceiveCapacity = 0x20000,
                 ReceiveTailMoved = 0x60, ReceiveThread = 0x70\<rparr>,
      NblPool = 0x80\<rparr>"

definition Example_Nb :: NET_BUFFER where
  "Example_Nb = \<lparr>NbBytes = 0x45 # replicate 19 0, NbMapping = NbContiguous\<rparr>"

definition Example_Env :: RECV_ENV where
  "Example_Env = \<lparr>PeerSpin = id, PeerAlert = id, PeerWait = id, NblAlloc = 0x90\<rparr>"

text \<open>
  A \<open>NET_BUFFER\<close> longer than an IP packet can be, one whose data cannot be mapped, and
  the kernel with \<open>Head\<close> of the ring at 28, which leaves 24 bytes free.
\<close>

definition Example_Nb_large :: NET_BUFFER where
  "Example_Nb_large = \<lparr>NbBytes = replicate 0x1FFF8 0, NbMapping = NbContiguous\<rparr>"

definition Example_Nb_unmappable :: NET_BUFFER where
  "Example_Nb_unmappable = \<lparr>NbBytes = 0x45 # replicate 19 0, NbMapping = NbUnmappable\<rparr>"

definition Example_Kernel_fit :: KERNEL where
  "Example_Kernel_fit = Example_Kernel\<lparr>Rings := (\<lambda>_. Example_Ring\<lparr>Head := 28\<rparr>)\<rparr>"

text \<open>
  An adapter nobody has registered rings with; a request that registers two rings of
  the minimum capacity; and a kernel that grants every call of the registration.
\<close>

definition Example_Ctx_idle :: TUN_CTX where
  "Example_Ctx_idle =
     \<lparr>Flags = 3, MiniportAdapterHandle = 0x10, Statistics = Example_Statistics, Owner = NULL,
      Send = \<lparr>SendMdl = 0, SendRing = 0, SendCapacity = 0, SendTailMoved = 0\<rparr>,
      Receive = \<lparr>ReceiveMdl = 0, ReceiveRing = 0, ReceiveCapacity = 0,
                 ReceiveTailMoved = 0, ReceiveThread = 0\<rparr>,
      NblPool = 0x80\<rparr>"

definition Example_Rrb :: TUN_REGISTER_RINGS where
  "Example_Rrb =
     \<lparr>RrbSend = \<lparr>RingSize = 0x3000C, Ring = 0x7000, TailMoved = 0x104\<rparr>,
      RrbReceive = \<lparr>RingSize = 0x3000C, Ring = 0x8000, TailMoved = 0x108\<rparr>\<rparr>"

definition Example_Irp :: IRP where
  "Example_Irp = \<lparr>FileObject = 0x20, InputBufferLength = 48, SystemBuffer = Example_Rrb\<rparr>"

definition Example_RegEnv :: REGISTER_ENV where
  "Example_RegEnv =
     \<lparr>SendEventStatus = STATUS_SUCCESS, SendEventObject = 0x40, SendMdlAlloc = 0x30,
      SendProbe = True, SendMap = 0x1000,
      ReceiveEventStatus = STATUS_SUCCESS, ReceiveEventObject = 0x60, ReceiveMdlAlloc = 0x50,
      ReceiveProbe = True, ReceiveMap = 0x2000,
      ThreadStatus = STATUS_SUCCESS, ThreadHandle = 0x70\<rparr>"

section \<open>Properties of the ring arithmetic\<close>

lemma wrap_pow2: "k < 32 \<Longrightarrow> TUN_RING_WRAP v (2 ^ k) = take_bit k v"
  by (simp add: TUN_RING_WRAP_def take_bit_eq_mask mask_eq_exp_minus_1)

lemma is_aligned_iff: "is_aligned v \<longleftrightarrow> take_bit 2 v = 0"
proof -
  have "unat (take_bit 2 v) = take_bit 2 (unat v)"
    by (rule unsigned_take_bit_eq)
  also have "\<dots> = unat v mod 4"
    by (simp add: take_bit_eq_mod)
  finally show ?thesis
    by (simp add: is_aligned_def TUN_ALIGNMENT_def unat_eq_0 [symmetric])
qed

lemma uint_wrap: "k \<le> 32 \<Longrightarrow> uint (take_bit k (word_of_int x :: ULONG)) = x mod 2 ^ k"
proof -
  assume k: "k \<le> 32"
  have "uint (take_bit k (word_of_int x :: ULONG)) = take_bit k (uint (word_of_int x :: ULONG))"
    by (rule unsigned_take_bit_eq)
  also have "\<dots> = take_bit k (take_bit 32 x)"
    by (simp add: uint_word_of_int_eq)
  also have "\<dots> = take_bit k x"
    using k by (simp add: min_def)
  finally show ?thesis by (simp add: take_bit_eq_mod)
qed

lemma ring_sum_int:
  fixes H T c :: int
  assumes "0 \<le> H" "H < c" "0 \<le> T" "T < c" "4 dvd H" "4 dvd T" "4 dvd c"
  shows "(H - T - 4) mod c + (T - H) mod c = c - 4"
proof (cases "H \<le> T")
  case True
  have a: "(T - H) mod c = T - H" using assms True by simp
  have "(H - T - 4) mod c = (H - T - 4 + c) mod c" by simp
  also have "\<dots> = H - T - 4 + c"
  proof (rule mod_pos_pos_trivial)
    from assms have "4 \<le> c - T" by (metis dvd_diff zdvd_imp_le diff_gt_0_iff_gt)
    with assms show "0 \<le> H - T - 4 + c" by linarith
    show "H - T - 4 + c < c" using True by linarith
  qed
  finally show ?thesis using a by simp
next
  case False
  with assms have "4 \<le> H - T"  by (metis dvd_diff zdvd_imp_le diff_gt_0_iff_gt not_le)
  with assms have a: "(H - T - 4) mod c = H - T - 4" by simp
  have "(T - H) mod c = (T - H + c) mod c" by simp
  also have "\<dots> = T - H + c" using assms False by (intro mod_pos_pos_trivial) linarith+
  finally show ?thesis using a by simp
qed

lemma capacity_exponent:
  assumes "Capacity = (2 :: ULONG) ^ k" "TUN_MIN_RING_CAPACITY \<le> Capacity"
  shows "2 \<le> k \<and> k < 32"
proof -
  have "k < 32"
  proof (rule ccontr)
    assume "\<not> k < 32"
    then have "(2 :: ULONG) ^ k = 0" by simp
    with assms show False by (simp add: TUN_MIN_RING_CAPACITY_def)
  qed
  moreover have "k \<noteq> 0"
  proof
    assume "k = 0"
    with assms show False by (simp add: TUN_MIN_RING_CAPACITY_def word_le_nat_alt)
  qed
  moreover have "k \<noteq> 1"
  proof
    assume "k = 1"
    with assms show False by (simp add: TUN_MIN_RING_CAPACITY_def)
  qed
  ultimately show ?thesis by linarith
qed

lemma TUN_ALIGN_mask: "TUN_ALIGN v = (v + 3) AND NOT (mask 2)"
  by (simp add: TUN_ALIGN_def TUN_ALIGNMENT_def mask_eq_exp_minus_1)

lemma is_aligned_TUN_ALIGN: "is_aligned (TUN_ALIGN v)"
proof -
  have "take_bit 2 ((v + 3) AND NOT (mask 2)) = ((v + 3) AND NOT (mask 2)) AND mask 2"
    by (rule take_bit_eq_mask)
  also have "\<dots> = (v + 3) AND (NOT (mask 2) AND mask 2)"
    by (rule and.assoc)
  also have "NOT (mask 2) AND mask 2 = (0 :: ULONG)"
    by (simp only: and.commute [of "NOT (mask 2)"] bit.conj_cancel_right)
  finally show ?thesis
    by (simp add: is_aligned_iff TUN_ALIGN_mask)
qed

lemma is_aligned_add:
  assumes "is_aligned a" "is_aligned b"
  shows "is_aligned (a + b)"
proof -
  from assms have h: "unat a mod 4 = 0" "unat b mod 4 = 0"
    by (simp_all add: is_aligned_def TUN_ALIGNMENT_def)
  have "unat (a + b) mod 4 = ((unat a + unat b) mod 2 ^ 32) mod 4"
    by (simp add: unat_word_ariths)
  also have "\<dots> = (unat a + unat b) mod 4"
    by (rule mod_mod_cancel) simp
  also have "\<dots> = 0"
    using h by presburger
  finally show ?thesis
    by (simp add: is_aligned_def TUN_ALIGNMENT_def)
qed

lemma is_aligned_take_bit:
  assumes "2 \<le> k" "is_aligned v"
  shows "is_aligned (take_bit k v)"
proof -
  have "take_bit 2 (take_bit k v) = take_bit (min 2 k) v"
    by (rule take_bit_take_bit)
  also have "min 2 k = 2" using assms by simp
  finally show ?thesis using assms by (simp add: is_aligned_iff)
qed

lemma unat_2p: "k < 32 \<Longrightarrow> unat ((2 :: ULONG) ^ k) = 2 ^ k"
proof -
  assume k: "k < 32"
  then have "(0 :: ULONG) < 2 ^ k"
    by (simp add: word_less_nat_alt unat_gt_0)
  then have "uint ((2 :: ULONG) ^ k) = 2 ^ k" by (rule uint_2p)
  then have "nat (uint ((2 :: ULONG) ^ k)) = nat (2 ^ k)" by (rule arg_cong)
  then show ?thesis by (simp only: unat_eq_nat_uint nat_power_eq nat_numeral)
qed

lemma take_bit_less_pow2: "k < 32 \<Longrightarrow> take_bit k (v :: ULONG) < 2 ^ k"
proof -
  assume k: "k < 32"
  have "unat (take_bit k v) = take_bit k (unat v)"
    by (rule unsigned_take_bit_eq)
  also have "\<dots> < 2 ^ k"
    by (rule take_bit_nat_less_exp)
  also have "(2 :: nat) ^ k = unat ((2 :: ULONG) ^ k)"
    using k by (simp only: unat_2p)
  finally show ?thesis
    by (simp only: word_less_nat_alt)
qed

lemma wrap_advance_valid:
  assumes "Capacity = 2 ^ k" "TUN_MIN_RING_CAPACITY \<le> Capacity" "is_aligned v"
  shows "is_aligned (TUN_RING_WRAP (v + TUN_ALIGN s) Capacity) \<and>
         TUN_RING_WRAP (v + TUN_ALIGN s) Capacity < Capacity"
proof -
  from assms have k: "2 \<le> k" "k < 32" using capacity_exponent by blast+
  have "is_aligned (v + TUN_ALIGN s)"
    using assms(3) is_aligned_TUN_ALIGN by (rule is_aligned_add)
  with k have "is_aligned (take_bit k (v + TUN_ALIGN s))"
    by (intro is_aligned_take_bit)
  moreover have "take_bit k (v + TUN_ALIGN s) < 2 ^ k"
    using k by (intro take_bit_less_pow2)
  ultimately show ?thesis
    using k by (simp add: assms(1) wrap_pow2)
qed

text \<open>
  Claim C2. For a capacity that is a power of two within the ring bounds and for
  \<open>Head\<close> and \<open>Tail\<close> that are multiples of the alignment unit and below the
  capacity, the free space the send path computes and the used space the receive path
  computes add up to the capacity less one alignment unit.
\<close>

theorem ring_space_plus_content:
  assumes cap: "Capacity = 2 ^ k" "TUN_MIN_RING_CAPACITY \<le> Capacity"
      "Capacity \<le> TUN_MAX_RING_CAPACITY"
    and al: "is_aligned RingHead" "is_aligned RingTail"
    and lt: "RingHead < Capacity" "RingTail < Capacity"
  shows "unat (RingSpace RingHead RingTail Capacity) +
         unat (RingContent RingTail RingHead Capacity) = unat Capacity - unat TUN_ALIGNMENT"
proof -
  from cap have k: "2 \<le> k" "k < 32" using capacity_exponent by blast+
  define H T where "H = uint RingHead" and "T = uint RingTail"
  have c: "uint Capacity = 2 ^ k" using k cap by (simp add: uint_2p word_less_nat_alt unat_gt_0)
  have sp: "uint (RingSpace RingHead RingTail Capacity) = (H - T - 4) mod 2 ^ k"
    using k uint_wrap [of k "H - T - 4"]
    by (simp add: RingSpace_def cap wrap_pow2 TUN_ALIGNMENT_def H_def T_def)
  have co: "uint (RingContent RingTail RingHead Capacity) = (T - H) mod 2 ^ k"
    using k uint_wrap [of k "T - H"]
    by (simp add: RingContent_def cap wrap_pow2 H_def T_def)
  have "H mod 4 = int (unat RingHead mod 4)" "T mod 4 = int (unat RingTail mod 4)"
    by (simp_all add: H_def T_def zmod_int)
  with al have dv: "4 dvd H" "4 dvd T"
    by (simp_all add: is_aligned_def TUN_ALIGNMENT_def mod_eq_0_iff_dvd)
  have "(2 :: int) ^ 2 dvd 2 ^ k" using k by (intro le_imp_power_dvd)
  then have dc: "(4 :: int) dvd 2 ^ k" by simp
  have rg: "0 \<le> H" "H < 2 ^ k" "0 \<le> T" "T < 2 ^ k"
    using lt c by (simp_all add: H_def T_def word_less_alt)
  define A B where "A = uint (RingSpace RingHead RingTail Capacity)"
    and "B = uint (RingContent RingTail RingHead Capacity)"
  have eq: "A + B = uint Capacity - 4"
    unfolding A_def B_def sp co c using rg dv dc by (rule ring_sum_int)
  have nn: "0 \<le> A" "0 \<le> B"
    by (simp_all only: A_def B_def uint_ge_0)
  have u: "unat (RingSpace RingHead RingTail Capacity) = nat A"
    "unat (RingContent RingTail RingHead Capacity) = nat B"
    "unat Capacity = nat (uint Capacity)"
    by (simp_all only: A_def B_def unat_eq_nat_uint)
  have a4: "unat TUN_ALIGNMENT = 4"
    by (simp add: TUN_ALIGNMENT_def)
  show ?thesis
    unfolding u a4 using eq nn by linarith
qed

theorem ring_space_plus_content_witness:
  "(0x20000 :: ULONG) = 2 ^ 17 \<and> TUN_MIN_RING_CAPACITY \<le> 0x20000 \<and>
   0x20000 \<le> TUN_MAX_RING_CAPACITY \<and> is_aligned 8 \<and> is_aligned 0x1FFFC \<and>
   (8 :: ULONG) < 0x20000 \<and> (0x1FFFC :: ULONG) < 0x20000 \<and>
   unat (RingSpace 8 0x1FFFC 0x20000) + unat (RingContent 0x1FFFC 8 0x20000) =
     unat (0x20000 :: ULONG) - unat TUN_ALIGNMENT"
proof -
  have h: "(0x20000 :: ULONG) = 2 ^ 17" "TUN_MIN_RING_CAPACITY \<le> 0x20000"
    "0x20000 \<le> TUN_MAX_RING_CAPACITY" "is_aligned 8" "is_aligned 0x1FFFC"
    "(8 :: ULONG) < 0x20000" "(0x1FFFC :: ULONG) < 0x20000"
    by (simp_all add: TUN_MIN_RING_CAPACITY_def TUN_MAX_RING_CAPACITY_def is_aligned_def
        TUN_ALIGNMENT_def)
  from ring_space_plus_content [OF h] h show ?thesis by blast
qed

section \<open>The outcomes of the send path\<close>

lemma TunSendNetBuffer_accept:
  assumes "Flgs AND TUN_FLAGS_PRESENT \<noteq> 0" "Flgs AND TUN_FLAGS_RUNNING \<noteq> 0"
    "Flgs AND TUN_FLAGS_CONNECTED \<noteq> 0"
    "NET_BUFFER_DATA_LENGTH Nb \<le> TUN_MAX_IP_PACKET_SIZE"
    "Head (Rings k (SendRing (Send Ctx))) < SendCapacity (Send Ctx)"
    "Tail (Rings k (SendRing (Send Ctx))) < SendCapacity (Send Ctx)"
    "TUN_ALIGN (sizeof_TUN_PACKET + NET_BUFFER_DATA_LENGTH Nb) \<le>
       RingSpace (Head (Rings k (SendRing (Send Ctx)))) (Tail (Rings k (SendRing (Send Ctx))))
         (SendCapacity (Send Ctx))"
    "NbMapping Nb \<noteq> NbUnmappable"
  shows "TunSendNetBuffer Flgs Ctx Nb k = (Sent (NET_BUFFER_DATA_LENGTH Nb), SendAccepted Ctx Nb k)"
  using assms
  by (cases "NbMapping Nb")
    (simp_all add: TunSendNetBuffer_def NdisGetDataBuffer_def SendAccepted_def Let_def not_le not_less)

lemma TunSendNetBuffer_removed:
  "Flgs AND TUN_FLAGS_PRESENT = 0 \<Longrightarrow>
   TunSendNetBuffer Flgs Ctx Nb k = (Discarded NDIS_STATUS_ADAPTER_REMOVED, k)"
  by (simp add: TunSendNetBuffer_def)

lemma TunSendNetBuffer_paused:
  "Flgs AND TUN_FLAGS_PRESENT \<noteq> 0 \<Longrightarrow> Flgs AND TUN_FLAGS_RUNNING = 0 \<Longrightarrow>
   TunSendNetBuffer Flgs Ctx Nb k = (Discarded NDIS_STATUS_PAUSED, k)"
  by (simp add: TunSendNetBuffer_def)

lemma TunSendNetBuffer_disconnected:
  "Flgs AND TUN_FLAGS_PRESENT \<noteq> 0 \<Longrightarrow> Flgs AND TUN_FLAGS_RUNNING \<noteq> 0 \<Longrightarrow>
   Flgs AND TUN_FLAGS_CONNECTED = 0 \<Longrightarrow>
   TunSendNetBuffer Flgs Ctx Nb k = (Discarded NDIS_STATUS_MEDIA_DISCONNECTED, k)"
  by (simp add: TunSendNetBuffer_def)

lemma TunSendNetBuffer_invalid_length:
  "Flgs AND TUN_FLAGS_PRESENT \<noteq> 0 \<Longrightarrow> Flgs AND TUN_FLAGS_RUNNING \<noteq> 0 \<Longrightarrow>
   Flgs AND TUN_FLAGS_CONNECTED \<noteq> 0 \<Longrightarrow>
   TUN_MAX_IP_PACKET_SIZE < NET_BUFFER_DATA_LENGTH Nb \<Longrightarrow>
   TunSendNetBuffer Flgs Ctx Nb k = (Discarded NDIS_STATUS_INVALID_LENGTH, k)"
  by (simp add: TunSendNetBuffer_def Let_def)

lemma TunSendNetBuffer_broken:
  "Flgs AND TUN_FLAGS_PRESENT \<noteq> 0 \<Longrightarrow> Flgs AND TUN_FLAGS_RUNNING \<noteq> 0 \<Longrightarrow>
   Flgs AND TUN_FLAGS_CONNECTED \<noteq> 0 \<Longrightarrow>
   NET_BUFFER_DATA_LENGTH Nb \<le> TUN_MAX_IP_PACKET_SIZE \<Longrightarrow>
   SendCapacity (Send Ctx) \<le> Head (Rings k (SendRing (Send Ctx))) \<or>
   SendCapacity (Send Ctx) \<le> Tail (Rings k (SendRing (Send Ctx))) \<Longrightarrow>
   TunSendNetBuffer Flgs Ctx Nb k = (Discarded NDIS_STATUS_ADAPTER_NOT_READY, k)"
  by (auto simp add: TunSendNetBuffer_def Let_def not_less)

lemma TunSendNetBuffer_full:
  "Flgs AND TUN_FLAGS_PRESENT \<noteq> 0 \<Longrightarrow> Flgs AND TUN_FLAGS_RUNNING \<noteq> 0 \<Longrightarrow>
   Flgs AND TUN_FLAGS_CONNECTED \<noteq> 0 \<Longrightarrow>
   NET_BUFFER_DATA_LENGTH Nb \<le> TUN_MAX_IP_PACKET_SIZE \<Longrightarrow>
   Head (Rings k (SendRing (Send Ctx))) < SendCapacity (Send Ctx) \<Longrightarrow>
   Tail (Rings k (SendRing (Send Ctx))) < SendCapacity (Send Ctx) \<Longrightarrow>
   RingSpace (Head (Rings k (SendRing (Send Ctx)))) (Tail (Rings k (SendRing (Send Ctx))))
     (SendCapacity (Send Ctx)) < TUN_ALIGN (sizeof_TUN_PACKET + NET_BUFFER_DATA_LENGTH Nb) \<Longrightarrow>
   TunSendNetBuffer Flgs Ctx Nb k = (Discarded NDIS_STATUS_BUFFER_OVERFLOW, k)"
  by (simp add: TunSendNetBuffer_def Let_def not_less not_le)

lemma TunSendNetBuffer_unmappable:
  "Flgs AND TUN_FLAGS_PRESENT \<noteq> 0 \<Longrightarrow> Flgs AND TUN_FLAGS_RUNNING \<noteq> 0 \<Longrightarrow>
   Flgs AND TUN_FLAGS_CONNECTED \<noteq> 0 \<Longrightarrow>
   NET_BUFFER_DATA_LENGTH Nb \<le> TUN_MAX_IP_PACKET_SIZE \<Longrightarrow>
   Head (Rings k (SendRing (Send Ctx))) < SendCapacity (Send Ctx) \<Longrightarrow>
   Tail (Rings k (SendRing (Send Ctx))) < SendCapacity (Send Ctx) \<Longrightarrow>
   TUN_ALIGN (sizeof_TUN_PACKET + NET_BUFFER_DATA_LENGTH Nb) \<le>
     RingSpace (Head (Rings k (SendRing (Send Ctx)))) (Tail (Rings k (SendRing (Send Ctx))))
       (SendCapacity (Send Ctx)) \<Longrightarrow>
   NbMapping Nb = NbUnmappable \<Longrightarrow>
   TunSendNetBuffer Flgs Ctx Nb k = (Discarded NDIS_STATUS_BUFFER_OVERFLOW, SendUnmappable Ctx Nb k)"
  by (simp add: TunSendNetBuffer_def NdisGetDataBuffer_def SendUnmappable_def Let_def not_less not_le)

lemma TunSendNetBuffer_Sent:
  assumes "TunSendNetBuffer Flgs Ctx Nb k = (Sent n, k')"
  shows "n = NET_BUFFER_DATA_LENGTH Nb \<and> k' = SendAccepted Ctx Nb k \<and>
         Flgs AND TUN_FLAGS_PRESENT \<noteq> 0 \<and> Flgs AND TUN_FLAGS_RUNNING \<noteq> 0 \<and>
         Flgs AND TUN_FLAGS_CONNECTED \<noteq> 0 \<and>
         n \<le> TUN_MAX_IP_PACKET_SIZE \<and>
         Head (Rings k (SendRing (Send Ctx))) < SendCapacity (Send Ctx) \<and>
         Tail (Rings k (SendRing (Send Ctx))) < SendCapacity (Send Ctx) \<and>
         TUN_ALIGN (sizeof_TUN_PACKET + n) \<le>
           RingSpace (Head (Rings k (SendRing (Send Ctx)))) (Tail (Rings k (SendRing (Send Ctx))))
             (SendCapacity (Send Ctx)) \<and>
         NbMapping Nb \<noteq> NbUnmappable"
proof -
  have c1: "Flgs AND TUN_FLAGS_PRESENT \<noteq> 0"
    using assms TunSendNetBuffer_removed [of Flgs Ctx Nb k] by auto
  have c2: "Flgs AND TUN_FLAGS_RUNNING \<noteq> 0"
    using assms c1 TunSendNetBuffer_paused [of Flgs Ctx Nb k] by auto
  have c3: "Flgs AND TUN_FLAGS_CONNECTED \<noteq> 0"
    using assms c1 c2 TunSendNetBuffer_disconnected [of Flgs Ctx Nb k] by auto
  have c4: "NET_BUFFER_DATA_LENGTH Nb \<le> TUN_MAX_IP_PACKET_SIZE"
  proof (rule ccontr)
    assume "\<not> ?thesis"
    then have "TUN_MAX_IP_PACKET_SIZE < NET_BUFFER_DATA_LENGTH Nb" by simp
    with c1 c2 c3 have "TunSendNetBuffer Flgs Ctx Nb k = (Discarded NDIS_STATUS_INVALID_LENGTH, k)"
      by (rule TunSendNetBuffer_invalid_length)
    with assms show False by simp
  qed
  have c5: "Head (Rings k (SendRing (Send Ctx))) < SendCapacity (Send Ctx) \<and>
    Tail (Rings k (SendRing (Send Ctx))) < SendCapacity (Send Ctx)"
  proof (rule ccontr)
    assume "\<not> ?thesis"
    then have "SendCapacity (Send Ctx) \<le> Head (Rings k (SendRing (Send Ctx))) \<or>
      SendCapacity (Send Ctx) \<le> Tail (Rings k (SendRing (Send Ctx)))"
      by (simp add: not_less)
    with c1 c2 c3 c4
    have "TunSendNetBuffer Flgs Ctx Nb k = (Discarded NDIS_STATUS_ADAPTER_NOT_READY, k)"
      by (rule TunSendNetBuffer_broken)
    with assms show False by simp
  qed
  then have c5a: "Head (Rings k (SendRing (Send Ctx))) < SendCapacity (Send Ctx)"
    and c5b: "Tail (Rings k (SendRing (Send Ctx))) < SendCapacity (Send Ctx)"
    by simp_all
  have c6: "TUN_ALIGN (sizeof_TUN_PACKET + NET_BUFFER_DATA_LENGTH Nb) \<le>
       RingSpace (Head (Rings k (SendRing (Send Ctx)))) (Tail (Rings k (SendRing (Send Ctx))))
         (SendCapacity (Send Ctx))"
  proof (rule ccontr)
    assume "\<not> ?thesis"
    then have "RingSpace (Head (Rings k (SendRing (Send Ctx))))
        (Tail (Rings k (SendRing (Send Ctx)))) (SendCapacity (Send Ctx))
      < TUN_ALIGN (sizeof_TUN_PACKET + NET_BUFFER_DATA_LENGTH Nb)"
      by simp
    with c1 c2 c3 c4 c5a c5b
    have "TunSendNetBuffer Flgs Ctx Nb k = (Discarded NDIS_STATUS_BUFFER_OVERFLOW, k)"
      by (rule TunSendNetBuffer_full)
    with assms show False by simp
  qed
  have c7: "NbMapping Nb \<noteq> NbUnmappable"
  proof
    assume "NbMapping Nb = NbUnmappable"
    with c1 c2 c3 c4 c5a c5b c6
    have "TunSendNetBuffer Flgs Ctx Nb k =
        (Discarded NDIS_STATUS_BUFFER_OVERFLOW, SendUnmappable Ctx Nb k)"
      by (rule TunSendNetBuffer_unmappable)
    with assms show False by simp
  qed
  from TunSendNetBuffer_accept [OF c1 c2 c3 c4 c5a c5b c6 c7] assms c1 c2 c3 c4 c5a c5b c6 c7
  show ?thesis
    by simp
qed

section \<open>The outcomes of one pass of the receive loop\<close>

lemma TunReceivePacket_break:
  "\<not> TunPacketDecoded Ctx RingHead RingTail k \<Longrightarrow>
   TunReceivePacket Flgs e Ctx RingHead RingTail k = (LoopBreak, Ctx, k)"
  by (auto simp add: TunPacketDecoded_def TunReceivePacket_def Let_def not_le not_less
      split: option.splits)

lemma TunReceivePacket_discard:
  "TunPacketDecoded Ctx RingHead RingTail k \<Longrightarrow>
   NblAlloc e = NULL \<or>
   Flgs AND (TUN_FLAGS_PRESENT OR TUN_FLAGS_RUNNING) \<noteq> (TUN_FLAGS_PRESENT OR TUN_FLAGS_RUNNING) \<Longrightarrow>
   TunReceivePacket Flgs e Ctx RingHead RingTail k =
     (LoopContinue, TunDiscardReceived Ctx, ReceiveAdvance Ctx RingHead k)"
  by (auto simp add: TunPacketDecoded_def TunReceivePacket_def ReceiveAdvance_def Let_def
      not_le not_less split: option.splits)

lemma TunReceivePacket_deliver:
  "TunPacketDecoded Ctx RingHead RingTail k \<Longrightarrow>
   NblAlloc e \<noteq> NULL \<Longrightarrow>
   Flgs AND (TUN_FLAGS_PRESENT OR TUN_FLAGS_RUNNING) = (TUN_FLAGS_PRESENT OR TUN_FLAGS_RUNNING) \<Longrightarrow>
   TunReceivePacket Flgs e Ctx RingHead RingTail k =
     (LoopContinue,
      TunIndicateReceived (Packet_Size (Rings k (ReceiveRing (Receive Ctx))) RingHead) Ctx,
      ReceiveAdvance Ctx RingHead (ReceiveIndicated Ctx RingHead k))"
  by (auto simp add: TunPacketDecoded_def TunReceivePacket_def ReceiveAdvance_def
      ReceiveIndicated_def Let_def not_le not_less split: option.splits)

lemma Rings_SendAccepted:
  "Rings (SendAccepted Ctx Nb K) (SendRing (Send Ctx)) =
     (Rings K (SendRing (Send Ctx)))
       \<lparr>Data := NdisMoveMemory
                  (store_ULONG (Data (Rings K (SendRing (Send Ctx))))
                     (unat (Tail (Rings K (SendRing (Send Ctx))))) (NET_BUFFER_DATA_LENGTH Nb))
                  (unat (Tail (Rings K (SendRing (Send Ctx)))) + unat sizeof_TUN_PACKET)
                  (take (unat (NET_BUFFER_DATA_LENGTH Nb)) (NbBytes Nb)),
        Tail := TUN_RING_WRAP
                  (Tail (Rings K (SendRing (Send Ctx))) +
                   TUN_ALIGN (sizeof_TUN_PACKET + NET_BUFFER_DATA_LENGTH Nb))
                  (SendCapacity (Send Ctx))\<rparr>"
  by (simp add: SendAccepted_def KeSetEvent_def Let_def)

lemma Rings_ReceiveIndicated: "Rings (ReceiveIndicated Ctx RingHead K) = Rings K"
  by (simp add: ReceiveIndicated_def Let_def split: option.splits)

lemma Packet_Size_ReceiveIndicated:
  "Packet_Size (Rings (ReceiveIndicated Ctx RingHead K) R) h = Packet_Size (Rings K R) h"
  by (simp add: Rings_ReceiveIndicated)

lemma Rings_ReceiveAdvance:
  "Rings (ReceiveAdvance Ctx RingHead K) (ReceiveRing (Receive Ctx)) =
     (Rings K (ReceiveRing (Receive Ctx)))
       \<lparr>Head := TUN_RING_WRAP
                  (RingHead + TUN_ALIGN (sizeof_TUN_PACKET +
                     Packet_Size (Rings K (ReceiveRing (Receive Ctx))) RingHead))
                  (ReceiveCapacity (Receive Ctx))\<rparr>"
  by (simp add: ReceiveAdvance_def Let_def)

lemma TunReceivePacket_Continue:
  assumes "TunReceivePacket Flgs e Ctx RingHead RingTail K = (LoopContinue, Ctx', K')"
  shows "TunPacketDecoded Ctx RingHead RingTail K \<and>
         Rings K' (ReceiveRing (Receive Ctx)) =
           (Rings K (ReceiveRing (Receive Ctx)))
             \<lparr>Head := TUN_RING_WRAP
                (RingHead + TUN_ALIGN (sizeof_TUN_PACKET +
                   Packet_Size (Rings K (ReceiveRing (Receive Ctx))) RingHead))
                (ReceiveCapacity (Receive Ctx))\<rparr>"
proof -
  have d: "TunPacketDecoded Ctx RingHead RingTail K"
  proof (rule ccontr)
    assume "\<not> ?thesis"
    then have "TunReceivePacket Flgs e Ctx RingHead RingTail K = (LoopBreak, Ctx, K)"
      by (rule TunReceivePacket_break)
    with assms show False by simp
  qed
  show ?thesis
  proof (cases "NblAlloc e = NULL \<or>
      Flgs AND (TUN_FLAGS_PRESENT OR TUN_FLAGS_RUNNING) \<noteq> (TUN_FLAGS_PRESENT OR TUN_FLAGS_RUNNING)")
    case True
    with d have "TunReceivePacket Flgs e Ctx RingHead RingTail K =
        (LoopContinue, TunDiscardReceived Ctx, ReceiveAdvance Ctx RingHead K)"
      by (rule TunReceivePacket_discard)
    with assms have "K' = ReceiveAdvance Ctx RingHead K" by simp
    with d show ?thesis by (simp add: Rings_ReceiveAdvance)
  next
    case False
    then have "NblAlloc e \<noteq> NULL"
      "Flgs AND (TUN_FLAGS_PRESENT OR TUN_FLAGS_RUNNING) = (TUN_FLAGS_PRESENT OR TUN_FLAGS_RUNNING)"
      by simp_all
    with d have "TunReceivePacket Flgs e Ctx RingHead RingTail K =
        (LoopContinue,
         TunIndicateReceived (Packet_Size (Rings K (ReceiveRing (Receive Ctx))) RingHead) Ctx,
         ReceiveAdvance Ctx RingHead (ReceiveIndicated Ctx RingHead K))"
      by (rule TunReceivePacket_deliver)
    with assms have "K' = ReceiveAdvance Ctx RingHead (ReceiveIndicated Ctx RingHead K)" by simp
    with d show ?thesis by (simp add: Rings_ReceiveAdvance Rings_ReceiveIndicated)
  qed
qed

section \<open>The paths on the example adapter\<close>

lemma Example_Nb_length: "NET_BUFFER_DATA_LENGTH Example_Nb = 20"
  by (simp add: NET_BUFFER_DATA_LENGTH_def Example_Nb_def)

lemma Example_footprint: "TUN_ALIGN (sizeof_TUN_PACKET + 20) = 24" "TUN_ALIGN 24 = 24"
  by (simp_all add: TUN_ALIGN_def TUN_ALIGNMENT_def sizeof_TUN_PACKET_def)

lemma Example_space: "RingSpace 0 0 0x20000 = 0x1FFFC"
  by (simp add: RingSpace_def TUN_RING_WRAP_def TUN_ALIGNMENT_def)

lemma Example_state:
  "Rings Example_Kernel R = Example_Ring" "Head Example_Ring = 0" "Tail Example_Ring = 0"
  "SendCapacity (Send Example_Ctx) = 0x20000" "ReceiveCapacity (Receive Example_Ctx) = 0x20000"
  "SendRing (Send Example_Ctx) = 0x1000" "ReceiveRing (Receive Example_Ctx) = 0x1000"
  "NbMapping Example_Nb = NbContiguous" "Flags Example_Ctx = 7"
  by (simp_all add: Example_Ctx_def Example_Kernel_def Example_Ring_def Example_Nb_def)

lemma Example_flags:
  "(7 :: LONG) AND TUN_FLAGS_PRESENT \<noteq> 0" "(7 :: LONG) AND TUN_FLAGS_RUNNING \<noteq> 0"
  "(7 :: LONG) AND TUN_FLAGS_CONNECTED \<noteq> 0"
  "(7 :: LONG) AND (TUN_FLAGS_PRESENT OR TUN_FLAGS_RUNNING) = (TUN_FLAGS_PRESENT OR TUN_FLAGS_RUNNING)"
  by (simp_all add: TUN_FLAGS_PRESENT_def TUN_FLAGS_RUNNING_def TUN_FLAGS_CONNECTED_def)

lemma Example_send:
  "TunSendNetBuffer 7 Example_Ctx Example_Nb Example_Kernel =
     (Sent 20, SendAccepted Example_Ctx Example_Nb Example_Kernel)"
  using TunSendNetBuffer_accept [of 7 Example_Nb Example_Kernel Example_Ctx]
  by (simp add: Example_Nb_length Example_footprint Example_space Example_state Example_flags
      TUN_MAX_IP_PACKET_SIZE_def)

lemma Example_sent_ring:
  "Rings (SendAccepted Example_Ctx Example_Nb Example_Kernel) 0x1000 =
     \<lparr>Head = 0, Tail = 24, Alertable = 0,
      Data = NdisMoveMemory (store_ULONG (\<lambda>_. 0) 0 20) 4 (0x45 # replicate 19 0)\<rparr>"
  using Rings_SendAccepted [of Example_Ctx Example_Nb Example_Kernel]
  by (simp add: Example_state Example_Nb_length Example_footprint)
    (simp add: Example_Ring_def Example_Nb_def TUN_RING_WRAP_def sizeof_TUN_PACKET_def)

lemma Example_packet_size:
  "Packet_Size (Rings (SendAccepted Example_Ctx Example_Nb Example_Kernel) 0x1000) 0 = 20"
  by (simp add: Example_sent_ring Packet_Size_def load_ULONG_def NdisMoveMemory_def store_ULONG_def)

lemma Example_classify:
  "TunClassify (Rings (SendAccepted Example_Ctx Example_Nb Example_Kernel) 0x1000) 0 20 =
     Some (NDIS_NBL_FLAGS_IS_IPV4, NDIS_ETH_TYPE_IPV4)"
  by (simp add: TunClassify_def Example_sent_ring NdisMoveMemory_def sizeof_TUN_PACKET_def)

lemma Example_content: "RingContent 24 0 0x20000 = 24"
  by (simp add: RingContent_def TUN_RING_WRAP_def)

lemma Example_decoded:
  "TunPacketDecoded Example_Ctx 0 24 (SendAccepted Example_Ctx Example_Nb Example_Kernel)"
  by (simp add: TunPacketDecoded_def Example_state Example_packet_size Example_footprint
      Example_content Example_classify sizeof_TUN_PACKET_def TUN_MAX_IP_PACKET_SIZE_def)


lemma Example_receive:
  "TunReceivePacket 7 Example_Env Example_Ctx 0 24
     (SendAccepted Example_Ctx Example_Nb Example_Kernel) =
   (LoopContinue, TunIndicateReceived 20 Example_Ctx,
    ReceiveAdvance Example_Ctx 0
      (ReceiveIndicated Example_Ctx 0 (SendAccepted Example_Ctx Example_Nb Example_Kernel)))"
  using TunReceivePacket_deliver [OF Example_decoded, of Example_Env 7]
  by (simp add: Example_flags Example_state Example_packet_size)
    (simp add: Example_Env_def NULL_def)

lemma Example_valid: "TUN_RING_valid 0x20000 Example_Ring"
  by (simp add: TUN_RING_valid_def is_aligned_def Example_Ring_def)

lemma Example_capacity:
  "(0x20000 :: ULONG) = 2 ^ 17" "TUN_MIN_RING_CAPACITY \<le> 0x20000"
  "0x20000 \<le> TUN_MAX_RING_CAPACITY"
  by (simp_all add: TUN_MIN_RING_CAPACITY_def TUN_MAX_RING_CAPACITY_def)

section \<open>Head and Tail stay aligned and in range\<close>

text \<open>
  Claim C8. For a capacity that is a power of two within the ring bounds: when the
  send path accepts a packet, the ring it wrote to still has \<open>Head\<close> and \<open>Tail\<close> aligned
  and below the capacity if it had before, \<open>Head\<close> is untouched and \<open>Tail\<close> is the old
  \<open>Tail\<close> advanced by the aligned footprint, wrapped; and when a pass of the receive loop
  goes on to the next packet, the same holds with \<open>Tail\<close> untouched and \<open>Head\<close>
  advanced by the aligned footprint of the packet consumed, wrapped.
\<close>

theorem ring_invariant_preserved:
  assumes cap: "Capacity = 2 ^ i" "TUN_MIN_RING_CAPACITY \<le> Capacity"
      "Capacity \<le> TUN_MAX_RING_CAPACITY"
  shows "(SendCapacity (Send Ctx) = Capacity \<longrightarrow>
          TUN_RING_valid Capacity (Rings K (SendRing (Send Ctx))) \<longrightarrow>
          TunSendNetBuffer Flgs Ctx Nb K = (Sent n, K1) \<longrightarrow>
            TUN_RING_valid Capacity (Rings K1 (SendRing (Send Ctx))) \<and>
            Head (Rings K1 (SendRing (Send Ctx))) = Head (Rings K (SendRing (Send Ctx))) \<and>
            Tail (Rings K1 (SendRing (Send Ctx))) =
              TUN_RING_WRAP (Tail (Rings K (SendRing (Send Ctx))) +
                TUN_ALIGN (sizeof_TUN_PACKET + n)) Capacity) \<and>
         (ReceiveCapacity (Receive Ctx) = Capacity \<longrightarrow>
          TUN_RING_valid Capacity (Rings K (ReceiveRing (Receive Ctx))) \<longrightarrow>
          RingHead = Head (Rings K (ReceiveRing (Receive Ctx))) \<longrightarrow>
          TunReceivePacket Flgs e Ctx RingHead RingTail K = (LoopContinue, Ctx', K2) \<longrightarrow>
            TUN_RING_valid Capacity (Rings K2 (ReceiveRing (Receive Ctx))) \<and>
            Tail (Rings K2 (ReceiveRing (Receive Ctx))) = Tail (Rings K (ReceiveRing (Receive Ctx))) \<and>
            Head (Rings K2 (ReceiveRing (Receive Ctx))) =
              TUN_RING_WRAP (RingHead + TUN_ALIGN (sizeof_TUN_PACKET +
                Packet_Size (Rings K (ReceiveRing (Receive Ctx))) RingHead)) Capacity)"
proof (intro conjI impI)
  assume c: "SendCapacity (Send Ctx) = Capacity"
    and v: "TUN_RING_valid Capacity (Rings K (SendRing (Send Ctx)))"
    and s: "TunSendNetBuffer Flgs Ctx Nb K = (Sent n, K1)"
  from TunSendNetBuffer_Sent [OF s]
  have n: "n = NET_BUFFER_DATA_LENGTH Nb" and K1: "K1 = SendAccepted Ctx Nb K" by simp_all
  from v have "is_aligned (Tail (Rings K (SendRing (Send Ctx))))"
    by (simp add: TUN_RING_valid_def)
  with cap(1,2) have "is_aligned (TUN_RING_WRAP (Tail (Rings K (SendRing (Send Ctx))) +
        TUN_ALIGN (sizeof_TUN_PACKET + n)) Capacity) \<and>
      TUN_RING_WRAP (Tail (Rings K (SendRing (Send Ctx))) +
        TUN_ALIGN (sizeof_TUN_PACKET + n)) Capacity < Capacity"
    by (rule wrap_advance_valid)
  with v show "TUN_RING_valid Capacity (Rings K1 (SendRing (Send Ctx)))"
    by (simp add: K1 n c Rings_SendAccepted TUN_RING_valid_def)
  show "Head (Rings K1 (SendRing (Send Ctx))) = Head (Rings K (SendRing (Send Ctx)))"
    by (simp add: K1 Rings_SendAccepted)
  show "Tail (Rings K1 (SendRing (Send Ctx))) =
      TUN_RING_WRAP (Tail (Rings K (SendRing (Send Ctx))) +
        TUN_ALIGN (sizeof_TUN_PACKET + n)) Capacity"
    by (simp add: K1 n c Rings_SendAccepted)
next
  assume c: "ReceiveCapacity (Receive Ctx) = Capacity"
    and v: "TUN_RING_valid Capacity (Rings K (ReceiveRing (Receive Ctx)))"
    and h: "RingHead = Head (Rings K (ReceiveRing (Receive Ctx)))"
    and s: "TunReceivePacket Flgs e Ctx RingHead RingTail K = (LoopContinue, Ctx', K2)"
  note r = TunReceivePacket_Continue [OF s, THEN conjunct2]
  from v h have "is_aligned RingHead"
    by (simp add: TUN_RING_valid_def)
  with cap(1,2) have "is_aligned (TUN_RING_WRAP (RingHead +
        TUN_ALIGN (sizeof_TUN_PACKET + Packet_Size (Rings K (ReceiveRing (Receive Ctx))) RingHead))
        Capacity) \<and>
      TUN_RING_WRAP (RingHead +
        TUN_ALIGN (sizeof_TUN_PACKET + Packet_Size (Rings K (ReceiveRing (Receive Ctx))) RingHead))
        Capacity < Capacity"
    by (rule wrap_advance_valid)
  with v show "TUN_RING_valid Capacity (Rings K2 (ReceiveRing (Receive Ctx)))"
    by (simp add: r c TUN_RING_valid_def)
  show "Tail (Rings K2 (ReceiveRing (Receive Ctx))) = Tail (Rings K (ReceiveRing (Receive Ctx)))"
    by (simp add: r)
  show "Head (Rings K2 (ReceiveRing (Receive Ctx))) =
      TUN_RING_WRAP (RingHead + TUN_ALIGN (sizeof_TUN_PACKET +
        Packet_Size (Rings K (ReceiveRing (Receive Ctx))) RingHead)) Capacity"
    by (simp add: r c)
qed

theorem ring_invariant_preserved_witness:
  "TUN_RING_valid 0x20000 (Rings (SendAccepted Example_Ctx Example_Nb Example_Kernel) 0x1000) \<and>
   Tail (Rings (SendAccepted Example_Ctx Example_Nb Example_Kernel) 0x1000) = 24 \<and>
   TUN_RING_valid 0x20000
     (Rings (ReceiveAdvance Example_Ctx 0
        (ReceiveIndicated Example_Ctx 0 (SendAccepted Example_Ctx Example_Nb Example_Kernel)))
        0x1000) \<and>
   Head (Rings (ReceiveAdvance Example_Ctx 0
        (ReceiveIndicated Example_Ctx 0 (SendAccepted Example_Ctx Example_Nb Example_Kernel)))
        0x1000) = 24"
proof -
  note t = ring_invariant_preserved [OF Example_capacity,
      where Ctx = Example_Ctx and K = Example_Kernel and Flgs = 7 and Nb = Example_Nb
        and n = 20 and ?K1.0 = "SendAccepted Example_Ctx Example_Nb Example_Kernel"]
  have v: "TUN_RING_valid 0x20000 (Rings (SendAccepted Example_Ctx Example_Nb Example_Kernel) 0x1000)"
    and tl: "Tail (Rings (SendAccepted Example_Ctx Example_Nb Example_Kernel) 0x1000) = 24"
    using t [THEN conjunct1] Example_send Example_valid
    by (simp_all add: Example_state Example_footprint TUN_RING_WRAP_def)
  note u = ring_invariant_preserved [OF Example_capacity,
      where Ctx = Example_Ctx and K = "SendAccepted Example_Ctx Example_Nb Example_Kernel"
        and RingHead = 0 and Flgs = 7 and e = Example_Env and RingTail = 24
        and Ctx' = "TunIndicateReceived 20 Example_Ctx"
        and ?K2.0 = "ReceiveAdvance Example_Ctx 0
          (ReceiveIndicated Example_Ctx 0 (SendAccepted Example_Ctx Example_Nb Example_Kernel))",
      THEN conjunct2]
  have "TUN_RING_valid 0x20000
     (Rings (ReceiveAdvance Example_Ctx 0
        (ReceiveIndicated Example_Ctx 0 (SendAccepted Example_Ctx Example_Nb Example_Kernel)))
        0x1000) \<and>
   Head (Rings (ReceiveAdvance Example_Ctx 0
        (ReceiveIndicated Example_Ctx 0 (SendAccepted Example_Ctx Example_Nb Example_Kernel)))
        0x1000) = 24"
    using u v Example_receive
    by (simp add: Example_state Example_packet_size Example_footprint TUN_RING_WRAP_def)
      (simp add: Example_sent_ring)
  with v tl show ?thesis by simp
qed

section \<open>Round trip of a packet\<close>

lemma load_store_ULONG: "load_ULONG (store_ULONG m a v) a = v"
  unfolding load_ULONG_def store_ULONG_def
proof (rule bit_eqI, goal_cases)
  case (1 n)
  consider "n < 8" | "8 \<le> n" "n < 16" | "16 \<le> n" "n < 24" | "24 \<le> n"
    by linarith
  then show ?case
    using 1 by cases (auto simp add: bit_simps)
qed

lemma load_ULONG_cong:
  assumes "\<And>i. i < 4 \<Longrightarrow> m (a + i) = m' (a + i)"
  shows "load_ULONG m a = load_ULONG m' a"
proof -
  have "m a = m' a" "m (a + 1) = m' (a + 1)" "m (a + 2) = m' (a + 2)" "m (a + 3) = m' (a + 3)"
    using assms [of 0] assms [of 1] assms [of 2] assms [of 3] by simp_all
  then show ?thesis by (simp add: load_ULONG_def)
qed

lemma load_ULONG_NdisMoveMemory: "load_ULONG (NdisMoveMemory m (a + 4) bs) a = load_ULONG m a"
  by (rule load_ULONG_cong) (simp add: NdisMoveMemory_def)

lemma read_bytes_NdisMoveMemory: "read_bytes (NdisMoveMemory m a bs) a (length bs) = bs"
  by (rule nth_equalityI) (simp_all add: read_bytes_def NdisMoveMemory_def)

lemma unat_of_nat_payload:
  assumes "n \<le> unat TUN_MAX_IP_PACKET_SIZE"
  shows "unat (of_nat n :: ULONG) = n" "(of_nat n :: ULONG) \<le> TUN_MAX_IP_PACKET_SIZE"
proof -
  from assms have "n < 2 ^ 32" by (simp add: TUN_MAX_IP_PACKET_SIZE_def)
  then show u: "unat (of_nat n :: ULONG) = n"
    by (simp add: unat_of_nat take_bit_nat_eq_self)
  with assms show "(of_nat n :: ULONG) \<le> TUN_MAX_IP_PACKET_SIZE"
    by (simp add: word_le_nat_alt)
qed


lemma SendAccepted_reads:
  assumes "unat (NET_BUFFER_DATA_LENGTH Nb) = length (NbBytes Nb)"
  shows "Packet_Size (Rings (SendAccepted Ctx Nb K) (SendRing (Send Ctx)))
           (Tail (Rings K (SendRing (Send Ctx)))) = NET_BUFFER_DATA_LENGTH Nb"
    and "Packet_Data (Rings (SendAccepted Ctx Nb K) (SendRing (Send Ctx)))
           (Tail (Rings K (SendRing (Send Ctx)))) (NET_BUFFER_DATA_LENGTH Nb) = NbBytes Nb"
proof -
  show "Packet_Size (Rings (SendAccepted Ctx Nb K) (SendRing (Send Ctx)))
      (Tail (Rings K (SendRing (Send Ctx)))) = NET_BUFFER_DATA_LENGTH Nb"
    by (simp add: Packet_Size_def Rings_SendAccepted sizeof_TUN_PACKET_def
        load_ULONG_NdisMoveMemory load_store_ULONG)
  have "read_bytes
      (NdisMoveMemory
        (store_ULONG (Data (Rings K (SendRing (Send Ctx))))
          (unat (Tail (Rings K (SendRing (Send Ctx))))) (NET_BUFFER_DATA_LENGTH Nb))
        (unat (Tail (Rings K (SendRing (Send Ctx)))) + 4) (NbBytes Nb))
      (unat (Tail (Rings K (SendRing (Send Ctx)))) + 4) (length (NbBytes Nb)) = NbBytes Nb"
    by (rule read_bytes_NdisMoveMemory)
  then show "Packet_Data (Rings (SendAccepted Ctx Nb K) (SendRing (Send Ctx)))
      (Tail (Rings K (SendRing (Send Ctx)))) (NET_BUFFER_DATA_LENGTH Nb) = NbBytes Nb"
    by (simp add: Packet_Data_def Rings_SendAccepted sizeof_TUN_PACKET_def assms)
qed

text \<open>
  Claim C1. A payload of at most 65535 bytes, handed to the send path of a connected
  adapter whose send ring has \<open>Head\<close> and \<open>Tail\<close> aligned and in range and free space of
  at least the footprint of the packet, is enqueued; the length field the receive
  path reads at the offset the packet was written to is the length of the payload and
  the bytes it reads behind it are the payload; and when a pass of the receive loop
  decodes the packet at that offset and indicates it, what it indicates is the payload.
\<close>

theorem send_receive_round_trip:
  assumes len: "length payload \<le> unat TUN_MAX_IP_PACKET_SIZE"
    and nb: "NbBytes Nb = payload" "NbMapping Nb \<noteq> NbUnmappable"
    and fl: "Flgs AND TUN_FLAGS_PRESENT \<noteq> 0" "Flgs AND TUN_FLAGS_RUNNING \<noteq> 0"
      "Flgs AND TUN_FLAGS_CONNECTED \<noteq> 0"
    and valid: "TUN_RING_valid (SendCapacity (Send Ctx)) (Rings K (SendRing (Send Ctx)))"
    and space: "TUN_ALIGN (sizeof_TUN_PACKET + of_nat (length payload)) \<le>
      RingSpace (Head (Rings K (SendRing (Send Ctx)))) (Tail (Rings K (SendRing (Send Ctx))))
        (SendCapacity (Send Ctx))"
  shows "\<exists>K'. TunSendNetBuffer Flgs Ctx Nb K = (Sent (of_nat (length payload)), K') \<and>
           unat (Packet_Size (Rings K' (SendRing (Send Ctx)))
                   (Tail (Rings K (SendRing (Send Ctx))))) = length payload \<and>
           Packet_Data (Rings K' (SendRing (Send Ctx))) (Tail (Rings K (SendRing (Send Ctx))))
             (Packet_Size (Rings K' (SendRing (Send Ctx)))
                (Tail (Rings K (SendRing (Send Ctx))))) = payload \<and>
           (\<forall>Ctx2 Flgs2 e RingTail.
              ReceiveRing (Receive Ctx2) = SendRing (Send Ctx) \<longrightarrow>
              TunPacketDecoded Ctx2 (Tail (Rings K (SendRing (Send Ctx)))) RingTail K' \<longrightarrow>
              NblAlloc e \<noteq> NULL \<longrightarrow>
              Flgs2 AND (TUN_FLAGS_PRESENT OR TUN_FLAGS_RUNNING) =
                (TUN_FLAGS_PRESENT OR TUN_FLAGS_RUNNING) \<longrightarrow>
              (\<exists>f p. TunReceivePacket Flgs2 e Ctx2 (Tail (Rings K (SendRing (Send Ctx)))) RingTail K' =
                 (LoopContinue, TunIndicateReceived (of_nat (length payload)) Ctx2,
                  ReceiveAdvance Ctx2 (Tail (Rings K (SendRing (Send Ctx))))
                    (K'\<lparr>Indicated := \<lparr>NblFlags = f, NblProto = p, NblPayload = payload\<rparr> #
                       Indicated K'\<rparr>))))"
proof -
  let ?R = "SendRing (Send Ctx)"
  let ?t = "Tail (Rings K ?R)"
  let ?K' = "SendAccepted Ctx Nb K"
  have n: "NET_BUFFER_DATA_LENGTH Nb = of_nat (length payload)"
    by (simp add: NET_BUFFER_DATA_LENGTH_def nb)
  have u: "unat (NET_BUFFER_DATA_LENGTH Nb) = length (NbBytes Nb)"
    and le: "NET_BUFFER_DATA_LENGTH Nb \<le> TUN_MAX_IP_PACKET_SIZE"
    using unat_of_nat_payload [OF len] by (simp_all add: n nb)
  from valid have ht: "Head (Rings K ?R) < SendCapacity (Send Ctx)" "?t < SendCapacity (Send Ctx)"
    by (simp_all add: TUN_RING_valid_def)
  from space have sp: "TUN_ALIGN (sizeof_TUN_PACKET + NET_BUFFER_DATA_LENGTH Nb) \<le>
      RingSpace (Head (Rings K ?R)) ?t (SendCapacity (Send Ctx))"
    by (simp add: n)
  have s: "TunSendNetBuffer Flgs Ctx Nb K = (Sent (of_nat (length payload)), ?K')"
    using TunSendNetBuffer_accept [OF fl le ht sp nb(2)] by (simp add: n)
  have ps: "Packet_Size (Rings ?K' ?R) ?t = of_nat (length payload)"
    using SendAccepted_reads(1) [OF u] by (simp add: n)
  have pd: "Packet_Data (Rings ?K' ?R) ?t (of_nat (length payload)) = payload"
    using SendAccepted_reads(2) [OF u] by (simp add: n nb)
  have rx: "\<exists>f p. TunReceivePacket Flgs2 e Ctx2 ?t RingTail ?K' =
      (LoopContinue, TunIndicateReceived (of_nat (length payload)) Ctx2,
       ReceiveAdvance Ctx2 ?t
         (?K'\<lparr>Indicated := \<lparr>NblFlags = f, NblProto = p, NblPayload = payload\<rparr> # Indicated ?K'\<rparr>))"
    if r: "ReceiveRing (Receive Ctx2) = ?R"
      and d: "TunPacketDecoded Ctx2 ?t RingTail ?K'"
      and a: "NblAlloc e \<noteq> NULL"
      and f: "Flgs2 AND (TUN_FLAGS_PRESENT OR TUN_FLAGS_RUNNING) =
        (TUN_FLAGS_PRESENT OR TUN_FLAGS_RUNNING)"
    for Ctx2 Flgs2 e RingTail
  proof -
    from d obtain f' p' where c: "TunClassify (Rings ?K' ?R) ?t (of_nat (length payload)) = Some (f', p')"
      by (auto simp add: TunPacketDecoded_def Let_def r ps)
    then have "ReceiveIndicated Ctx2 ?t ?K' =
        ?K'\<lparr>Indicated := \<lparr>NblFlags = f', NblProto = p', NblPayload = payload\<rparr> # Indicated ?K'\<rparr>"
      by (simp add: ReceiveIndicated_def Let_def r ps pd)
    with TunReceivePacket_deliver [OF d a f] show ?thesis
      by (simp add: r ps) blast
  qed
  from s ps pd rx show ?thesis
    using unat_of_nat_payload(1) [OF len] by (intro exI [of _ ?K']) simp
qed


theorem send_receive_round_trip_witness:
  "\<exists>K'. TunSendNetBuffer 7 Example_Ctx Example_Nb Example_Kernel = (Sent 20, K') \<and>
         unat (Packet_Size (Rings K' 0x1000) 0) = 20 \<and>
         Packet_Data (Rings K' 0x1000) 0 (Packet_Size (Rings K' 0x1000) 0) = 0x45 # replicate 19 0 \<and>
         (\<exists>f p. TunReceivePacket 7 Example_Env Example_Ctx 0 24 K' =
            (LoopContinue, TunIndicateReceived 20 Example_Ctx,
             ReceiveAdvance Example_Ctx 0
               (K'\<lparr>Indicated := \<lparr>NblFlags = f, NblProto = p,
                                 NblPayload = 0x45 # replicate 19 0\<rparr> # Indicated K'\<rparr>)))"
proof -
  have len: "length (0x45 # replicate 19 (0 :: UCHAR)) \<le> unat TUN_MAX_IP_PACKET_SIZE"
    by (simp add: TUN_MAX_IP_PACKET_SIZE_def)
  have nb: "NbBytes Example_Nb = 0x45 # replicate 19 0" "NbMapping Example_Nb \<noteq> NbUnmappable"
    by (simp_all add: Example_Nb_def)
  have valid: "TUN_RING_valid (SendCapacity (Send Example_Ctx))
      (Rings Example_Kernel (SendRing (Send Example_Ctx)))"
    using Example_valid by (simp add: Example_state)
  have space: "TUN_ALIGN (sizeof_TUN_PACKET + of_nat (length (0x45 # replicate 19 (0 :: UCHAR)))) \<le>
      RingSpace (Head (Rings Example_Kernel (SendRing (Send Example_Ctx))))
        (Tail (Rings Example_Kernel (SendRing (Send Example_Ctx))))
        (SendCapacity (Send Example_Ctx))"
    by (simp add: Example_state Example_footprint Example_space)
  from send_receive_round_trip [OF len nb Example_flags(1,2,3) valid space]
  obtain K' where s: "TunSendNetBuffer 7 Example_Ctx Example_Nb Example_Kernel = (Sent 20, K')"
    and ps: "unat (Packet_Size (Rings K' 0x1000) 0) = 20"
    and pd: "Packet_Data (Rings K' 0x1000) 0 (Packet_Size (Rings K' 0x1000) 0) =
      0x45 # replicate 19 0"
    and rx: "\<And>Ctx2 Flgs2 e RingTail.
      ReceiveRing (Receive Ctx2) = 0x1000 \<Longrightarrow> TunPacketDecoded Ctx2 0 RingTail K' \<Longrightarrow>
      NblAlloc e \<noteq> NULL \<Longrightarrow>
      Flgs2 AND (TUN_FLAGS_PRESENT OR TUN_FLAGS_RUNNING) = (TUN_FLAGS_PRESENT OR TUN_FLAGS_RUNNING) \<Longrightarrow>
      \<exists>f p. TunReceivePacket Flgs2 e Ctx2 0 RingTail K' =
        (LoopContinue, TunIndicateReceived 20 Ctx2,
         ReceiveAdvance Ctx2 0
           (K'\<lparr>Indicated := \<lparr>NblFlags = f, NblProto = p,
                             NblPayload = 0x45 # replicate 19 0\<rparr> # Indicated K'\<rparr>))"
    by (auto simp add: Example_state)
  from s Example_send have K': "K' = SendAccepted Example_Ctx Example_Nb Example_Kernel"
    by simp
  have "\<exists>f p. TunReceivePacket 7 Example_Env Example_Ctx 0 24 K' =
      (LoopContinue, TunIndicateReceived 20 Example_Ctx,
       ReceiveAdvance Example_Ctx 0
         (K'\<lparr>Indicated := \<lparr>NblFlags = f, NblProto = p,
                           NblPayload = 0x45 # replicate 19 0\<rparr> # Indicated K'\<rparr>))"
    using Example_decoded Example_flags(4)
    by (intro rx) (simp_all add: K' Example_state Example_Env_def NULL_def)
  with s ps pd show ?thesis by blast
qed

section \<open>A packet that cannot be delivered is still consumed\<close>

lemma content_after_advance:
  assumes cap: "Capacity = 2 ^ i" "TUN_MIN_RING_CAPACITY \<le> Capacity"
    and fp: "fp \<le> RingContent t h Capacity"
  shows "unat (RingContent t (TUN_RING_WRAP (h + fp) Capacity) Capacity) =
         unat (RingContent t h Capacity) - unat fp"
proof -
  from cap have i: "2 \<le> i" "i < 32" using capacity_exponent by blast+
  define H T F where "H = uint h" and "T = uint t" and "F = uint fp"
  define X where "X = (T - H) mod 2 ^ i"
  have co: "uint (RingContent t h Capacity) = X"
    using i uint_wrap [of i "T - H"]
    by (simp add: RingContent_def cap wrap_pow2 H_def T_def X_def)
  have w: "uint (TUN_RING_WRAP (h + fp) Capacity) = (H + F) mod 2 ^ i"
    using i uint_wrap [of i "H + F"]
    by (simp add: cap wrap_pow2 H_def F_def)
  have "uint (RingContent t (TUN_RING_WRAP (h + fp) Capacity) Capacity) =
      (T - (H + F) mod 2 ^ i) mod 2 ^ i"
    using i uint_wrap [of i "T - uint (TUN_RING_WRAP (h + fp) Capacity)"]
    by (simp add: RingContent_def cap wrap_pow2 T_def flip: w)
  also have "\<dots> = (T - (H + F)) mod 2 ^ i"
    by (rule mod_diff_right_eq)
  also have "T - (H + F) = (T - H) - F" by simp
  also have "((T - H) - F) mod 2 ^ i = (X - F) mod 2 ^ i"
    unfolding X_def by (rule mod_diff_left_eq [symmetric])
  also have "\<dots> = X - F"
  proof (rule mod_pos_pos_trivial)
    from fp show "0 \<le> X - F" by (simp add: word_le_def co F_def)
    have "X < 2 ^ i" by (simp add: X_def)
    moreover have "0 \<le> F" by (simp add: F_def)
    ultimately show "X - F < 2 ^ i" by linarith
  qed
  finally have e: "uint (RingContent t (TUN_RING_WRAP (h + fp) Capacity) Capacity) = X - F" .
  have u: "unat (RingContent t (TUN_RING_WRAP (h + fp) Capacity) Capacity) = nat (X - F)"
    "unat (RingContent t h Capacity) = nat X" "unat fp = nat F"
    by (simp_all only: unat_eq_nat_uint e co F_def)
  have "0 \<le> F" by (simp add: F_def)
  then show ?thesis unfolding u by linarith
qed

lemma TUN_ALIGN_nonzero:
  assumes "n \<le> TUN_MAX_IP_PACKET_SIZE"
  shows "TUN_ALIGN (sizeof_TUN_PACKET + n) \<noteq> 0"
proof
  assume z: "TUN_ALIGN (sizeof_TUN_PACKET + n) = 0"
  let ?x = "n + 7"
  from z have a: "?x AND NOT (mask 2) = 0"
    by (simp add: TUN_ALIGN_mask sizeof_TUN_PACKET_def add.commute)
  have "?x = ?x AND mask 2"
  proof (rule bit_eqI)
    fix m
    from a have "\<not> bit (?x AND NOT (mask 2)) m" by simp
    then show "bit ?x m \<longleftrightarrow> bit (?x AND mask 2) m"
      by (auto simp only: bit_and_iff bit_not_iff dest: bit_imp_possible_bit)
  qed
  then have "unat ?x = unat (take_bit 2 ?x)"
    by (simp only: take_bit_eq_mask)
  also have "\<dots> = take_bit 2 (unat ?x)"
    by (rule unsigned_take_bit_eq)
  also have "\<dots> < 2 ^ 2"
    by (rule take_bit_nat_less_exp)
  finally have "unat ?x < 4" by simp
  moreover from assms have "unat n \<le> 65535"
    by (simp add: word_le_nat_alt TUN_MAX_IP_PACKET_SIZE_def)
  then have "unat ?x = unat n + 7"
    by (simp add: unat_word_ariths)
  ultimately show False by simp
qed

lemma TunReceiveIteration_nonempty:
  assumes "Flags Ctx AND TUN_FLAGS_CONNECTED \<noteq> 0"
    and "Head (Rings K (ReceiveRing (Receive Ctx))) < ReceiveCapacity (Receive Ctx)"
    and "Head (Rings K (ReceiveRing (Receive Ctx))) \<noteq> Tail (Rings K (ReceiveRing (Receive Ctx)))"
  shows "TunReceiveIteration e Ctx K =
         TunReceivePacket (Flags Ctx) e Ctx (Head (Rings K (ReceiveRing (Receive Ctx))))
           (Tail (Rings K (ReceiveRing (Receive Ctx)))) K"
proof -
  from assms(2) have "\<not> ReceiveCapacity (Receive Ctx) \<le> Head (Rings K (ReceiveRing (Receive Ctx)))"
    by simp
  with assms(1,3) show ?thesis
    by (simp add: TunReceiveIteration_def Let_def)
qed

text \<open>
  Claim C9. When a pass of the receive loop has decoded the packet at \<open>Head\<close> and the
  delivery upward fails, because the \<open>NET_BUFFER_LIST\<close> cannot be allocated or because
  the present and running flags are not both set, the pass counts one discard,
  indicates nothing, stores into \<open>Head\<close> the old \<open>Head\<close> advanced by the aligned
  footprint of the packet, wrapped, and goes on with the loop. For a capacity that is
  a power of two within the bounds the new \<open>Head\<close> differs from the old one and the
  used space has shrunk by exactly that footprint, so the packet is not read again.
\<close>

theorem receive_discard_advances_head:
  assumes d: "TunPacketDecoded Ctx RingHead RingTail K"
    and f: "NblAlloc e = NULL \<or>
      Flgs AND (TUN_FLAGS_PRESENT OR TUN_FLAGS_RUNNING) \<noteq> (TUN_FLAGS_PRESENT OR TUN_FLAGS_RUNNING)"
  shows "\<exists>Ctx' K'.
     TunReceivePacket Flgs e Ctx RingHead RingTail K = (LoopContinue, Ctx', K') \<and>
     ifInDiscards (Statistics Ctx') = ifInDiscards (Statistics Ctx) + 1 \<and>
     Indicated K' = Indicated K \<and>
     Head (Rings K' (ReceiveRing (Receive Ctx))) =
       TUN_RING_WRAP (RingHead + TUN_ALIGN (sizeof_TUN_PACKET +
         Packet_Size (Rings K (ReceiveRing (Receive Ctx))) RingHead)) (ReceiveCapacity (Receive Ctx)) \<and>
     Tail (Rings K' (ReceiveRing (Receive Ctx))) = Tail (Rings K (ReceiveRing (Receive Ctx))) \<and>
     Data (Rings K' (ReceiveRing (Receive Ctx))) = Data (Rings K (ReceiveRing (Receive Ctx))) \<and>
     (\<forall>i. ReceiveCapacity (Receive Ctx) = 2 ^ i \<longrightarrow>
          TUN_MIN_RING_CAPACITY \<le> ReceiveCapacity (Receive Ctx) \<longrightarrow>
          ReceiveCapacity (Receive Ctx) \<le> TUN_MAX_RING_CAPACITY \<longrightarrow>
          Head (Rings K' (ReceiveRing (Receive Ctx))) \<noteq> RingHead \<and>
          unat (RingContent RingTail (Head (Rings K' (ReceiveRing (Receive Ctx))))
                  (ReceiveCapacity (Receive Ctx))) =
          unat (RingContent RingTail RingHead (ReceiveCapacity (Receive Ctx))) -
          unat (TUN_ALIGN (sizeof_TUN_PACKET +
                  Packet_Size (Rings K (ReceiveRing (Receive Ctx))) RingHead))) \<and>
     (\<forall>es. Flgs = Flags Ctx \<longrightarrow> Flags Ctx AND TUN_FLAGS_CONNECTED \<noteq> 0 \<longrightarrow>
          RingHead = Head (Rings K (ReceiveRing (Receive Ctx))) \<longrightarrow>
          RingTail = Tail (Rings K (ReceiveRing (Receive Ctx))) \<longrightarrow>
          RingHead < ReceiveCapacity (Receive Ctx) \<longrightarrow> RingHead \<noteq> RingTail \<longrightarrow>
          TunReceiveLoop (e # es) Ctx K = TunReceiveLoop es Ctx' K')"
proof -
  let ?R = "ReceiveRing (Receive Ctx)"
  let ?C = "ReceiveCapacity (Receive Ctx)"
  let ?fp = "TUN_ALIGN (sizeof_TUN_PACKET + Packet_Size (Rings K ?R) RingHead)"
  let ?Ctx' = "TunDiscardReceived Ctx"
  let ?K' = "ReceiveAdvance Ctx RingHead K"
  have r: "TunReceivePacket Flgs e Ctx RingHead RingTail K = (LoopContinue, ?Ctx', ?K')"
    using d f by (rule TunReceivePacket_discard)
  have c: "ifInDiscards (Statistics ?Ctx') = ifInDiscards (Statistics Ctx) + 1"
    by (simp add: TunDiscardReceived_def)
  have i: "Indicated ?K' = Indicated K"
    by (simp add: ReceiveAdvance_def Let_def)
  have h: "Head (Rings ?K' ?R) = TUN_RING_WRAP (RingHead + ?fp) ?C"
    and t: "Tail (Rings ?K' ?R) = Tail (Rings K ?R)"
    and m: "Data (Rings ?K' ?R) = Data (Rings K ?R)"
    by (simp_all add: Rings_ReceiveAdvance)
  from d have le: "?fp \<le> RingContent RingTail RingHead ?C"
    and sz: "Packet_Size (Rings K ?R) RingHead \<le> TUN_MAX_IP_PACKET_SIZE"
    by (simp_all add: TunPacketDecoded_def Let_def)
  have a: "Head (Rings ?K' ?R) \<noteq> RingHead \<and>
      unat (RingContent RingTail (Head (Rings ?K' ?R)) ?C) =
      unat (RingContent RingTail RingHead ?C) - unat ?fp"
    if cap: "?C = 2 ^ i" "TUN_MIN_RING_CAPACITY \<le> ?C" for i
  proof -
    have e: "unat (RingContent RingTail (TUN_RING_WRAP (RingHead + ?fp) ?C) ?C) =
        unat (RingContent RingTail RingHead ?C) - unat ?fp"
      using cap le by (rule content_after_advance)
    have "?fp \<noteq> 0" using sz by (rule TUN_ALIGN_nonzero)
    then have "0 < unat ?fp" by (simp add: unat_gt_0)
    moreover from le have "unat ?fp \<le> unat (RingContent RingTail RingHead ?C)"
      by (simp add: word_le_nat_alt)
    ultimately have "unat (RingContent RingTail (TUN_RING_WRAP (RingHead + ?fp) ?C) ?C) \<noteq>
        unat (RingContent RingTail RingHead ?C)"
      using e by linarith
    then have "TUN_RING_WRAP (RingHead + ?fp) ?C \<noteq> RingHead" by auto
    with e show ?thesis by (simp only: h) simp
  qed
  have l: "TunReceiveLoop (e # es) Ctx K = TunReceiveLoop es ?Ctx' ?K'"
    if "Flgs = Flags Ctx" "Flags Ctx AND TUN_FLAGS_CONNECTED \<noteq> 0"
      "RingHead = Head (Rings K ?R)" "RingTail = Tail (Rings K ?R)"
      "RingHead < ?C" "RingHead \<noteq> RingTail" for es
  proof -
    have "TunReceiveIteration e Ctx K = TunReceivePacket Flgs e Ctx RingHead RingTail K"
      using that TunReceiveIteration_nonempty [of Ctx K e] by simp
    with r show ?thesis by simp
  qed
  have a': "\<forall>i. ?C = 2 ^ i \<longrightarrow> TUN_MIN_RING_CAPACITY \<le> ?C \<longrightarrow> ?C \<le> TUN_MAX_RING_CAPACITY \<longrightarrow>
      Head (Rings ?K' ?R) \<noteq> RingHead \<and>
      unat (RingContent RingTail (Head (Rings ?K' ?R)) ?C) =
      unat (RingContent RingTail RingHead ?C) - unat ?fp"
    using a by blast
  have l': "\<forall>es. Flgs = Flags Ctx \<longrightarrow> Flags Ctx AND TUN_FLAGS_CONNECTED \<noteq> 0 \<longrightarrow>
      RingHead = Head (Rings K ?R) \<longrightarrow> RingTail = Tail (Rings K ?R) \<longrightarrow>
      RingHead < ?C \<longrightarrow> RingHead \<noteq> RingTail \<longrightarrow>
      TunReceiveLoop (e # es) Ctx K = TunReceiveLoop es ?Ctx' ?K'"
    using l by blast
  show ?thesis
    by (intro exI [of _ ?Ctx'] exI [of _ ?K'] conjI) (fact r c i h t m a' l')+
qed


theorem receive_discard_advances_head_witness:
  "\<exists>Ctx' K'.
     TunReceivePacket 7 (Example_Env\<lparr>NblAlloc := NULL\<rparr>) Example_Ctx 0 24
       (SendAccepted Example_Ctx Example_Nb Example_Kernel) = (LoopContinue, Ctx', K') \<and>
     ifInDiscards (Statistics Ctx') = 1 \<and> Indicated K' = [] \<and>
     Head (Rings K' 0x1000) = 24 \<and> Head (Rings K' 0x1000) \<noteq> 0 \<and>
     unat (RingContent 24 (Head (Rings K' 0x1000)) 0x20000) = 0 \<and>
     TunReceiveLoop [Example_Env\<lparr>NblAlloc := NULL\<rparr>] Example_Ctx
       (SendAccepted Example_Ctx Example_Nb Example_Kernel) = None"
proof -
  let ?e = "Example_Env\<lparr>NblAlloc := NULL\<rparr>"
  let ?K = "SendAccepted Example_Ctx Example_Nb Example_Kernel"
  have f: "NblAlloc ?e = NULL \<or>
      (7 :: LONG) AND (TUN_FLAGS_PRESENT OR TUN_FLAGS_RUNNING) \<noteq> (TUN_FLAGS_PRESENT OR TUN_FLAGS_RUNNING)"
    by simp
  from receive_discard_advances_head [OF Example_decoded f]
  obtain Ctx' K' where r: "TunReceivePacket 7 ?e Example_Ctx 0 24 ?K = (LoopContinue, Ctx', K')"
    and c: "ifInDiscards (Statistics Ctx') = ifInDiscards (Statistics Example_Ctx) + 1"
    and i: "Indicated K' = Indicated ?K"
    and h: "Head (Rings K' 0x1000) = TUN_RING_WRAP (0 + TUN_ALIGN (sizeof_TUN_PACKET + 20)) 0x20000"
    and a: "\<And>i. (0x20000 :: ULONG) = 2 ^ i \<Longrightarrow> TUN_MIN_RING_CAPACITY \<le> 0x20000 \<Longrightarrow>
        0x20000 \<le> TUN_MAX_RING_CAPACITY \<Longrightarrow>
        Head (Rings K' 0x1000) \<noteq> 0 \<and>
        unat (RingContent 24 (Head (Rings K' 0x1000)) 0x20000) =
        unat (RingContent 24 0 0x20000) - unat (TUN_ALIGN (sizeof_TUN_PACKET + 20))"
    and l: "\<And>es. (7 :: LONG) = Flags Example_Ctx \<Longrightarrow>
        Flags Example_Ctx AND TUN_FLAGS_CONNECTED \<noteq> 0 \<Longrightarrow>
        0 = Head (Rings ?K 0x1000) \<Longrightarrow> 24 = Tail (Rings ?K 0x1000) \<Longrightarrow>
        (0 :: ULONG) < 0x20000 \<Longrightarrow> (0 :: ULONG) \<noteq> 24 \<Longrightarrow>
        TunReceiveLoop (?e # es) Example_Ctx ?K = TunReceiveLoop es Ctx' K'"
    unfolding Example_state Example_packet_size by blast
  have c': "ifInDiscards (Statistics Ctx') = 1"
    using c by (simp add: Example_Ctx_def Example_Statistics_def)
  have i': "Indicated K' = []"
    using i by (simp add: SendAccepted_def KeSetEvent_def Let_def Example_Kernel_def)
  have h': "Head (Rings K' 0x1000) = 24"
    using h by (simp add: Example_footprint TUN_RING_WRAP_def)
  have a': "Head (Rings K' 0x1000) \<noteq> 0" "unat (RingContent 24 (Head (Rings K' 0x1000)) 0x20000) = 0"
    using a [OF Example_capacity] by (simp_all add: Example_content Example_footprint)
  have "TunReceiveLoop [?e] Example_Ctx ?K = TunReceiveLoop [] Ctx' K'"
    using Example_flags(3) by (intro l) (simp_all add: Example_state Example_sent_ring)
  then have l': "TunReceiveLoop [?e] Example_Ctx ?K = None" by simp
  from r c' i' h' a' l' show ?thesis by blast
qed

section \<open>The boundary between room and no room\<close>

lemma unat_NET_BUFFER_DATA_LENGTH: "unat (NET_BUFFER_DATA_LENGTH Nb) \<le> length (NbBytes Nb)"
  by (simp add: NET_BUFFER_DATA_LENGTH_def unat_of_nat take_bit_eq_mod)

lemma SendAccepted_copied:
  "Packet_Data (Rings (SendAccepted Ctx Nb K) (SendRing (Send Ctx)))
     (Tail (Rings K (SendRing (Send Ctx)))) (NET_BUFFER_DATA_LENGTH Nb) =
   take (unat (NET_BUFFER_DATA_LENGTH Nb)) (NbBytes Nb)"
proof -
  let ?bs = "take (unat (NET_BUFFER_DATA_LENGTH Nb)) (NbBytes Nb)"
  have l: "length ?bs = unat (NET_BUFFER_DATA_LENGTH Nb)"
    using unat_NET_BUFFER_DATA_LENGTH [of Nb] by simp
  have "read_bytes
      (NdisMoveMemory
        (store_ULONG (Data (Rings K (SendRing (Send Ctx))))
          (unat (Tail (Rings K (SendRing (Send Ctx))))) (NET_BUFFER_DATA_LENGTH Nb))
        (unat (Tail (Rings K (SendRing (Send Ctx)))) + 4) ?bs)
      (unat (Tail (Rings K (SendRing (Send Ctx)))) + 4) (length ?bs) = ?bs"
    by (rule read_bytes_NdisMoveMemory)
  then show ?thesis
    unfolding l by (simp add: Packet_Data_def Rings_SendAccepted sizeof_TUN_PACKET_def)
qed

lemma Example_large_length: "NET_BUFFER_DATA_LENGTH Example_Nb_large = 0x1FFF8"
  by (simp add: NET_BUFFER_DATA_LENGTH_def Example_Nb_large_def)

lemma Example_large_footprint: "TUN_ALIGN (sizeof_TUN_PACKET + 0x1FFF8) = 0x1FFFC"
  by (simp add: TUN_ALIGN_def TUN_ALIGNMENT_def sizeof_TUN_PACKET_def)

lemma Example_unmappable_length:
  "NET_BUFFER_DATA_LENGTH Example_Nb_unmappable = 20" "NbMapping Example_Nb_unmappable = NbUnmappable"
  by (simp_all add: NET_BUFFER_DATA_LENGTH_def Example_Nb_unmappable_def)

lemma Example_fit_state:
  "Rings Example_Kernel_fit R = Example_Ring\<lparr>Head := 28\<rparr>"
  by (simp add: Example_Kernel_fit_def)

lemma Example_fit_space: "RingSpace 28 0 0x20000 = 24"
  by (simp add: RingSpace_def TUN_RING_WRAP_def TUN_ALIGNMENT_def)

lemma Example_fit_valid: "TUN_RING_valid 0x20000 (Example_Ring\<lparr>Head := 28\<rparr>)"
  by (simp add: TUN_RING_valid_def is_aligned_def Example_Ring_def TUN_ALIGNMENT_def)

text \<open>
  Claim C5, as amended. On an adapter with all three flags set and a send ring whose
  \<open>Head\<close> and \<open>Tail\<close> are aligned and below the capacity, for a packet of at most 65535
  bytes: when its aligned footprint equals the free space and \<open>NdisGetDataBuffer\<close>
  returns its data, it is accepted, its length and bytes are in the ring at the old
  \<open>Tail\<close> and \<open>Tail\<close> has advanced by the footprint, wrapped; when its footprint exceeds
  the free space it is rejected with \<open>NDIS_STATUS_BUFFER_OVERFLOW\<close> and nothing changes.
\<close>

theorem send_boundary:
  assumes fl: "Flgs AND TUN_FLAGS_PRESENT \<noteq> 0" "Flgs AND TUN_FLAGS_RUNNING \<noteq> 0"
      "Flgs AND TUN_FLAGS_CONNECTED \<noteq> 0"
    and valid: "TUN_RING_valid (SendCapacity (Send Ctx)) (Rings K (SendRing (Send Ctx)))"
    and len: "NET_BUFFER_DATA_LENGTH Nb \<le> TUN_MAX_IP_PACKET_SIZE"
  shows "(TUN_ALIGN (sizeof_TUN_PACKET + NET_BUFFER_DATA_LENGTH Nb) =
            RingSpace (Head (Rings K (SendRing (Send Ctx)))) (Tail (Rings K (SendRing (Send Ctx))))
              (SendCapacity (Send Ctx)) \<longrightarrow>
          NbMapping Nb \<noteq> NbUnmappable \<longrightarrow>
            (\<exists>K'. TunSendNetBuffer Flgs Ctx Nb K = (Sent (NET_BUFFER_DATA_LENGTH Nb), K') \<and>
              Tail (Rings K' (SendRing (Send Ctx))) =
                TUN_RING_WRAP (Tail (Rings K (SendRing (Send Ctx))) +
                  TUN_ALIGN (sizeof_TUN_PACKET + NET_BUFFER_DATA_LENGTH Nb))
                  (SendCapacity (Send Ctx)) \<and>
              Packet_Size (Rings K' (SendRing (Send Ctx))) (Tail (Rings K (SendRing (Send Ctx)))) =
                NET_BUFFER_DATA_LENGTH Nb \<and>
              Packet_Data (Rings K' (SendRing (Send Ctx))) (Tail (Rings K (SendRing (Send Ctx))))
                (NET_BUFFER_DATA_LENGTH Nb) =
                take (unat (NET_BUFFER_DATA_LENGTH Nb)) (NbBytes Nb))) \<and>
         (RingSpace (Head (Rings K (SendRing (Send Ctx)))) (Tail (Rings K (SendRing (Send Ctx))))
            (SendCapacity (Send Ctx)) <
          TUN_ALIGN (sizeof_TUN_PACKET + NET_BUFFER_DATA_LENGTH Nb) \<longrightarrow>
            TunSendNetBuffer Flgs Ctx Nb K = (Discarded NDIS_STATUS_BUFFER_OVERFLOW, K))"
proof (intro conjI impI)
  let ?R = "SendRing (Send Ctx)"
  from valid have ht: "Head (Rings K ?R) < SendCapacity (Send Ctx)"
    "Tail (Rings K ?R) < SendCapacity (Send Ctx)"
    by (simp_all add: TUN_RING_valid_def)
  {
    assume fit: "TUN_ALIGN (sizeof_TUN_PACKET + NET_BUFFER_DATA_LENGTH Nb) =
        RingSpace (Head (Rings K ?R)) (Tail (Rings K ?R)) (SendCapacity (Send Ctx))"
      and mp: "NbMapping Nb \<noteq> NbUnmappable"
    from fit have sp: "TUN_ALIGN (sizeof_TUN_PACKET + NET_BUFFER_DATA_LENGTH Nb) \<le>
        RingSpace (Head (Rings K ?R)) (Tail (Rings K ?R)) (SendCapacity (Send Ctx))"
      by simp
    have s: "TunSendNetBuffer Flgs Ctx Nb K =
        (Sent (NET_BUFFER_DATA_LENGTH Nb), SendAccepted Ctx Nb K)"
      using fl len ht sp mp by (rule TunSendNetBuffer_accept)
    have t: "Tail (Rings (SendAccepted Ctx Nb K) ?R) =
        TUN_RING_WRAP (Tail (Rings K ?R) +
          TUN_ALIGN (sizeof_TUN_PACKET + NET_BUFFER_DATA_LENGTH Nb)) (SendCapacity (Send Ctx))"
      by (simp add: Rings_SendAccepted)
    have p: "Packet_Size (Rings (SendAccepted Ctx Nb K) ?R) (Tail (Rings K ?R)) =
        NET_BUFFER_DATA_LENGTH Nb"
      by (simp add: Packet_Size_def Rings_SendAccepted sizeof_TUN_PACKET_def
          load_ULONG_NdisMoveMemory load_store_ULONG)
    from s t p SendAccepted_copied [of Ctx Nb K]
    show "\<exists>K'. TunSendNetBuffer Flgs Ctx Nb K = (Sent (NET_BUFFER_DATA_LENGTH Nb), K') \<and>
        Tail (Rings K' ?R) =
          TUN_RING_WRAP (Tail (Rings K ?R) +
            TUN_ALIGN (sizeof_TUN_PACKET + NET_BUFFER_DATA_LENGTH Nb)) (SendCapacity (Send Ctx)) \<and>
        Packet_Size (Rings K' ?R) (Tail (Rings K ?R)) = NET_BUFFER_DATA_LENGTH Nb \<and>
        Packet_Data (Rings K' ?R) (Tail (Rings K ?R)) (NET_BUFFER_DATA_LENGTH Nb) =
          take (unat (NET_BUFFER_DATA_LENGTH Nb)) (NbBytes Nb)"
      by blast
  }
  {
    assume "RingSpace (Head (Rings K ?R)) (Tail (Rings K ?R)) (SendCapacity (Send Ctx)) <
        TUN_ALIGN (sizeof_TUN_PACKET + NET_BUFFER_DATA_LENGTH Nb)"
    with fl len ht
    show "TunSendNetBuffer Flgs Ctx Nb K = (Discarded NDIS_STATUS_BUFFER_OVERFLOW, K)"
      by (rule TunSendNetBuffer_full)
  }
qed

text \<open>
  The claim as it was stated fails: a packet of 131064 bytes has a footprint equal to
  the free space of an empty ring of the minimum capacity, and is rejected for its
  length, also where its footprint exceeds the free space; and a packet whose data
  cannot be mapped is rejected though its footprint equals the free space.
\<close>

theorem send_boundary_counterexample:
  "TUN_ALIGN (sizeof_TUN_PACKET + NET_BUFFER_DATA_LENGTH Example_Nb_large) =
     RingSpace (Head (Rings Example_Kernel 0x1000)) (Tail (Rings Example_Kernel 0x1000)) 0x20000 \<and>
   TunSendNetBuffer 7 Example_Ctx Example_Nb_large Example_Kernel =
     (Discarded NDIS_STATUS_INVALID_LENGTH, Example_Kernel) \<and>
   TUN_ALIGN (sizeof_TUN_PACKET + NET_BUFFER_DATA_LENGTH Example_Nb_unmappable) =
     RingSpace (Head (Rings Example_Kernel_fit 0x1000)) (Tail (Rings Example_Kernel_fit 0x1000))
       0x20000 \<and>
   TunSendNetBuffer 7 Example_Ctx Example_Nb_unmappable Example_Kernel_fit =
     (Discarded NDIS_STATUS_BUFFER_OVERFLOW,
      SendUnmappable Example_Ctx Example_Nb_unmappable Example_Kernel_fit) \<and>
   RingSpace (Head (Rings Example_Kernel_fit 0x1000)) (Tail (Rings Example_Kernel_fit 0x1000))
       0x20000 <
     TUN_ALIGN (sizeof_TUN_PACKET + NET_BUFFER_DATA_LENGTH Example_Nb_large) \<and>
   TunSendNetBuffer 7 Example_Ctx Example_Nb_large Example_Kernel_fit =
     (Discarded NDIS_STATUS_INVALID_LENGTH, Example_Kernel_fit)"
proof -
  have big: "TUN_MAX_IP_PACKET_SIZE < NET_BUFFER_DATA_LENGTH Example_Nb_large"
    by (simp add: Example_large_length TUN_MAX_IP_PACKET_SIZE_def)
  have a: "TunSendNetBuffer 7 Example_Ctx Example_Nb_large K =
      (Discarded NDIS_STATUS_INVALID_LENGTH, K)" for K
    using Example_flags(1,2,3) big by (rule TunSendNetBuffer_invalid_length)
  have b: "TunSendNetBuffer 7 Example_Ctx Example_Nb_unmappable Example_Kernel_fit =
      (Discarded NDIS_STATUS_BUFFER_OVERFLOW,
       SendUnmappable Example_Ctx Example_Nb_unmappable Example_Kernel_fit)"
    using Example_flags(1,2,3)
    by (rule TunSendNetBuffer_unmappable)
      (simp_all add: Example_unmappable_length Example_state Example_fit_state Example_Ring_def
        Example_fit_space Example_footprint TUN_MAX_IP_PACKET_SIZE_def)
  show ?thesis
    by (simp add: a b Example_large_length Example_large_footprint Example_unmappable_length
        Example_footprint Example_state Example_space Example_fit_state Example_Ring_def
        Example_fit_space)
qed

theorem send_boundary_witness:
  "(\<exists>K'. TunSendNetBuffer 7 Example_Ctx Example_Nb Example_Kernel_fit = (Sent 20, K') \<and>
      Tail (Rings K' 0x1000) = 24 \<and> Packet_Size (Rings K' 0x1000) 0 = 20 \<and>
      Packet_Data (Rings K' 0x1000) 0 20 = 0x45 # replicate 19 0) \<and>
   TunSendNetBuffer 7 Example_Ctx (Example_Nb\<lparr>NbBytes := 0x45 # replicate 20 0\<rparr>) Example_Kernel_fit =
     (Discarded NDIS_STATUS_BUFFER_OVERFLOW, Example_Kernel_fit)"
proof -
  let ?Nb = "Example_Nb\<lparr>NbBytes := 0x45 # replicate 20 0\<rparr>"
  have valid: "TUN_RING_valid (SendCapacity (Send Example_Ctx))
      (Rings Example_Kernel_fit (SendRing (Send Example_Ctx)))"
    using Example_fit_valid by (simp add: Example_state Example_fit_state)
  have len: "NET_BUFFER_DATA_LENGTH Example_Nb \<le> TUN_MAX_IP_PACKET_SIZE"
    by (simp add: Example_Nb_length TUN_MAX_IP_PACKET_SIZE_def)
  have l21: "NET_BUFFER_DATA_LENGTH ?Nb = 21"
    by (simp add: NET_BUFFER_DATA_LENGTH_def)
  have len': "NET_BUFFER_DATA_LENGTH ?Nb \<le> TUN_MAX_IP_PACKET_SIZE"
    by (simp add: l21 TUN_MAX_IP_PACKET_SIZE_def)
  have f21: "TUN_ALIGN (sizeof_TUN_PACKET + 21) = 28"
    by (simp add: TUN_ALIGN_def TUN_ALIGNMENT_def sizeof_TUN_PACKET_def)
  from send_boundary [OF Example_flags(1,2,3) valid len, THEN conjunct1]
  have a: "\<exists>K'. TunSendNetBuffer 7 Example_Ctx Example_Nb Example_Kernel_fit = (Sent 20, K') \<and>
      Tail (Rings K' 0x1000) = 24 \<and> Packet_Size (Rings K' 0x1000) 0 = 20 \<and>
      Packet_Data (Rings K' 0x1000) 0 20 = 0x45 # replicate 19 0"
    by (simp add: Example_Nb_length Example_footprint Example_state Example_fit_state
        Example_Ring_def Example_fit_space TUN_RING_WRAP_def)
      (simp add: Example_Nb_def)
  from send_boundary [OF Example_flags(1,2,3) valid len', THEN conjunct2]
  have b: "TunSendNetBuffer 7 Example_Ctx ?Nb Example_Kernel_fit =
      (Discarded NDIS_STATUS_BUFFER_OVERFLOW, Example_Kernel_fit)"
    by (simp add: l21 f21 Example_state Example_fit_state Example_Ring_def Example_fit_space)
  from a b show ?thesis by blast
qed

section \<open>The statuses of rejected packets\<close>

text \<open>
  Every packet the send path rejects whose data could have been mapped leaves the
  kernel state as it was and carries the status of the test that rejected it.
\<close>

lemma TunSendNetBuffer_rejected:
  assumes r: "TunSendNetBuffer Flgs Ctx Nb K = (Discarded St, K')"
    and m: "NbMapping Nb \<noteq> NbUnmappable"
  shows "K' = K \<and>
    (St = NDIS_STATUS_ADAPTER_REMOVED \<and> Flgs AND TUN_FLAGS_PRESENT = 0 \<or>
     St = NDIS_STATUS_PAUSED \<and> Flgs AND TUN_FLAGS_RUNNING = 0 \<or>
     St = NDIS_STATUS_MEDIA_DISCONNECTED \<and> Flgs AND TUN_FLAGS_CONNECTED = 0 \<or>
     St = NDIS_STATUS_INVALID_LENGTH \<and> TUN_MAX_IP_PACKET_SIZE < NET_BUFFER_DATA_LENGTH Nb \<or>
     St = NDIS_STATUS_ADAPTER_NOT_READY \<and>
       (SendCapacity (Send Ctx) \<le> Head (Rings K (SendRing (Send Ctx))) \<or>
        SendCapacity (Send Ctx) \<le> Tail (Rings K (SendRing (Send Ctx)))) \<or>
     St = NDIS_STATUS_BUFFER_OVERFLOW \<and>
       RingSpace (Head (Rings K (SendRing (Send Ctx)))) (Tail (Rings K (SendRing (Send Ctx))))
         (SendCapacity (Send Ctx)) < TUN_ALIGN (sizeof_TUN_PACKET + NET_BUFFER_DATA_LENGTH Nb))"
proof (cases "Flgs AND TUN_FLAGS_PRESENT = 0")
  case True
  with r TunSendNetBuffer_removed [OF True, of Ctx Nb K] show ?thesis by simp
next
  case c1: False
  show ?thesis
  proof (cases "Flgs AND TUN_FLAGS_RUNNING = 0")
    case True
    with r TunSendNetBuffer_paused [OF c1 True, of Ctx Nb K] show ?thesis by simp
  next
    case c2: False
    show ?thesis
    proof (cases "Flgs AND TUN_FLAGS_CONNECTED = 0")
      case True
      with r TunSendNetBuffer_disconnected [OF c1 c2 True, of Ctx Nb K] show ?thesis by simp
    next
      case c3: False
      show ?thesis
      proof (cases "TUN_MAX_IP_PACKET_SIZE < NET_BUFFER_DATA_LENGTH Nb")
        case True
        with r TunSendNetBuffer_invalid_length [OF c1 c2 c3 True, of Ctx K] show ?thesis by simp
      next
        case False
        then have c4: "NET_BUFFER_DATA_LENGTH Nb \<le> TUN_MAX_IP_PACKET_SIZE" by simp
        show ?thesis
        proof (cases "SendCapacity (Send Ctx) \<le> Head (Rings K (SendRing (Send Ctx))) \<or>
            SendCapacity (Send Ctx) \<le> Tail (Rings K (SendRing (Send Ctx)))")
          case True
          with r TunSendNetBuffer_broken [OF c1 c2 c3 c4 True] show ?thesis by simp
        next
          case False
          then have c5: "Head (Rings K (SendRing (Send Ctx))) < SendCapacity (Send Ctx)"
            "Tail (Rings K (SendRing (Send Ctx))) < SendCapacity (Send Ctx)"
            by (simp_all add: not_le)
          show ?thesis
          proof (cases "RingSpace (Head (Rings K (SendRing (Send Ctx))))
              (Tail (Rings K (SendRing (Send Ctx)))) (SendCapacity (Send Ctx)) <
              TUN_ALIGN (sizeof_TUN_PACKET + NET_BUFFER_DATA_LENGTH Nb)")
            case True
            with r TunSendNetBuffer_full [OF c1 c2 c3 c4 c5 True] show ?thesis by simp
          next
            case False
            then have c6: "TUN_ALIGN (sizeof_TUN_PACKET + NET_BUFFER_DATA_LENGTH Nb) \<le>
                RingSpace (Head (Rings K (SendRing (Send Ctx))))
                  (Tail (Rings K (SendRing (Send Ctx)))) (SendCapacity (Send Ctx))"
              by simp
            from r TunSendNetBuffer_accept [OF c1 c2 c3 c4 c5 c6 m] show ?thesis by simp
          qed
        qed
      qed
    qed
  qed
qed

text \<open>
  Claim C4 asks the same of every rejected packet. The send path at a packet of 20
  bytes whose data cannot be mapped, on an empty ring: the packet is rejected with
  \<open>NDIS_STATUS_BUFFER_OVERFLOW\<close> although the ring has room for it, and its length has
  been written into the ring at \<open>Tail\<close>; the whole of \<open>TunSendNetBufferLists\<close> on that
  packet alone completes its list with that status and counts one discard.
\<close>

theorem send_unmappable_reported_as_overflow:
  "TunSendNetBuffer 7 Example_Ctx Example_Nb_unmappable Example_Kernel =
     (Discarded NDIS_STATUS_BUFFER_OVERFLOW,
      SendUnmappable Example_Ctx Example_Nb_unmappable Example_Kernel) \<and>
   TUN_ALIGN (sizeof_TUN_PACKET + NET_BUFFER_DATA_LENGTH Example_Nb_unmappable) \<le>
     RingSpace (Head (Rings Example_Kernel 0x1000)) (Tail (Rings Example_Kernel 0x1000)) 0x20000 \<and>
   Data (Rings Example_Kernel 0x1000) 0 = 0 \<and>
   Data (Rings (SendUnmappable Example_Ctx Example_Nb_unmappable Example_Kernel) 0x1000) 0 = 20 \<and>
   Tail (Rings (SendUnmappable Example_Ctx Example_Nb_unmappable Example_Kernel) 0x1000) = 0 \<and>
   TunSendNetBufferLists Example_Ctx
     [\<lparr>NetBuffers = [Example_Nb_unmappable], NblStatus = None\<rparr>] Example_Kernel =
     (Example_Ctx\<lparr>Statistics := Example_Statistics\<lparr>ifOutDiscards := 1\<rparr>\<rparr>,
      (SendUnmappable Example_Ctx Example_Nb_unmappable Example_Kernel)
        \<lparr>Completed := [[Some NDIS_STATUS_BUFFER_OVERFLOW]]\<rparr>)"
proof -
  have b: "TunSendNetBuffer 7 Example_Ctx Example_Nb_unmappable Example_Kernel =
      (Discarded NDIS_STATUS_BUFFER_OVERFLOW,
       SendUnmappable Example_Ctx Example_Nb_unmappable Example_Kernel)"
    using Example_flags(1,2,3)
    by (rule TunSendNetBuffer_unmappable)
      (simp_all add: Example_unmappable_length Example_state Example_space Example_footprint
        TUN_MAX_IP_PACKET_SIZE_def)
  have c: "Completed (SendUnmappable Example_Ctx Example_Nb_unmappable Example_Kernel) = []"
    by (simp add: SendUnmappable_def Let_def Example_Kernel_def)
  have l: "TunSendNetBufferLists Example_Ctx
      [\<lparr>NetBuffers = [Example_Nb_unmappable], NblStatus = None\<rparr>] Example_Kernel =
      (Example_Ctx\<lparr>Statistics := Example_Statistics\<lparr>ifOutDiscards := 1\<rparr>\<rparr>,
       (SendUnmappable Example_Ctx Example_Nb_unmappable Example_Kernel)
         \<lparr>Completed := [[Some NDIS_STATUS_BUFFER_OVERFLOW]]\<rparr>)"
    by (simp add: TunSendNetBufferLists_def Example_state b c)
      (simp add: Example_Ctx_def Example_Statistics_def)
  show ?thesis
    by (simp add: b l Example_unmappable_length Example_state Example_space Example_footprint
        SendUnmappable_def Let_def store_ULONG_def)
      (simp add: Example_Ring_def)
qed

section \<open>The capacity test of the registration\<close>

lemma PopulationCount64_card: "PopulationCount64 w = card {n. n < 64 \<and> bit w n}"
proof -
  have "PopulationCount64 w = card ({n. bit w n} \<inter> set [0..<64])"
    unfolding PopulationCount64_def by (rule distinct_length_filter) simp
  also have "{n. bit w n} \<inter> set [0..<64] = {n. n < 64 \<and> bit w n}"
    by auto
  finally show ?thesis .
qed

lemma bits_ucast: "{n. n < 64 \<and> bit (ucast (c :: ULONG) :: 64 word) n} = {n. bit c n}"
  by (auto simp add: bit_ucast_iff dest: bit_imp_le_length)

lemma PopulationCount64_power_of_two:
  "PopulationCount64 (ucast (c :: ULONG)) = 1 \<longleftrightarrow> (\<exists>i<32. c = 2 ^ i)"
proof
  assume "PopulationCount64 (ucast c) = 1"
  then have "card {n. bit c n} = 1"
    by (simp add: PopulationCount64_card bits_ucast)
  then obtain i where i: "{n. bit c n} = {i}"
    by (auto simp add: card_1_singleton_iff)
  then have "bit c i" by auto
  then have l: "i < 32" by (auto dest: bit_imp_le_length)
  have "c = 2 ^ i"
  proof (rule bit_eqI)
    fix n
    from i have "bit c n \<longleftrightarrow> n = i" by auto
    with l show "bit c n \<longleftrightarrow> bit ((2 :: ULONG) ^ i) n"
      by (auto simp add: bit_exp_iff)
  qed
  with l show "\<exists>i<32. c = 2 ^ i" by blast
next
  assume "\<exists>i<32. c = 2 ^ i"
  then obtain i where l: "i < 32" and c: "c = 2 ^ i" by blast
  have "{n. bit c n} = {i}"
    using l by (auto simp add: c bit_exp_iff)
  then show "PopulationCount64 (ucast c) = 1"
    by (simp add: PopulationCount64_card bits_ucast)
qed

lemma TunRingRejected_iff:
  "TunRingRejected c d \<longleftrightarrow> \<not> TunCapacityLegal c \<or> TailMoved d = NULL \<or> Ring d = NULL"
proof -
  have "PopulationCount64 (ucast c) \<noteq> 1 \<longleftrightarrow> \<not> (\<exists>i<32. c = 2 ^ i)"
    by (simp only: PopulationCount64_power_of_two)
  then show ?thesis
    unfolding TunRingRejected_def TunCapacityLegal_def
    by (simp only: not_le de_Morgan_conj) blast
qed

section \<open>A registration that fails\<close>

lemmas register_defs =
  TunDispatchRegisterBuffers_def TunRegisterReceive_def
  cleanupResetOwner_def cleanupSendTailMoved_def cleanupSendMdl_def cleanupSendUnlockPages_def
  cleanupReceiveTailMoved_def cleanupReceiveMdl_def cleanupReceiveUnlockPages_def
  cleanupFlagsConnected_def

lemmas kernel_defs =
  ObReferenceObject_def ObDereferenceObject_def IoAllocateMdl_def IoFreeMdl_def
  MmProbeAndLockPages_def MmUnlockPages_def MmGetSystemAddressForMdlSafe_def
  PsCreateSystemThread_def TunIndicateStatus_def

lemma register_failure_kernel:
  assumes "TunDispatchRegisterBuffers e Irp Ctx K = (St, Ctx', K')" "St \<noteq> STATUS_SUCCESS"
  shows "K' = K"
  using assms
  by (auto simp add: register_defs kernel_defs Let_def NT_SUCCESS_def split: if_splits)

lemma register_failure_ctx:
  assumes "TunDispatchRegisterBuffers e Irp Ctx K = (St, Ctx', K')" "St \<noteq> STATUS_SUCCESS"
  shows "Owner Ctx' = Owner Ctx \<and> MiniportAdapterHandle Ctx' = MiniportAdapterHandle Ctx \<and>
         Statistics Ctx' = Statistics Ctx \<and> NblPool Ctx' = NblPool Ctx \<and>
         (Flags Ctx' = Flags Ctx \<or>
          Flags Ctx' = (Flags Ctx OR TUN_FLAGS_CONNECTED) AND NOT TUN_FLAGS_CONNECTED) \<and>
         (Owner Ctx \<noteq> NULL \<longrightarrow> Ctx' = Ctx)"
  using assms
  by (auto simp add: register_defs Let_def NT_SUCCESS_def split: if_splits)

lemma flags_set_clear:
  fixes F C :: LONG
  assumes "F AND C = 0"
  shows "(F OR C) AND NOT C = F"
proof (rule bit_eqI)
  fix n
  from assms have "\<not> bit (F AND C) n" by simp
  then show "bit ((F OR C) AND NOT C) n \<longleftrightarrow> bit F n"
    by (auto simp add: bit_and_iff bit_or_iff bit_not_iff dest: bit_imp_possible_bit)
qed

lemma register_success:
  assumes "TunDispatchRegisterBuffers e Irp Ctx K = (STATUS_SUCCESS, Ctx', K')"
  shows "Owner Ctx = NULL \<and> InputBufferLength Irp = sizeof_TUN_REGISTER_RINGS \<and>
         \<not> TunRingRejected (TUN_RING_CAPACITY (RingSize (RrbSend (SystemBuffer Irp))))
             (RrbSend (SystemBuffer Irp)) \<and>
         \<not> TunRingRejected (TUN_RING_CAPACITY (RingSize (RrbReceive (SystemBuffer Irp))))
             (RrbReceive (SystemBuffer Irp))"
  using assms
  by (auto simp add: register_defs Let_def NT_SUCCESS_def split: if_splits)

lemma register_send_rejected:
  assumes "Owner Ctx = NULL"
    and "TunRingRejected (TUN_RING_CAPACITY (RingSize (RrbSend (SystemBuffer Irp))))
           (RrbSend (SystemBuffer Irp))"
  shows "fst (TunDispatchRegisterBuffers e Irp Ctx K) = STATUS_INVALID_PARAMETER"
  using assms by (simp add: register_defs Let_def)

lemma register_receive_rejected:
  assumes "Owner Ctx = NULL" "InputBufferLength Irp = sizeof_TUN_REGISTER_RINGS"
    and "\<not> TunRingRejected (TUN_RING_CAPACITY (RingSize (RrbSend (SystemBuffer Irp))))
           (RrbSend (SystemBuffer Irp))"
    and "NT_SUCCESS (SendEventStatus e)" "SendMdlAlloc e \<noteq> NULL" "SendProbe e"
      "SendMap e \<noteq> NULL"
    and "TunRingRejected (TUN_RING_CAPACITY (RingSize (RrbReceive (SystemBuffer Irp))))
           (RrbReceive (SystemBuffer Irp))"
  shows "fst (TunDispatchRegisterBuffers e Irp Ctx K) = STATUS_INVALID_PARAMETER"
  using assms by (simp add: register_defs Let_def)

lemma register_length_rejected:
  assumes "Owner Ctx = NULL"
    and "InputBufferLength Irp \<noteq> sizeof_TUN_REGISTER_RINGS"
  shows "fst (TunDispatchRegisterBuffers e Irp Ctx K) = STATUS_INVALID_PARAMETER"
  using assms by (simp add: register_defs Let_def)

lemma register_send_event_fails:
  assumes "Owner Ctx = NULL" "InputBufferLength Irp = sizeof_TUN_REGISTER_RINGS"
    and "\<not> TunRingRejected (TUN_RING_CAPACITY (RingSize (RrbSend (SystemBuffer Irp))))
           (RrbSend (SystemBuffer Irp))"
    and "\<not> NT_SUCCESS (SendEventStatus e)"
  shows "fst (TunDispatchRegisterBuffers e Irp Ctx K) = SendEventStatus e"
  using assms by (simp add: register_defs Let_def)

lemma register_send_mdl_fails:
  assumes "Owner Ctx = NULL" "InputBufferLength Irp = sizeof_TUN_REGISTER_RINGS"
    and "\<not> TunRingRejected (TUN_RING_CAPACITY (RingSize (RrbSend (SystemBuffer Irp))))
           (RrbSend (SystemBuffer Irp))"
    and "NT_SUCCESS (SendEventStatus e)" "SendMdlAlloc e = NULL"
  shows "fst (TunDispatchRegisterBuffers e Irp Ctx K) = STATUS_INSUFFICIENT_RESOURCES"
  using assms by (simp add: register_defs Let_def)

lemma register_send_probe_fails:
  assumes "Owner Ctx = NULL" "InputBufferLength Irp = sizeof_TUN_REGISTER_RINGS"
    and "\<not> TunRingRejected (TUN_RING_CAPACITY (RingSize (RrbSend (SystemBuffer Irp))))
           (RrbSend (SystemBuffer Irp))"
    and "NT_SUCCESS (SendEventStatus e)" "SendMdlAlloc e \<noteq> NULL" "\<not> SendProbe e"
  shows "fst (TunDispatchRegisterBuffers e Irp Ctx K) = STATUS_INVALID_USER_BUFFER"
  using assms by (simp add: register_defs Let_def)

lemma register_send_map_fails:
  assumes "Owner Ctx = NULL" "InputBufferLength Irp = sizeof_TUN_REGISTER_RINGS"
    and "\<not> TunRingRejected (TUN_RING_CAPACITY (RingSize (RrbSend (SystemBuffer Irp))))
           (RrbSend (SystemBuffer Irp))"
    and "NT_SUCCESS (SendEventStatus e)" "SendMdlAlloc e \<noteq> NULL" "SendProbe e"
      "SendMap e = NULL"
  shows "fst (TunDispatchRegisterBuffers e Irp Ctx K) = STATUS_INSUFFICIENT_RESOURCES"
  using assms by (simp add: register_defs Let_def)


lemma Example_capacity_legal:
  "TUN_RING_CAPACITY 0x3000C = 0x20000" "TunCapacityLegal 0x20000"
  "TUN_RING_CAPACITY 0 = 0xFFFEFFF4" "\<not> TunCapacityLegal 0xFFFEFFF4"
proof -
  show "TUN_RING_CAPACITY 0x3000C = 0x20000" "TUN_RING_CAPACITY 0 = 0xFFFEFFF4"
    by (simp_all add: TUN_RING_CAPACITY_def sizeof_TUN_RING_def TUN_MAX_PACKET_SIZE_def
        TUN_ALIGN_def TUN_ALIGNMENT_def sizeof_TUN_PACKET_def TUN_MAX_IP_PACKET_SIZE_def)
  have "(0x20000 :: ULONG) = 2 ^ 17" by simp
  then have "\<exists>i<32. (0x20000 :: ULONG) = 2 ^ i" by (intro exI [of _ 17]) simp
  then show "TunCapacityLegal 0x20000"
    by (simp add: TunCapacityLegal_def TUN_MIN_RING_CAPACITY_def TUN_MAX_RING_CAPACITY_def)
  show "\<not> TunCapacityLegal 0xFFFEFFF4"
    by (simp add: TunCapacityLegal_def TUN_MAX_RING_CAPACITY_def)
qed

lemma Example_rings_accepted:
  "\<not> TunRingRejected 0x20000 (RrbSend Example_Rrb)"
  "\<not> TunRingRejected 0x20000 (RrbReceive Example_Rrb)"
  by (simp_all add: TunRingRejected_iff Example_capacity_legal Example_Rrb_def NULL_def)

lemma Example_request:
  "InputBufferLength Example_Irp = sizeof_TUN_REGISTER_RINGS" "SystemBuffer Example_Irp = Example_Rrb"
  "FileObject Example_Irp = 0x20"
  "RingSize (RrbSend Example_Rrb) = 0x3000C" "RingSize (RrbReceive Example_Rrb) = 0x3000C"
  "Owner Example_Ctx_idle = NULL" "Flags Example_Ctx_idle = 3"
  by (simp_all add: Example_Irp_def Example_Rrb_def Example_Ctx_idle_def
      sizeof_TUN_REGISTER_RINGS_def)

lemma Example_register_thread_failure:
  "TunDispatchRegisterBuffers (Example_RegEnv\<lparr>ThreadStatus := STATUS_INSUFFICIENT_RESOURCES\<rparr>)
     Example_Irp Example_Ctx_idle Example_Kernel =
   (NDIS_STATUS_FAILURE,
    Example_Ctx_idle
      \<lparr>Send := \<lparr>SendMdl = 0x30, SendRing = 0x1000, SendCapacity = 0x20000, SendTailMoved = 0x40\<rparr>,
       Receive := \<lparr>ReceiveMdl = 0x50, ReceiveRing = 0x2000, ReceiveCapacity = 0x20000,
                   ReceiveTailMoved = 0x60, ReceiveThread = 0\<rparr>\<rparr>,
    Example_Kernel)"
  by (simp add: register_defs Let_def Example_request Example_capacity_legal
      Example_rings_accepted NT_SUCCESS_def)
    (simp add: Example_RegEnv_def Example_Ctx_idle_def Example_Kernel_def NULL_def kernel_defs
      TUN_FLAGS_CONNECTED_def)

text \<open>
  Claim C3, as amended. When the registration returns a failure status, the kernel
  state is what it was before the call: no reference to an event, no MDL, no locked
  or mapped page, no handle and no thread is left, and nothing has been signalled or
  indicated. The owner is what it was (none, or the owner recorded before, which
  stays), the connected flag is clear if it was clear, and the adapter handle, the
  statistics and the pool are untouched. When an owner was already recorded the whole
  context is untouched; otherwise the fields of the two ring descriptors keep what the
  failed attempt stored in them.
\<close>

theorem register_failure_unwinds:
  assumes r: "TunDispatchRegisterBuffers e Irp Ctx K = (St, Ctx', K')"
    and f: "St \<noteq> STATUS_SUCCESS"
  shows "K' = K \<and> Owner Ctx' = Owner Ctx \<and>
         (Flags Ctx AND TUN_FLAGS_CONNECTED = 0 \<longrightarrow> Flags Ctx' = Flags Ctx) \<and>
         MiniportAdapterHandle Ctx' = MiniportAdapterHandle Ctx \<and>
         Statistics Ctx' = Statistics Ctx \<and> NblPool Ctx' = NblPool Ctx \<and>
         (Owner Ctx \<noteq> NULL \<longrightarrow> Ctx' = Ctx)"
proof -
  note c = register_failure_ctx [OF r f]
  from c have "Flags Ctx' = Flags Ctx \<or>
      Flags Ctx' = (Flags Ctx OR TUN_FLAGS_CONNECTED) AND NOT TUN_FLAGS_CONNECTED"
    by simp
  then have "Flags Ctx AND TUN_FLAGS_CONNECTED = 0 \<longrightarrow> Flags Ctx' = Flags Ctx"
    using flags_set_clear [of "Flags Ctx" TUN_FLAGS_CONNECTED] by auto
  with c register_failure_kernel [OF r f] show ?thesis by simp
qed

theorem register_failure_unwinds_witness:
  "snd (snd (TunDispatchRegisterBuffers (Example_RegEnv\<lparr>ThreadStatus := STATUS_INSUFFICIENT_RESOURCES\<rparr>)
          Example_Irp Example_Ctx_idle Example_Kernel)) = Example_Kernel \<and>
   Owner (fst (snd (TunDispatchRegisterBuffers
          (Example_RegEnv\<lparr>ThreadStatus := STATUS_INSUFFICIENT_RESOURCES\<rparr>)
          Example_Irp Example_Ctx_idle Example_Kernel))) = NULL \<and>
   Flags (fst (snd (TunDispatchRegisterBuffers
          (Example_RegEnv\<lparr>ThreadStatus := STATUS_INSUFFICIENT_RESOURCES\<rparr>)
          Example_Irp Example_Ctx_idle Example_Kernel))) = 3 \<and>
   TunDispatchRegisterBuffers Example_RegEnv Example_Irp Example_Ctx Example_Kernel =
     (STATUS_ALREADY_INITIALIZED, Example_Ctx, Example_Kernel)"
proof -
  let ?e = "Example_RegEnv\<lparr>ThreadStatus := STATUS_INSUFFICIENT_RESOURCES\<rparr>"
  obtain St Ctx' K' where r:
    "TunDispatchRegisterBuffers ?e Example_Irp Example_Ctx_idle Example_Kernel = (St, Ctx', K')"
    by (cases "TunDispatchRegisterBuffers ?e Example_Irp Example_Ctx_idle Example_Kernel")
  with Example_register_thread_failure have f: "St \<noteq> STATUS_SUCCESS" by simp
  have c: "Flags Example_Ctx_idle AND TUN_FLAGS_CONNECTED = 0"
    by (simp add: Example_request TUN_FLAGS_CONNECTED_def)
  from register_failure_unwinds [OF r f] c
  have a: "K' = Example_Kernel \<and> Owner Ctx' = NULL \<and> Flags Ctx' = 3"
    by (simp add: Example_request)
  obtain St2 Ctx2 K2 where r2:
    "TunDispatchRegisterBuffers Example_RegEnv Example_Irp Example_Ctx Example_Kernel = (St2, Ctx2, K2)"
    by (cases "TunDispatchRegisterBuffers Example_RegEnv Example_Irp Example_Ctx Example_Kernel")
  have o: "Owner Example_Ctx \<noteq> NULL"
    by (simp add: Example_Ctx_def NULL_def)
  then have s2: "St2 = STATUS_ALREADY_INITIALIZED"
    using r2 by (simp add: TunDispatchRegisterBuffers_def)
  then have f2: "St2 \<noteq> STATUS_SUCCESS" by simp
  from register_failure_unwinds [OF r2 f2] o have "K2 = Example_Kernel \<and> Ctx2 = Example_Ctx"
    by simp
  with a r r2 s2 show ?thesis by simp
qed

text \<open>
  The claim as it was stated fails: a registration of two legal rings that fails at the
  creation of the worker leaves the capacities and the pointers of both rings in the
  context, which held zeroes before.
\<close>

theorem register_failure_counterexample:
  "fst (TunDispatchRegisterBuffers (Example_RegEnv\<lparr>ThreadStatus := STATUS_INSUFFICIENT_RESOURCES\<rparr>)
          Example_Irp Example_Ctx_idle Example_Kernel) = NDIS_STATUS_FAILURE \<and>
   fst (snd (TunDispatchRegisterBuffers (Example_RegEnv\<lparr>ThreadStatus := STATUS_INSUFFICIENT_RESOURCES\<rparr>)
          Example_Irp Example_Ctx_idle Example_Kernel)) \<noteq> Example_Ctx_idle \<and>
   SendCapacity (Send Example_Ctx_idle) = 0 \<and>
   SendCapacity (Send (fst (snd (TunDispatchRegisterBuffers
          (Example_RegEnv\<lparr>ThreadStatus := STATUS_INSUFFICIENT_RESOURCES\<rparr>)
          Example_Irp Example_Ctx_idle Example_Kernel)))) = 0x20000 \<and>
   SendRing (Send Example_Ctx_idle) = 0 \<and>
   SendRing (Send (fst (snd (TunDispatchRegisterBuffers
          (Example_RegEnv\<lparr>ThreadStatus := STATUS_INSUFFICIENT_RESOURCES\<rparr>)
          Example_Irp Example_Ctx_idle Example_Kernel)))) = 0x1000"
  by (simp add: Example_register_thread_failure) (simp add: Example_Ctx_idle_def)

text \<open>
  Claim C6, as amended. When the capacity derived from the declared size of either
  ring is below the minimum, above the maximum or not a power of two, the
  registration does not succeed and nothing of it takes effect: the kernel state and
  the owner are as before and the connected flag is clear if it was. The status is
  that of the first test of the function that fails:
  \<^item> \<open>STATUS_ALREADY_INITIALIZED\<close> when an owner is recorded;
  \<^item> otherwise \<open>STATUS_INVALID_PARAMETER\<close> when the length of the input is not that of
    a \<open>TUN_REGISTER_RINGS\<close> or the descriptor of the send ring is rejected (its
    capacity is illegal, or its event or its ring is \<open>NULL\<close>);
  \<^item> otherwise the status of \<open>ObReferenceObjectByHandle\<close> for the event of the send
    ring when that is a failure;
  \<^item> otherwise \<open>STATUS_INSUFFICIENT_RESOURCES\<close> when \<open>IoAllocateMdl\<close> for the send
    ring returns \<open>NULL\<close>;
  \<^item> otherwise \<open>STATUS_INVALID_USER_BUFFER\<close> when \<open>MmProbeAndLockPages\<close> for the send
    ring raises;
  \<^item> otherwise \<open>STATUS_INSUFFICIENT_RESOURCES\<close> when
    \<open>MmGetSystemAddressForMdlSafe\<close> for the send ring returns \<open>NULL\<close>;
  \<^item> otherwise, the four kernel calls for the send ring having succeeded and the
    capacity of the receive ring being the illegal one, \<open>STATUS_INVALID_PARAMETER\<close>.
\<close>

theorem register_rejects_illegal_capacity:
  assumes bad: "\<not> TunCapacityLegal (TUN_RING_CAPACITY (RingSize (RrbSend (SystemBuffer Irp)))) \<or>
      \<not> TunCapacityLegal (TUN_RING_CAPACITY (RingSize (RrbReceive (SystemBuffer Irp))))"
    and r: "TunDispatchRegisterBuffers e Irp Ctx K = (St, Ctx', K')"
  shows "St \<noteq> STATUS_SUCCESS \<and> K' = K \<and> Owner Ctx' = Owner Ctx \<and>
     (Flags Ctx AND TUN_FLAGS_CONNECTED = 0 \<longrightarrow> Flags Ctx' = Flags Ctx) \<and>
     (Owner Ctx \<noteq> NULL \<longrightarrow> St = STATUS_ALREADY_INITIALIZED) \<and>
     (Owner Ctx = NULL \<longrightarrow>
      \<not> TunCapacityLegal (TUN_RING_CAPACITY (RingSize (RrbSend (SystemBuffer Irp)))) \<longrightarrow>
        St = STATUS_INVALID_PARAMETER) \<and>
     (Owner Ctx = NULL \<longrightarrow>
      \<not> TunCapacityLegal (TUN_RING_CAPACITY (RingSize (RrbReceive (SystemBuffer Irp)))) \<longrightarrow>
      NT_SUCCESS (SendEventStatus e) \<longrightarrow> SendMdlAlloc e \<noteq> NULL \<longrightarrow> SendProbe e \<longrightarrow>
      SendMap e \<noteq> NULL \<longrightarrow>
        St = STATUS_INVALID_PARAMETER) \<and>
     (Owner Ctx = NULL \<longrightarrow>
      InputBufferLength Irp \<noteq> sizeof_TUN_REGISTER_RINGS \<or>
      TunRingRejected (TUN_RING_CAPACITY (RingSize (RrbSend (SystemBuffer Irp))))
        (RrbSend (SystemBuffer Irp)) \<longrightarrow>
        St = STATUS_INVALID_PARAMETER) \<and>
     (Owner Ctx = NULL \<longrightarrow> InputBufferLength Irp = sizeof_TUN_REGISTER_RINGS \<longrightarrow>
      \<not> TunRingRejected (TUN_RING_CAPACITY (RingSize (RrbSend (SystemBuffer Irp))))
          (RrbSend (SystemBuffer Irp)) \<longrightarrow>
        (\<not> NT_SUCCESS (SendEventStatus e) \<longrightarrow> St = SendEventStatus e) \<and>
        (NT_SUCCESS (SendEventStatus e) \<longrightarrow> SendMdlAlloc e = NULL \<longrightarrow>
           St = STATUS_INSUFFICIENT_RESOURCES) \<and>
        (NT_SUCCESS (SendEventStatus e) \<longrightarrow> SendMdlAlloc e \<noteq> NULL \<longrightarrow> \<not> SendProbe e \<longrightarrow>
           St = STATUS_INVALID_USER_BUFFER) \<and>
        (NT_SUCCESS (SendEventStatus e) \<longrightarrow> SendMdlAlloc e \<noteq> NULL \<longrightarrow> SendProbe e \<longrightarrow>
         SendMap e = NULL \<longrightarrow>
           St = STATUS_INSUFFICIENT_RESOURCES))"
proof -
  let ?S = "TunRingRejected (TUN_RING_CAPACITY (RingSize (RrbSend (SystemBuffer Irp))))
      (RrbSend (SystemBuffer Irp))"
  let ?R = "TunRingRejected (TUN_RING_CAPACITY (RingSize (RrbReceive (SystemBuffer Irp))))
      (RrbReceive (SystemBuffer Irp))"
  from r have s: "St = fst (TunDispatchRegisterBuffers e Irp Ctx K)" by simp
  from bad have rej: "?S \<or> ?R"
    by (auto simp add: TunRingRejected_iff)
  have f: "St \<noteq> STATUS_SUCCESS"
  proof
    assume "St = STATUS_SUCCESS"
    with r have "\<not> ?S \<and> \<not> ?R" using register_success [of e Irp Ctx K Ctx' K'] by simp
    with rej show False by simp
  qed
  note c = register_failure_ctx [OF r f]
  from c have "Flags Ctx' = Flags Ctx \<or>
      Flags Ctx' = (Flags Ctx OR TUN_FLAGS_CONNECTED) AND NOT TUN_FLAGS_CONNECTED"
    by simp
  then have fc: "Flags Ctx AND TUN_FLAGS_CONNECTED = 0 \<longrightarrow> Flags Ctx' = Flags Ctx"
    using flags_set_clear [of "Flags Ctx" TUN_FLAGS_CONNECTED] by auto
  from c register_failure_kernel [OF r f] have u: "K' = K \<and> Owner Ctx' = Owner Ctx"
    by simp
  have o: "St = STATUS_ALREADY_INITIALIZED" if "Owner Ctx \<noteq> NULL"
    using r that by (simp add: TunDispatchRegisterBuffers_def)
  have d: "St = STATUS_INVALID_PARAMETER"
    if "Owner Ctx = NULL" "InputBufferLength Irp \<noteq> sizeof_TUN_REGISTER_RINGS \<or> ?S"
    using that register_length_rejected [of Ctx Irp e K] register_send_rejected [of Ctx Irp e K]
    unfolding s by blast
  have a: "St = STATUS_INVALID_PARAMETER"
    if "Owner Ctx = NULL"
      "\<not> TunCapacityLegal (TUN_RING_CAPACITY (RingSize (RrbSend (SystemBuffer Irp))))"
  proof -
    from that(2) have ?S by (simp add: TunRingRejected_iff)
    with that(1) show ?thesis by (simp add: d)
  qed
  have b: "St = STATUS_INVALID_PARAMETER"
    if n: "Owner Ctx = NULL"
      and l: "\<not> TunCapacityLegal (TUN_RING_CAPACITY (RingSize (RrbReceive (SystemBuffer Irp))))"
      and k: "NT_SUCCESS (SendEventStatus e)" "SendMdlAlloc e \<noteq> NULL" "SendProbe e"
        "SendMap e \<noteq> NULL"
  proof (cases "InputBufferLength Irp = sizeof_TUN_REGISTER_RINGS \<and> \<not> ?S")
    case True
    from l have R: ?R by (simp add: TunRingRejected_iff)
    from True have "InputBufferLength Irp = sizeof_TUN_REGISTER_RINGS" "\<not> ?S" by simp_all
    with n show ?thesis unfolding s using k R by (rule register_receive_rejected)
  next
    case False
    with n show ?thesis by (simp add: d)
  qed
  have k: "(\<not> NT_SUCCESS (SendEventStatus e) \<longrightarrow> St = SendEventStatus e) \<and>
      (NT_SUCCESS (SendEventStatus e) \<longrightarrow> SendMdlAlloc e = NULL \<longrightarrow>
         St = STATUS_INSUFFICIENT_RESOURCES) \<and>
      (NT_SUCCESS (SendEventStatus e) \<longrightarrow> SendMdlAlloc e \<noteq> NULL \<longrightarrow> \<not> SendProbe e \<longrightarrow>
         St = STATUS_INVALID_USER_BUFFER) \<and>
      (NT_SUCCESS (SendEventStatus e) \<longrightarrow> SendMdlAlloc e \<noteq> NULL \<longrightarrow> SendProbe e \<longrightarrow>
       SendMap e = NULL \<longrightarrow>
         St = STATUS_INSUFFICIENT_RESOURCES)"
    if n: "Owner Ctx = NULL" "InputBufferLength Irp = sizeof_TUN_REGISTER_RINGS" "\<not> ?S"
    unfolding s
    using register_send_event_fails [OF n, of e K] register_send_mdl_fails [OF n, of e K]
      register_send_probe_fails [OF n, of e K] register_send_map_fails [OF n, of e K]
    by blast
  from f u fc o a b d k show ?thesis by blast
qed

theorem register_rejects_illegal_capacity_witness:
  "(\<exists>Ctx'. TunDispatchRegisterBuffers Example_RegEnv
      (Example_Irp\<lparr>SystemBuffer := Example_Rrb\<lparr>RrbReceive := (RrbReceive Example_Rrb)\<lparr>RingSize := 0\<rparr>\<rparr>\<rparr>)
      Example_Ctx_idle Example_Kernel = (STATUS_INVALID_PARAMETER, Ctx', Example_Kernel) \<and>
     Owner Ctx' = NULL \<and> Flags Ctx' = 3) \<and>
   fst (TunDispatchRegisterBuffers (Example_RegEnv\<lparr>SendEventStatus := STATUS_OTHER 5\<rparr>)
      (Example_Irp\<lparr>SystemBuffer := Example_Rrb\<lparr>RrbReceive := (RrbReceive Example_Rrb)\<lparr>RingSize := 0\<rparr>\<rparr>\<rparr>)
      Example_Ctx_idle Example_Kernel) = STATUS_OTHER 5 \<and>
   fst (TunDispatchRegisterBuffers (Example_RegEnv\<lparr>SendMdlAlloc := NULL\<rparr>)
      (Example_Irp\<lparr>SystemBuffer := Example_Rrb\<lparr>RrbReceive := (RrbReceive Example_Rrb)\<lparr>RingSize := 0\<rparr>\<rparr>\<rparr>)
      Example_Ctx_idle Example_Kernel) = STATUS_INSUFFICIENT_RESOURCES \<and>
   fst (TunDispatchRegisterBuffers (Example_RegEnv\<lparr>SendProbe := False\<rparr>)
      (Example_Irp\<lparr>SystemBuffer := Example_Rrb\<lparr>RrbReceive := (RrbReceive Example_Rrb)\<lparr>RingSize := 0\<rparr>\<rparr>\<rparr>)
      Example_Ctx_idle Example_Kernel) = STATUS_INVALID_USER_BUFFER \<and>
   fst (TunDispatchRegisterBuffers (Example_RegEnv\<lparr>SendMap := NULL\<rparr>)
      (Example_Irp\<lparr>SystemBuffer := Example_Rrb\<lparr>RrbReceive := (RrbReceive Example_Rrb)\<lparr>RingSize := 0\<rparr>\<rparr>\<rparr>)
      Example_Ctx_idle Example_Kernel) = STATUS_INSUFFICIENT_RESOURCES \<and>
   fst (TunDispatchRegisterBuffers Example_RegEnv
      (Example_Irp\<lparr>InputBufferLength := 47,
         SystemBuffer := Example_Rrb\<lparr>RrbReceive := (RrbReceive Example_Rrb)\<lparr>RingSize := 0\<rparr>\<rparr>\<rparr>)
      Example_Ctx_idle Example_Kernel) = STATUS_INVALID_PARAMETER \<and>
   fst (TunDispatchRegisterBuffers Example_RegEnv
      (Example_Irp\<lparr>SystemBuffer := Example_Rrb\<lparr>RrbSend := (RrbSend Example_Rrb)\<lparr>RingSize := 0\<rparr>\<rparr>\<rparr>)
      Example_Ctx_idle Example_Kernel) = STATUS_INVALID_PARAMETER \<and>
   fst (TunDispatchRegisterBuffers Example_RegEnv
      (Example_Irp\<lparr>SystemBuffer := Example_Rrb\<lparr>RrbSend := (RrbSend Example_Rrb)\<lparr>RingSize := 0\<rparr>\<rparr>\<rparr>)
      Example_Ctx Example_Kernel) = STATUS_ALREADY_INITIALIZED \<and>
   fst (TunDispatchRegisterBuffers Example_RegEnv
      (Example_Irp\<lparr>SystemBuffer :=
         \<lparr>RrbSend = (RrbSend Example_Rrb)\<lparr>TailMoved := NULL\<rparr>,
          RrbReceive = (RrbReceive Example_Rrb)\<lparr>RingSize := 0\<rparr>\<rparr>\<rparr>)
      Example_Ctx_idle Example_Kernel) = STATUS_INVALID_PARAMETER"
proof -
  let ?Event = "Example_Irp\<lparr>SystemBuffer :=
      \<lparr>RrbSend = (RrbSend Example_Rrb)\<lparr>TailMoved := NULL\<rparr>,
       RrbReceive = (RrbReceive Example_Rrb)\<lparr>RingSize := 0\<rparr>\<rparr>\<rparr>"
  let ?Irp = "Example_Irp\<lparr>SystemBuffer := Example_Rrb\<lparr>RrbReceive := (RrbReceive Example_Rrb)\<lparr>RingSize := 0\<rparr>\<rparr>\<rparr>"
  let ?Short = "Example_Irp\<lparr>InputBufferLength := 47,
      SystemBuffer := Example_Rrb\<lparr>RrbReceive := (RrbReceive Example_Rrb)\<lparr>RingSize := 0\<rparr>\<rparr>\<rparr>"
  let ?Send = "Example_Irp\<lparr>SystemBuffer := Example_Rrb\<lparr>RrbSend := (RrbSend Example_Rrb)\<lparr>RingSize := 0\<rparr>\<rparr>\<rparr>"
  have bad: "\<not> TunCapacityLegal (TUN_RING_CAPACITY (RingSize (RrbSend (SystemBuffer ?Irp)))) \<or>
      \<not> TunCapacityLegal (TUN_RING_CAPACITY (RingSize (RrbReceive (SystemBuffer ?Irp))))"
    by (simp add: Example_capacity_legal)
  have bad_short: "\<not> TunCapacityLegal (TUN_RING_CAPACITY (RingSize (RrbSend (SystemBuffer ?Short)))) \<or>
      \<not> TunCapacityLegal (TUN_RING_CAPACITY (RingSize (RrbReceive (SystemBuffer ?Short))))"
    by (simp add: Example_capacity_legal)
  have bad_send: "\<not> TunCapacityLegal (TUN_RING_CAPACITY (RingSize (RrbSend (SystemBuffer ?Send)))) \<or>
      \<not> TunCapacityLegal (TUN_RING_CAPACITY (RingSize (RrbReceive (SystemBuffer ?Send))))"
    by (simp add: Example_capacity_legal)
  have acc: "InputBufferLength ?Irp = sizeof_TUN_REGISTER_RINGS"
    "\<not> TunRingRejected (TUN_RING_CAPACITY (RingSize (RrbSend (SystemBuffer ?Irp))))
        (RrbSend (SystemBuffer ?Irp))"
    by (simp_all add: Example_request Example_capacity_legal Example_rings_accepted)
  have c: "Flags Example_Ctx_idle AND TUN_FLAGS_CONNECTED = 0"
    by (simp add: Example_request TUN_FLAGS_CONNECTED_def)
  have k: "NT_SUCCESS (SendEventStatus Example_RegEnv)" "SendMdlAlloc Example_RegEnv \<noteq> NULL"
    "SendProbe Example_RegEnv" "SendMap Example_RegEnv \<noteq> NULL"
    by (simp_all add: Example_RegEnv_def NT_SUCCESS_def NULL_def)
  have g: "(\<not> NT_SUCCESS (SendEventStatus e) \<longrightarrow>
        fst (TunDispatchRegisterBuffers e ?Irp Example_Ctx_idle Example_Kernel) = SendEventStatus e) \<and>
      (NT_SUCCESS (SendEventStatus e) \<longrightarrow> SendMdlAlloc e = NULL \<longrightarrow>
        fst (TunDispatchRegisterBuffers e ?Irp Example_Ctx_idle Example_Kernel) =
          STATUS_INSUFFICIENT_RESOURCES) \<and>
      (NT_SUCCESS (SendEventStatus e) \<longrightarrow> SendMdlAlloc e \<noteq> NULL \<longrightarrow> \<not> SendProbe e \<longrightarrow>
        fst (TunDispatchRegisterBuffers e ?Irp Example_Ctx_idle Example_Kernel) =
          STATUS_INVALID_USER_BUFFER) \<and>
      (NT_SUCCESS (SendEventStatus e) \<longrightarrow> SendMdlAlloc e \<noteq> NULL \<longrightarrow> SendProbe e \<longrightarrow>
       SendMap e = NULL \<longrightarrow>
        fst (TunDispatchRegisterBuffers e ?Irp Example_Ctx_idle Example_Kernel) =
          STATUS_INSUFFICIENT_RESOURCES)" for e
  proof -
    obtain St Ctx' K' where r:
      "TunDispatchRegisterBuffers e ?Irp Example_Ctx_idle Example_Kernel = (St, Ctx', K')"
      by (cases "TunDispatchRegisterBuffers e ?Irp Example_Ctx_idle Example_Kernel")
    from register_rejects_illegal_capacity [OF bad r] acc Example_request(6)
    show ?thesis unfolding r by simp
  qed
  have w1: "\<exists>Ctx'. TunDispatchRegisterBuffers Example_RegEnv ?Irp Example_Ctx_idle Example_Kernel =
      (STATUS_INVALID_PARAMETER, Ctx', Example_Kernel) \<and> Owner Ctx' = NULL \<and> Flags Ctx' = 3"
  proof -
    obtain St Ctx' K' where r:
      "TunDispatchRegisterBuffers Example_RegEnv ?Irp Example_Ctx_idle Example_Kernel = (St, Ctx', K')"
      by (cases "TunDispatchRegisterBuffers Example_RegEnv ?Irp Example_Ctx_idle Example_Kernel")
    from register_rejects_illegal_capacity [OF bad r] k c
    have "St = STATUS_INVALID_PARAMETER \<and> K' = Example_Kernel \<and> Owner Ctx' = NULL \<and> Flags Ctx' = 3"
      by (simp add: Example_request Example_capacity_legal)
    with r show ?thesis by blast
  qed
  have w2: "fst (TunDispatchRegisterBuffers (Example_RegEnv\<lparr>SendEventStatus := STATUS_OTHER 5\<rparr>)
      ?Irp Example_Ctx_idle Example_Kernel) = STATUS_OTHER 5"
    using g [of "Example_RegEnv\<lparr>SendEventStatus := STATUS_OTHER 5\<rparr>"]
    by (simp add: NT_SUCCESS_def)
  have w3: "fst (TunDispatchRegisterBuffers (Example_RegEnv\<lparr>SendMdlAlloc := NULL\<rparr>)
      ?Irp Example_Ctx_idle Example_Kernel) = STATUS_INSUFFICIENT_RESOURCES"
    using g [of "Example_RegEnv\<lparr>SendMdlAlloc := NULL\<rparr>"] k by simp
  have w4: "fst (TunDispatchRegisterBuffers (Example_RegEnv\<lparr>SendProbe := False\<rparr>)
      ?Irp Example_Ctx_idle Example_Kernel) = STATUS_INVALID_USER_BUFFER"
    using g [of "Example_RegEnv\<lparr>SendProbe := False\<rparr>"] k by simp
  have w5: "fst (TunDispatchRegisterBuffers (Example_RegEnv\<lparr>SendMap := NULL\<rparr>)
      ?Irp Example_Ctx_idle Example_Kernel) = STATUS_INSUFFICIENT_RESOURCES"
    using g [of "Example_RegEnv\<lparr>SendMap := NULL\<rparr>"] k by simp
  have w6: "fst (TunDispatchRegisterBuffers Example_RegEnv ?Short Example_Ctx_idle Example_Kernel) =
      STATUS_INVALID_PARAMETER"
  proof -
    obtain St Ctx' K' where r:
      "TunDispatchRegisterBuffers Example_RegEnv ?Short Example_Ctx_idle Example_Kernel = (St, Ctx', K')"
      by (cases "TunDispatchRegisterBuffers Example_RegEnv ?Short Example_Ctx_idle Example_Kernel")
    have "InputBufferLength ?Short \<noteq> sizeof_TUN_REGISTER_RINGS"
      by (simp add: sizeof_TUN_REGISTER_RINGS_def)
    with register_rejects_illegal_capacity [OF bad_short r] Example_request(6)
    show ?thesis unfolding r by simp
  qed
  have w7: "fst (TunDispatchRegisterBuffers Example_RegEnv ?Send Example_Ctx_idle Example_Kernel) =
      STATUS_INVALID_PARAMETER"
  proof -
    obtain St Ctx' K' where r:
      "TunDispatchRegisterBuffers Example_RegEnv ?Send Example_Ctx_idle Example_Kernel = (St, Ctx', K')"
      by (cases "TunDispatchRegisterBuffers Example_RegEnv ?Send Example_Ctx_idle Example_Kernel")
    have "\<not> TunCapacityLegal (TUN_RING_CAPACITY (RingSize (RrbSend (SystemBuffer ?Send))))"
      by (simp add: Example_capacity_legal)
    with register_rejects_illegal_capacity [OF bad_send r] Example_request(6)
    show ?thesis unfolding r by simp
  qed
  have w8: "fst (TunDispatchRegisterBuffers Example_RegEnv ?Send Example_Ctx Example_Kernel) =
      STATUS_ALREADY_INITIALIZED"
  proof -
    obtain St Ctx' K' where r:
      "TunDispatchRegisterBuffers Example_RegEnv ?Send Example_Ctx Example_Kernel = (St, Ctx', K')"
      by (cases "TunDispatchRegisterBuffers Example_RegEnv ?Send Example_Ctx Example_Kernel")
    have "Owner Example_Ctx \<noteq> NULL" by (simp add: Example_Ctx_def NULL_def)
    with register_rejects_illegal_capacity [OF bad_send r]
    show ?thesis unfolding r by simp
  qed
  have w9: "fst (TunDispatchRegisterBuffers Example_RegEnv ?Event Example_Ctx_idle Example_Kernel) =
      STATUS_INVALID_PARAMETER"
  proof -
    obtain St Ctx' K' where r:
      "TunDispatchRegisterBuffers Example_RegEnv ?Event Example_Ctx_idle Example_Kernel = (St, Ctx', K')"
      by (cases "TunDispatchRegisterBuffers Example_RegEnv ?Event Example_Ctx_idle Example_Kernel")
    have bad_event:
      "\<not> TunCapacityLegal (TUN_RING_CAPACITY (RingSize (RrbSend (SystemBuffer ?Event)))) \<or>
       \<not> TunCapacityLegal (TUN_RING_CAPACITY (RingSize (RrbReceive (SystemBuffer ?Event))))"
      by (simp add: Example_capacity_legal)
    have "TunRingRejected (TUN_RING_CAPACITY (RingSize (RrbSend (SystemBuffer ?Event))))
        (RrbSend (SystemBuffer ?Event))"
      by (simp add: TunRingRejected_iff)
    with register_rejects_illegal_capacity [OF bad_event r] Example_request(6)
    show ?thesis unfolding r by simp
  qed
  from w1 w2 w3 w4 w5 w6 w7 w8 w9 show ?thesis by (intro conjI)
qed

text \<open>
  The claim as it was stated fails: with an owner recorded the status is
  \<open>STATUS_ALREADY_INITIALIZED\<close> whatever the capacities are, and with an illegal capacity
  of the receive ring the status is that of the allocation of the MDL of the send
  ring when that fails first.
\<close>

theorem register_rejects_illegal_capacity_counterexample:
  "\<not> TunCapacityLegal (TUN_RING_CAPACITY
        (RingSize (RrbSend (SystemBuffer (Example_Irp\<lparr>SystemBuffer :=
           Example_Rrb\<lparr>RrbSend := (RrbSend Example_Rrb)\<lparr>RingSize := 0\<rparr>\<rparr>\<rparr>))))) \<and>
   fst (TunDispatchRegisterBuffers Example_RegEnv
          (Example_Irp\<lparr>SystemBuffer := Example_Rrb\<lparr>RrbSend := (RrbSend Example_Rrb)\<lparr>RingSize := 0\<rparr>\<rparr>\<rparr>)
          Example_Ctx Example_Kernel) = STATUS_ALREADY_INITIALIZED \<and>
   \<not> TunCapacityLegal (TUN_RING_CAPACITY
        (RingSize (RrbReceive (SystemBuffer (Example_Irp\<lparr>SystemBuffer :=
           Example_Rrb\<lparr>RrbReceive := (RrbReceive Example_Rrb)\<lparr>RingSize := 0\<rparr>\<rparr>\<rparr>))))) \<and>
   fst (TunDispatchRegisterBuffers (Example_RegEnv\<lparr>SendMdlAlloc := NULL\<rparr>)
          (Example_Irp\<lparr>SystemBuffer := Example_Rrb\<lparr>RrbReceive := (RrbReceive Example_Rrb)\<lparr>RingSize := 0\<rparr>\<rparr>\<rparr>)
          Example_Ctx_idle Example_Kernel) = STATUS_INSUFFICIENT_RESOURCES"
proof -
  have a: "fst (TunDispatchRegisterBuffers Example_RegEnv
      (Example_Irp\<lparr>SystemBuffer := Example_Rrb\<lparr>RrbSend := (RrbSend Example_Rrb)\<lparr>RingSize := 0\<rparr>\<rparr>\<rparr>)
      Example_Ctx Example_Kernel) = STATUS_ALREADY_INITIALIZED"
    by (simp add: TunDispatchRegisterBuffers_def Example_Ctx_def NULL_def)
  have b: "fst (TunDispatchRegisterBuffers (Example_RegEnv\<lparr>SendMdlAlloc := NULL\<rparr>)
      (Example_Irp\<lparr>SystemBuffer := Example_Rrb\<lparr>RrbReceive := (RrbReceive Example_Rrb)\<lparr>RingSize := 0\<rparr>\<rparr>\<rparr>)
      Example_Ctx_idle Example_Kernel) = STATUS_INSUFFICIENT_RESOURCES"
    by (simp add: register_defs Let_def Example_request Example_capacity_legal
        Example_rings_accepted NT_SUCCESS_def)
      (simp add: Example_RegEnv_def)
  show ?thesis
    by (simp add: a b Example_capacity_legal)
qed



section \<open>Teardown by somebody else\<close>

lemma unregister_clears_owner:
  "Owner Ctx = Ownr \<Longrightarrow> Owner (fst (TunDispatchUnregisterBuffers e Ownr Ctx K)) = NULL"
  by (simp add: TunDispatchUnregisterBuffers_def Let_def)

text \<open>
  Claim C7. The teardown called with a file object that is not the recorded owner
  changes nothing: the context and the kernel state, with its rings, events and
  resources, are returned as they were. So the second of two teardowns in a row with
  the same file object changes nothing.
\<close>

theorem unregister_not_owner_noop:
  "(Ownr \<noteq> Owner Ctx \<longrightarrow> TunDispatchUnregisterBuffers e Ownr Ctx K = (Ctx, K)) \<and>
   (Ownr \<noteq> NULL \<longrightarrow>
      TunDispatchUnregisterBuffers e' Ownr
        (fst (TunDispatchUnregisterBuffers e Ownr Ctx K))
        (snd (TunDispatchUnregisterBuffers e Ownr Ctx K)) =
      TunDispatchUnregisterBuffers e Ownr Ctx K)"
proof (intro conjI impI)
  assume "Ownr \<noteq> Owner Ctx"
  then show "TunDispatchUnregisterBuffers e Ownr Ctx K = (Ctx, K)"
    by (auto simp add: TunDispatchUnregisterBuffers_def)
next
  assume n: "Ownr \<noteq> NULL"
  obtain Ctx1 K1 where r: "TunDispatchUnregisterBuffers e Ownr Ctx K = (Ctx1, K1)"
    by (cases "TunDispatchUnregisterBuffers e Ownr Ctx K")
  have "Owner Ctx1 \<noteq> Ownr"
  proof (cases "Owner Ctx = Ownr")
    case True
    then have "Owner (fst (TunDispatchUnregisterBuffers e Ownr Ctx K)) = NULL"
      by (rule unregister_clears_owner)
    with r n show ?thesis by auto
  next
    case False
    with r show ?thesis by (simp add: TunDispatchUnregisterBuffers_def)
  qed
  then have "TunDispatchUnregisterBuffers e' Ownr Ctx1 K1 = (Ctx1, K1)"
    by (simp add: TunDispatchUnregisterBuffers_def)
  with r show "TunDispatchUnregisterBuffers e' Ownr
      (fst (TunDispatchUnregisterBuffers e Ownr Ctx K))
      (snd (TunDispatchUnregisterBuffers e Ownr Ctx K)) =
    TunDispatchUnregisterBuffers e Ownr Ctx K"
    by simp
qed

theorem unregister_not_owner_noop_witness:
  "TunDispatchUnregisterBuffers \<lparr>ThreadReference = STATUS_SUCCESS\<rparr> 0x21 Example_Ctx Example_Kernel =
     (Example_Ctx, Example_Kernel) \<and>
   TunDispatchUnregisterBuffers \<lparr>ThreadReference = STATUS_SUCCESS\<rparr> 0x20
     (fst (TunDispatchUnregisterBuffers \<lparr>ThreadReference = STATUS_SUCCESS\<rparr> 0x20
        Example_Ctx Example_Kernel))
     (snd (TunDispatchUnregisterBuffers \<lparr>ThreadReference = STATUS_SUCCESS\<rparr> 0x20
        Example_Ctx Example_Kernel)) =
   TunDispatchUnregisterBuffers \<lparr>ThreadReference = STATUS_SUCCESS\<rparr> 0x20 Example_Ctx Example_Kernel \<and>
   Owner (fst (TunDispatchUnregisterBuffers \<lparr>ThreadReference = STATUS_SUCCESS\<rparr> 0x20
        Example_Ctx Example_Kernel)) = NULL \<and>
   Owner Example_Ctx = 0x20"
proof -
  have o: "Owner Example_Ctx = 0x20" "(0x21 :: PVOID) \<noteq> Owner Example_Ctx" "(0x20 :: PVOID) \<noteq> NULL"
    by (simp_all add: Example_Ctx_def NULL_def)
  note a = unregister_not_owner_noop [where Ownr = "0x21" and Ctx = Example_Ctx
      and e = "\<lparr>ThreadReference = STATUS_SUCCESS\<rparr>" and K = Example_Kernel,
      THEN conjunct1, rule_format, OF o(2)]
  note b = unregister_not_owner_noop [where Ownr = "0x20" and Ctx = Example_Ctx
      and e = "\<lparr>ThreadReference = STATUS_SUCCESS\<rparr>" and K = Example_Kernel
      and e' = "\<lparr>ThreadReference = STATUS_SUCCESS\<rparr>",
      THEN conjunct2, rule_format, OF o(3)]
  note c = unregister_clears_owner [OF o(1), of "\<lparr>ThreadReference = STATUS_SUCCESS\<rparr>" Example_Kernel]
  from a b c o(1) show ?thesis by blast
qed

section \<open>Round trip through an empty ring\<close>

text \<open>
  The round trip with nothing assumed of the receive path: on an adapter whose two
  rings are one empty ring of a legal capacity, a payload that starts like an IPv4
  header is accepted by the send path, and the next pass of the receive loop
  indicates exactly that payload and leaves the ring empty again.
\<close>

lemma flags_present_running:
  fixes F :: LONG
  assumes "F AND TUN_FLAGS_PRESENT \<noteq> 0" "F AND TUN_FLAGS_RUNNING \<noteq> 0"
  shows "F AND (TUN_FLAGS_PRESENT OR TUN_FLAGS_RUNNING) = (TUN_FLAGS_PRESENT OR TUN_FLAGS_RUNNING)"
proof -
  from assms(1) have "F AND 2 ^ 1 \<noteq> 0" by (simp add: TUN_FLAGS_PRESENT_def)
  then have b1: "bit F 1" by (simp only: and_exp_eq_0_iff_not_bit) simp
  from assms(2) have "F AND 2 ^ 0 \<noteq> 0" by (simp add: TUN_FLAGS_RUNNING_def)
  then have b0: "bit F 0" by (simp only: and_exp_eq_0_iff_not_bit) simp
  have m: "TUN_FLAGS_PRESENT OR TUN_FLAGS_RUNNING = mask 2"
    by (simp add: TUN_FLAGS_PRESENT_def TUN_FLAGS_RUNNING_def mask_eq_exp_minus_1)
  have "F AND mask 2 = mask 2"
  proof (rule bit_eqI)
    fix n
    assume "possible_bit TYPE(LONG) n"
    have "n < 2 \<Longrightarrow> bit F n"
      using b0 b1 by (cases "n = 0") (auto simp add: less_2_cases_iff)
    then show "bit (F AND mask 2) n \<longleftrightarrow> bit (mask 2 :: LONG) n"
      by (auto simp add: bit_and_iff bit_mask_iff)
  qed
  then show ?thesis by (simp only: m)
qed

lemma content_of_advance:
  assumes cap: "Capacity = 2 ^ i" "TUN_MIN_RING_CAPACITY \<le> Capacity"
    and fp: "fp < Capacity"
  shows "RingContent (TUN_RING_WRAP (t + fp) Capacity) t Capacity = fp"
proof -
  from cap have i: "2 \<le> i" "i < 32" using capacity_exponent by blast+
  define T F where "T = uint t" and "F = uint fp"
  have w: "uint (take_bit i (t + fp)) = (T + F) mod 2 ^ i"
    using i uint_wrap [of i "T + F"]
    by (simp add: T_def F_def)
  have c: "uint Capacity = 2 ^ i" using i cap by (simp add: uint_2p word_less_nat_alt unat_gt_0)
  have "uint (take_bit i (take_bit i (t + fp) - t)) =
      (uint (take_bit i (t + fp)) - T) mod 2 ^ i"
    using i uint_wrap [of i "uint (take_bit i (t + fp)) - T"]
    by (simp add: T_def)
  then have "uint (RingContent (TUN_RING_WRAP (t + fp) Capacity) t Capacity) =
      ((T + F) mod 2 ^ i - T) mod 2 ^ i"
    using i by (simp only: w RingContent_def cap wrap_pow2)
  also have "\<dots> = ((T + F) - T) mod 2 ^ i"
    by (rule mod_diff_left_eq)
  also have "\<dots> = F mod 2 ^ i" by simp
  also have "\<dots> = F"
    using fp c by (intro mod_pos_pos_trivial) (simp_all add: F_def word_less_def)
  finally show ?thesis
    by (simp add: F_def word_uint_eq_iff)
qed


lemma TUN_ALIGN_header:
  assumes "n \<le> TUN_MAX_IP_PACKET_SIZE"
  shows "sizeof_TUN_PACKET \<le> TUN_ALIGN (sizeof_TUN_PACKET + n)"
proof -
  let ?fp = "TUN_ALIGN (sizeof_TUN_PACKET + n)"
  have "?fp \<noteq> 0" using assms by (rule TUN_ALIGN_nonzero)
  then have "0 < unat ?fp" by (simp add: unat_gt_0)
  moreover have "unat ?fp mod 4 = 0"
    using is_aligned_TUN_ALIGN [of "sizeof_TUN_PACKET + n"]
    by (simp add: is_aligned_def TUN_ALIGNMENT_def)
  ultimately have "4 \<le> unat ?fp" by presburger
  then show ?thesis by (simp add: word_le_nat_alt sizeof_TUN_PACKET_def)
qed

lemma RingSpace_less:
  assumes "Capacity = 2 ^ i" "TUN_MIN_RING_CAPACITY \<le> Capacity"
  shows "RingSpace h t Capacity < Capacity"
proof -
  from assms have i: "2 \<le> i" "i < 32" using capacity_exponent by blast+
  then have "take_bit i (h - t - TUN_ALIGNMENT) < 2 ^ i" by (intro take_bit_less_pow2)
  with i show ?thesis by (simp add: RingSpace_def assms(1) wrap_pow2)
qed

lemma round_trip_empty_ring:
  assumes cap: "SendCapacity (Send Ctx) = 2 ^ i" "TUN_MIN_RING_CAPACITY \<le> SendCapacity (Send Ctx)"
    and loop: "ReceiveRing (Receive Ctx) = SendRing (Send Ctx)"
      "ReceiveCapacity (Receive Ctx) = SendCapacity (Send Ctx)"
    and fl: "Flags Ctx AND TUN_FLAGS_PRESENT \<noteq> 0" "Flags Ctx AND TUN_FLAGS_RUNNING \<noteq> 0"
      "Flags Ctx AND TUN_FLAGS_CONNECTED \<noteq> 0"
    and valid: "TUN_RING_valid (SendCapacity (Send Ctx)) (Rings K (SendRing (Send Ctx)))"
    and empty: "Head (Rings K (SendRing (Send Ctx))) = Tail (Rings K (SendRing (Send Ctx)))"
    and len: "length payload \<le> unat TUN_MAX_IP_PACKET_SIZE"
    and nb: "NbBytes Nb = payload" "NbMapping Nb \<noteq> NbUnmappable"
    and space: "TUN_ALIGN (sizeof_TUN_PACKET + of_nat (length payload)) \<le>
      RingSpace (Head (Rings K (SendRing (Send Ctx)))) (Tail (Rings K (SendRing (Send Ctx))))
        (SendCapacity (Send Ctx))"
    and ip: "20 \<le> length payload" "drop_bit 4 (hd payload) = 4"
    and alloc: "NblAlloc e \<noteq> NULL"
  shows "\<exists>K' K''.
     TunSendNetBuffer (Flags Ctx) Ctx Nb K = (Sent (of_nat (length payload)), K') \<and>
     TunReceiveIteration e Ctx K' =
       (LoopContinue, TunIndicateReceived (of_nat (length payload)) Ctx, K'') \<and>
     Indicated K'' =
       \<lparr>NblFlags = NDIS_NBL_FLAGS_IS_IPV4, NblProto = NDIS_ETH_TYPE_IPV4,
        NblPayload = payload\<rparr> # Indicated K \<and>
     Head (Rings K'' (SendRing (Send Ctx))) = Tail (Rings K'' (SendRing (Send Ctx)))"
proof -
  let ?R = "SendRing (Send Ctx)"
  let ?C = "SendCapacity (Send Ctx)"
  let ?t = "Tail (Rings K ?R)"
  let ?L = "of_nat (length payload) :: ULONG"
  let ?fp = "TUN_ALIGN (sizeof_TUN_PACKET + ?L)"
  let ?K' = "SendAccepted Ctx Nb K"
  let ?t' = "TUN_RING_WRAP (?t + ?fp) ?C"
  have n: "NET_BUFFER_DATA_LENGTH Nb = ?L"
    by (simp add: NET_BUFFER_DATA_LENGTH_def nb)
  have u: "unat ?L = length payload" and le: "?L \<le> TUN_MAX_IP_PACKET_SIZE"
    using unat_of_nat_payload [OF len] by simp_all
  from valid have ht: "Head (Rings K ?R) < ?C" "?t < ?C" and al: "is_aligned ?t"
    by (simp_all add: TUN_RING_valid_def)
  have s: "TunSendNetBuffer (Flags Ctx) Ctx Nb K = (Sent ?L, ?K')"
    using TunSendNetBuffer_accept [OF fl _ ht _ nb(2)] le space by (simp add: n)
  have ring': "Rings ?K' ?R = (Rings K ?R)
      \<lparr>Data := NdisMoveMemory (store_ULONG (Data (Rings K ?R)) (unat ?t) ?L)
                 (unat ?t + unat sizeof_TUN_PACKET) (take (unat ?L) payload),
       Tail := ?t'\<rparr>"
    using Rings_SendAccepted [of Ctx Nb K] by (simp add: n nb)
  have ind': "Indicated ?K' = Indicated K"
    by (simp add: SendAccepted_def KeSetEvent_def Let_def)
  have "?fp \<le> RingSpace (Head (Rings K ?R)) ?t ?C" by (rule space)
  also have "\<dots> < ?C" using cap by (rule RingSpace_less)
  finally have fpc: "?fp < ?C" .
  have content: "RingContent ?t' ?t ?C = ?fp"
    using cap fpc by (rule content_of_advance)
  have fp0: "?fp \<noteq> 0" using le by (rule TUN_ALIGN_nonzero)
  have t'c: "?t' < ?C"
    using wrap_advance_valid [OF cap al] by simp
  have ne: "?t \<noteq> ?t'"
  proof
    assume "?t = ?t'"
    then have "RingContent ?t' ?t ?C = RingContent ?t ?t ?C" by simp
    also have "\<dots> = 0" by (simp add: RingContent_def TUN_RING_WRAP_def)
    finally show False using content fp0 by simp
  qed
  have ps: "Packet_Size (Rings ?K' ?R) ?t = ?L"
    using SendAccepted_reads(1) [of Nb Ctx K] u by (simp add: n nb)
  have pd: "Packet_Data (Rings ?K' ?R) ?t ?L = payload"
    using SendAccepted_reads(2) [of Nb Ctx K] u by (simp add: n nb)
  from ip(1) have pl: "payload \<noteq> []" by auto
  have d0: "Data (Rings ?K' ?R) (unat ?t + unat sizeof_TUN_PACKET) = hd payload"
    using ip(1) pl by (simp add: ring' NdisMoveMemory_def u hd_conv_nth)
  have l20: "20 \<le> ?L"
    using ip(1) u by (simp add: word_le_nat_alt)
  have cl: "TunClassify (Rings ?K' ?R) ?t ?L = Some (NDIS_NBL_FLAGS_IS_IPV4, NDIS_ETH_TYPE_IPV4)"
    using l20 ip(2) by (simp add: TunClassify_def d0)
  have dec: "TunPacketDecoded Ctx ?t ?t' ?K'"
    using t'c TUN_ALIGN_header [OF le] le
    by (simp add: TunPacketDecoded_def Let_def loop content ps cl)
  have hd': "Head (Rings ?K' ?R) = ?t" "Tail (Rings ?K' ?R) = ?t'"
    by (simp_all add: ring' empty)
  have it: "TunReceiveIteration e Ctx ?K' = TunReceivePacket (Flags Ctx) e Ctx ?t ?t' ?K'"
    using TunReceiveIteration_nonempty [of Ctx ?K' e] fl(3) ht(2) ne
    by (simp add: loop hd')
  let ?K'' = "ReceiveAdvance Ctx ?t (ReceiveIndicated Ctx ?t ?K')"
  have rx: "TunReceivePacket (Flags Ctx) e Ctx ?t ?t' ?K' =
      (LoopContinue, TunIndicateReceived ?L Ctx, ?K'')"
    using TunReceivePacket_deliver [OF dec alloc flags_present_running [OF fl(1,2)]]
    by (simp add: loop ps)
  have i'': "Indicated ?K'' =
      \<lparr>NblFlags = NDIS_NBL_FLAGS_IS_IPV4, NblProto = NDIS_ETH_TYPE_IPV4,
       NblPayload = payload\<rparr> # Indicated K"
    by (simp add: ReceiveAdvance_def ReceiveIndicated_def Let_def loop ps cl pd ind')
  have h'': "Head (Rings ?K'' ?R) = Tail (Rings ?K'' ?R)"
    using Rings_ReceiveAdvance [of Ctx ?t "ReceiveIndicated Ctx ?t ?K'"]
    by (simp add: loop Rings_ReceiveIndicated ps hd')
  from s it rx i'' h'' show ?thesis by (intro exI [of _ ?K'] exI [of _ ?K'']) simp
qed

end
